(* ===== verification/Go_Prelude.thy ===== *)
theory Go_Prelude
  imports Main "HOL-Library.Word" "HOL-Library.Char_ord" "HOL-Library.List_Lexorder"
begin

text \<open>
  What the two plugins use of the Go language and of its standard package
  \<^verbatim>\<open>strings\<close>: byte strings, \<^verbatim>\<open>strings.ToLower\<close>,
  \<^verbatim>\<open>strings.TrimSpace\<close>, \<^verbatim>\<open>strings.TrimSuffix\<close>,
  \<^verbatim>\<open>strings.Split\<close>, \<^verbatim>\<open>strings.Join\<close>, \<^verbatim>\<open>strings.Replace\<close>,
  and the iteration of a \<^verbatim>\<open>map\<close> in an order the language leaves open.
  A Go string is a sequence of bytes, so it is a \<^typ>\<open>string\<close>: every \<^typ>\<open>char\<close> is
  one byte, and Go's comparison of strings is the lexicographic order on bytes that
  \<^theory_text>\<open>List_Lexorder\<close> and \<^theory_text>\<open>Char_ord\<close> provide.
\<close>

named_theorems go_simps \<open>rewriting rules for Go's string functions\<close>
named_theorems store_simps \<open>what a lookup returns after each operation of a record store\<close>

section \<open>Types\<close>

type_synonym int64 = "64 word"
type_synonym uint32 = "32 word"
type_synonym uint8 = "8 word"
type_synonym hostname = string
type_synonym ip_text = string
type_synonym 'v go_map = "string \<Rightarrow> 'v option"

lemma sint_eq_iff [simp]: "sint a = sint b \<longleftrightarrow> a = b"
  for a b :: "'a::len word"
  by (metis of_int_sint scast_id)

text \<open>The outcome of a call that may dereference a nil pointer.\<close>

datatype 'a go_result = Returned 'a | Panicked

text \<open>
  The order in which \<^verbatim>\<open>range\<close> visits the keys of a map is left open by the
  language: it is a parameter \<open>ord\<close> of the code that iterates, and \<open>range_order\<close> says
  that each key is visited once.
\<close>

definition range_order :: "('v go_map \<Rightarrow> string list) \<Rightarrow> bool" where
  "range_order ord \<longleftrightarrow> (\<forall>m. finite (dom m) \<longrightarrow> distinct (ord m) \<and> set (ord m) = dom m)"

definition sorted_order :: "'v go_map \<Rightarrow> string list" where
  "sorted_order m = sorted_list_of_set (dom m)"

lemma range_order_sorted: "range_order sorted_order"
  by (simp add: range_order_def sorted_order_def)

text \<open>Appending what was not seen before: the loops with a map \<^verbatim>\<open>seen\<close>.\<close>

definition keep_new :: "'a \<Rightarrow> 'a list \<Rightarrow> 'a list" where
  "keep_new x xs = (if x \<in> set xs then xs else xs @ [x])"

lemma fold_keep_new: "fold keep_new xs [] = rev (remdups (rev xs))"
  by (induction xs rule: rev_induct) (auto simp: keep_new_def)

section \<open>Strings\<close>

definition byte_of :: "char \<Rightarrow> nat" where
  "byte_of c = of_char c"

text \<open>
  \<^verbatim>\<open>strings.ToLower\<close> has two paths: a string of bytes below
  \<^verbatim>\<open>utf8.RuneSelf\<close> (128) is mapped byte by byte; any other string goes through
  \<^verbatim>\<open>strings.Map(unicode.ToLower, s)\<close>, whose Unicode tables are the parameter
  \<open>ul\<close>. The only fact about the tables that is ever used is \<open>lower_ok\<close>: lowering
  a string twice gives the string lowered once.
\<close>

definition is_ascii :: "string \<Rightarrow> bool" where
  "is_ascii s \<longleftrightarrow> list_all (\<lambda>c. byte_of c < 128) s"

definition ascii_lower :: "char \<Rightarrow> char" where
  "ascii_lower c = (if 65 \<le> byte_of c \<and> byte_of c \<le> 90 then char_of (byte_of c + 32) else c)"

definition ToLower :: "(string \<Rightarrow> string) \<Rightarrow> string \<Rightarrow> string" where
  "ToLower ul s = (if is_ascii s then map ascii_lower s else ul s)"

definition lower_ok :: "(string \<Rightarrow> string) \<Rightarrow> bool" where
  "lower_ok ul \<longleftrightarrow> (\<forall>s. ToLower ul (ToLower ul s) = ToLower ul s)"

definition HasSuffix :: "string \<Rightarrow> string \<Rightarrow> bool" where
  "HasSuffix s suf \<longleftrightarrow> length suf \<le> length s \<and> drop (length s - length suf) s = suf"

definition TrimSuffix :: "string \<Rightarrow> string \<Rightarrow> string" where
  "TrimSuffix s suf = (if HasSuffix s suf then take (length s - length suf) s else s)"

lemma byte_of_lt_256 [simp]: "byte_of c < 256"
  by (simp add: byte_of_def)

lemma byte_of_char_of: "n < 256 \<Longrightarrow> byte_of (char_of n) = n"
  by (simp add: byte_of_def)

lemma byte_of_ascii_lower [simp]:
  "byte_of (ascii_lower c) = (if 65 \<le> byte_of c \<and> byte_of c \<le> 90 then byte_of c + 32 else byte_of c)"
  by (simp add: ascii_lower_def byte_of_char_of)

lemma ascii_lower_idem [simp]: "ascii_lower (ascii_lower c) = ascii_lower c"
  by (simp add: ascii_lower_def byte_of_char_of)

lemma is_ascii_Nil [simp]: "is_ascii []"
  and is_ascii_Cons [simp]: "is_ascii (c # s) \<longleftrightarrow> byte_of c < 128 \<and> is_ascii s"
  and is_ascii_append [simp]: "is_ascii (s @ t) \<longleftrightarrow> is_ascii s \<and> is_ascii t"
  by (simp_all add: is_ascii_def)

lemma is_ascii_map_lower [simp]: "is_ascii (map ascii_lower s) = is_ascii s"
  by (induction s) auto

lemma ToLower_ascii [go_simps]: "is_ascii s \<Longrightarrow> ToLower ul s = map ascii_lower s"
  by (simp add: ToLower_def)

lemma ToLower_ascii_idem: "is_ascii s \<Longrightarrow> ToLower ul (ToLower ul s) = ToLower ul s"
  by (simp add: ToLower_def comp_def)

lemma lower_okD [simp]: "lower_ok ul \<Longrightarrow> ToLower ul (ToLower ul s) = ToLower ul s"
  by (simp add: lower_ok_def)

lemma lower_ok_id: "lower_ok (\<lambda>s. s)"
  by (auto simp: lower_ok_def ToLower_def comp_def)

text \<open>Evaluation on literal bytes.\<close>

lemma byte_of_Char [simp]:
  "byte_of (Char b0 b1 b2 b3 b4 b5 b6 b7) =
     horner_sum of_bool 2 [b0, b1, b2, b3, b4, b5, b6, b7]"
  by (simp add: byte_of_def)

lemma ascii_lower_letters:
  "ascii_lower (CHR ''A'') = CHR ''a''"
  "ascii_lower (CHR ''B'') = CHR ''b''"
  "ascii_lower (CHR ''C'') = CHR ''c''"
  "ascii_lower (CHR ''D'') = CHR ''d''"
  "ascii_lower (CHR ''E'') = CHR ''e''"
  "ascii_lower (CHR ''F'') = CHR ''f''"
  "ascii_lower (CHR ''G'') = CHR ''g''"
  "ascii_lower (CHR ''H'') = CHR ''h''"
  "ascii_lower (CHR ''I'') = CHR ''i''"
  "ascii_lower (CHR ''J'') = CHR ''j''"
  "ascii_lower (CHR ''K'') = CHR ''k''"
  "ascii_lower (CHR ''L'') = CHR ''l''"
  "ascii_lower (CHR ''M'') = CHR ''m''"
  "ascii_lower (CHR ''N'') = CHR ''n''"
  "ascii_lower (CHR ''O'') = CHR ''o''"
  "ascii_lower (CHR ''P'') = CHR ''p''"
  "ascii_lower (CHR ''Q'') = CHR ''q''"
  "ascii_lower (CHR ''R'') = CHR ''r''"
  "ascii_lower (CHR ''S'') = CHR ''s''"
  "ascii_lower (CHR ''T'') = CHR ''t''"
  "ascii_lower (CHR ''U'') = CHR ''u''"
  "ascii_lower (CHR ''V'') = CHR ''v''"
  "ascii_lower (CHR ''W'') = CHR ''w''"
  "ascii_lower (CHR ''X'') = CHR ''x''"
  "ascii_lower (CHR ''Y'') = CHR ''y''"
  "ascii_lower (CHR ''Z'') = CHR ''z''"
  by code_simp+

lemma ascii_lower_other: "byte_of c < 65 \<or> 90 < byte_of c \<Longrightarrow> ascii_lower c = c"
  by (auto simp: ascii_lower_def)

lemmas lower_eval = ToLower_def ascii_lower_letters ascii_lower_other

lemma TrimSuffix_append [simp]: "TrimSuffix (s @ suf) suf = s"
  by (simp add: TrimSuffix_def HasSuffix_def)

lemma TrimSuffix_other: "\<not> HasSuffix s suf \<Longrightarrow> TrimSuffix s suf = s"
  by (simp add: TrimSuffix_def)


section \<open>Splitting, joining, trimming\<close>

text \<open>\<^verbatim>\<open>strings.Split\<close> with a separator of one byte.\<close>

fun split_on :: "char \<Rightarrow> string \<Rightarrow> string list" where
  "split_on sep [] = [[]]"
| "split_on sep (c # s) =
     (if c = sep then [] # split_on sep s
      else case split_on sep s of [] \<Rightarrow> [[c]] | p # ps \<Rightarrow> (c # p) # ps)"

text \<open>\<^verbatim>\<open>strings.Join\<close>.\<close>

fun join_with :: "string \<Rightarrow> string list \<Rightarrow> string" where
  "join_with sep [] = []"
| "join_with sep [p] = p"
| "join_with sep (p # ps) = p @ sep @ join_with sep ps"

text \<open>
  \<^verbatim>\<open>strings.TrimSpace\<close>: the runes of \<^verbatim>\<open>unicode.IsSpace\<close> in
  their UTF-8 bytes: the six ASCII ones, U+0085 and U+00A0, and U+1680, U+2000 to U+200A,
  U+2028, U+2029, U+202F, U+205F and U+3000.
\<close>

definition space1 :: "char \<Rightarrow> bool" where
  "space1 c \<longleftrightarrow> (9 \<le> byte_of c \<and> byte_of c \<le> 13) \<or> byte_of c = 32"

definition space2 :: "char \<Rightarrow> char \<Rightarrow> bool" where
  "space2 a b \<longleftrightarrow> byte_of a = 194 \<and> (byte_of b = 133 \<or> byte_of b = 160)"

definition space3 :: "char \<Rightarrow> char \<Rightarrow> char \<Rightarrow> bool" where
  "space3 a b c \<longleftrightarrow>
     (byte_of a = 225 \<and> byte_of b = 154 \<and> byte_of c = 128) \<or>
     (byte_of a = 226 \<and> byte_of b = 128 \<and>
        ((128 \<le> byte_of c \<and> byte_of c \<le> 138) \<or> byte_of c = 168 \<or> byte_of c = 169 \<or> byte_of c = 175)) \<or>
     (byte_of a = 226 \<and> byte_of b = 129 \<and> byte_of c = 159) \<or>
     (byte_of a = 227 \<and> byte_of b = 128 \<and> byte_of c = 128)"

fun trim_left :: "string \<Rightarrow> string" where
  "trim_left (a # b # c # s) =
     (if space1 a then trim_left (b # c # s)
      else if space2 a b then trim_left (c # s)
      else if space3 a b c then trim_left s
      else a # b # c # s)"
| "trim_left [a, b] = (if space1 a then trim_left [b] else if space2 a b then [] else [a, b])"
| "trim_left [a] = (if space1 a then [] else [a])"
| "trim_left [] = []"

text \<open>The same from the other end, on the reversed string.\<close>

fun trim_rev :: "string \<Rightarrow> string" where
  "trim_rev (c # b # a # s) =
     (if space1 c then trim_rev (b # a # s)
      else if space2 b c then trim_rev (a # s)
      else if space3 a b c then trim_rev s
      else c # b # a # s)"
| "trim_rev [b, a] = (if space1 b then trim_rev [a] else if space2 a b then [] else [b, a])"
| "trim_rev [a] = (if space1 a then [] else [a])"
| "trim_rev [] = []"

definition TrimSpace :: "string \<Rightarrow> string" where
  "TrimSpace s = rev (trim_rev (rev (trim_left s)))"

lemma split_on_nonempty [simp]: "split_on sep s \<noteq> []"
  by (cases s) (auto split: list.splits)

lemma split_on_no_sep: "sep \<notin> set s \<Longrightarrow> split_on sep s = [s]"
  by (induction s) auto

lemma split_on_parts: "p \<in> set (split_on sep s) \<Longrightarrow> sep \<notin> set p"
proof (induction s arbitrary: p)
  case (Cons c s)
  then show ?case by (cases "split_on sep s") (auto split: if_splits)
qed simp

lemma join_split: "join_with [sep] (split_on sep s) = s"
proof (induction s)
  case (Cons c s)
  obtain p ps where "split_on sep s = p # ps" by (cases "split_on sep s") auto
  with Cons show ?case by (cases ps) auto
qed simp

lemma join_with_Cons: "join_with sep (p # ps) = p @ (if ps = [] then [] else sep @ join_with sep ps)"
  by (cases ps) simp_all

lemma split_on_append: "sep \<notin> set p \<Longrightarrow> split_on sep (p @ sep # s) = p # split_on sep s"
  by (induction p) auto

lemma split_join:
  assumes "\<forall>p \<in> set ps. sep \<notin> set p" "ps \<noteq> []"
  shows "split_on sep (join_with [sep] ps) = ps"
  using assms
proof (induction ps)
  case (Cons p ps)
  then show ?case by (cases "ps = []") (simp_all add: join_with_Cons split_on_no_sep split_on_append)
qed simp

lemma trim_left_plain: "s = [] \<or> 32 < byte_of (hd s) \<and> byte_of (hd s) < 128 \<Longrightarrow> trim_left s = s"
  by (cases s rule: trim_left.cases) (auto simp: space1_def space2_def space3_def)

lemma trim_rev_plain: "s = [] \<or> 32 < byte_of (hd s) \<and> byte_of (hd s) < 128 \<Longrightarrow> trim_rev s = s"
  by (cases s rule: trim_rev.cases) (auto simp: space1_def space2_def space3_def)

lemma TrimSpace_plain:
  assumes "\<forall>c \<in> set s. 32 < byte_of c \<and> byte_of c < 128"
  shows "TrimSpace s = s"
proof (cases "s = []")
  case True
  then show ?thesis by (simp add: TrimSpace_def)
next
  case False
  then have "32 < byte_of (hd s) \<and> byte_of (hd s) < 128" "32 < byte_of (hd (rev s)) \<and> byte_of (hd (rev s)) < 128"
    using assms by (auto simp: hd_rev)
  then show ?thesis by (simp add: TrimSpace_def trim_left_plain trim_rev_plain)
qed

end
