(* ===== verification/Interfaces.thy ===== *)
theory Interfaces
  imports Go_Prelude
begin

text \<open>
  The contracts the components of both plugins rely on, each stated once:
  \<^item> \<open>record_store\<close>, what a DNS record table promises its writers (the Docker watcher,
    the file watcher) and its reader (the query handler);
  \<^item> \<open>replicated_store\<close>, what a table fed by gossip has to promise so that the order and the
    repetition of messages do not matter;
  \<^item> \<open>wire_codec\<close>, that a receiver decodes what a sender encoded;
  \<^item> \<open>step_invariant\<close>, the induction over the reachable states of a step relation;
  \<^item> \<open>bounded_progress\<close>, a system whose every step uses up some of its work.
  They are interpreted on the model of the code in the theories of the components that
  provide them.
\<close>

section \<open>A DNS record table\<close>

locale record_store =
  fixes empty :: 's
    and add :: "'s \<Rightarrow> hostname \<Rightarrow> ip_text \<Rightarrow> 's"
    and remove :: "'s \<Rightarrow> hostname \<Rightarrow> 's"
    and lookup :: "'s \<Rightarrow> hostname \<Rightarrow> ip_text option"
    and norm :: "hostname \<Rightarrow> hostname"
  assumes lookup_empty: "lookup empty h = None"
    and lookup_add: "lookup (add s h ip) h' = (if norm h' = norm h then Some ip else lookup s h')"
    and lookup_remove: "lookup (remove s h) h' = (if norm h' = norm h then None else lookup s h')"
begin

lemma lookup_remove_all:
  "lookup (foldl remove s hs) h = (if norm h \<in> norm ` set hs then None else lookup s h)"
  by (induction hs arbitrary: s) (auto simp: lookup_remove)

lemma lookup_add_all:
  "lookup (foldl (\<lambda>s h. add s h ip) s hs) h
     = (if norm h \<in> norm ` set hs then Some ip else lookup s h)"
  by (induction hs arbitrary: s) (auto simp: lookup_add)

lemma lookup_replace:
  "lookup (foldl (\<lambda>s h. add s h ip) (foldl remove s old) new) h
     = (if norm h \<in> norm ` set new then Some ip
        else if norm h \<in> norm ` set old then None else lookup s h)"
  by (simp add: lookup_add_all lookup_remove_all)

lemma lookup_case_blind:
  "norm h = norm h' \<Longrightarrow> lookup (add s h ip) h' = Some ip \<and> lookup (remove s h) h' = None"
  by (simp add: lookup_add lookup_remove)

end

section \<open>Messages whose order does not matter\<close>

locale replicated_store =
  fixes deliver :: "'m \<Rightarrow> 's \<Rightarrow> 's"
    and agree :: "'m \<Rightarrow> 'm \<Rightarrow> bool"
  assumes deliver_idem: "deliver m (deliver m s) = deliver m s"
    and deliver_comm: "agree m n \<Longrightarrow> deliver m (deliver n s) = deliver n (deliver m s)"
begin

lemma fold_idem_on:
  assumes "\<forall>m \<in> M. \<forall>n \<in> M. agree m n"
  shows "comp_fun_idem_on M deliver"
proof
  show "deliver y \<circ> deliver x = deliver x \<circ> deliver y" if "x \<in> M" "y \<in> M" for x y
    using assms that by (auto simp: fun_eq_iff intro: deliver_comm)
  show "deliver x \<circ> deliver x = deliver x" if "x \<in> M" for x
    by (simp add: fun_eq_iff deliver_idem)
qed

lemma convergence:
  assumes "\<forall>m \<in> set xs. \<forall>n \<in> set xs. agree m n" and "set xs = set ys"
  shows "fold deliver xs s = fold deliver ys s"
proof -
  note fold_idem_on [OF assms(1)]
  from comp_fun_idem_on.fold_set_fold [OF this, of xs s]
       comp_fun_idem_on.fold_set_fold [OF this, of ys s] assms(2)
  show ?thesis by simp
qed

text \<open>A message that was delivered before may be delivered again at any later time.\<close>

lemma redelivery:
  assumes "\<forall>m \<in> set xs. \<forall>n \<in> set xs. agree m n" and "m \<in> set xs"
  shows "deliver m (fold deliver xs s) = fold deliver xs s"
proof -
  have "fold deliver (xs @ [m]) s = fold deliver xs s"
    using assms by (intro convergence) auto
  then show ?thesis by simp
qed

end

section \<open>What a sender and a receiver agree on\<close>

locale wire_codec =
  fixes encode :: "'m \<Rightarrow> string option"
    and decode :: "string \<Rightarrow> 'm option"
    and sendable :: "'m \<Rightarrow> bool"
  assumes encodes: "sendable m \<Longrightarrow> \<exists>b. encode m = Some b \<and> b \<noteq> []"
    and decodes: "sendable m \<Longrightarrow> encode m = Some b \<Longrightarrow> decode b = Some m"
begin

text \<open>What a receiver that skips empty and undecodable packets does with a packet of a sender.\<close>

lemma received:
  assumes "sendable m"
  obtains b where "encode m = Some b" "b \<noteq> []" "decode b = Some m"
  using encodes [OF assms] decodes [OF assms] by blast

lemma no_confusion: "sendable m \<Longrightarrow> sendable n \<Longrightarrow> encode m = encode n \<Longrightarrow> m = n"
  by (metis decodes encodes option.inject)

end

section \<open>Reachable states\<close>

inductive reachable :: "('s \<Rightarrow> bool) \<Rightarrow> ('s \<Rightarrow> 's \<Rightarrow> bool) \<Rightarrow> 's \<Rightarrow> bool"
  for init :: "'s \<Rightarrow> bool" and step :: "'s \<Rightarrow> 's \<Rightarrow> bool" where
  reachable_init: "init s \<Longrightarrow> reachable init step s"
| reachable_step: "reachable init step s \<Longrightarrow> step s t \<Longrightarrow> reachable init step t"

lemma reachable_steps: "reachable init step s \<Longrightarrow> step\<^sup>*\<^sup>* s t \<Longrightarrow> reachable init step t"
  by (rotate_tac, induction rule: rtranclp_induct) (auto intro: reachable_step)

locale step_invariant =
  fixes init :: "'s \<Rightarrow> bool"
    and step :: "'s \<Rightarrow> 's \<Rightarrow> bool"
    and inv :: "'s \<Rightarrow> bool"
  assumes inv_init: "init s \<Longrightarrow> inv s"
    and inv_step: "inv s \<Longrightarrow> step s t \<Longrightarrow> inv t"
begin

lemma inv_reachable: "reachable init step s \<Longrightarrow> inv s"
  by (induction rule: reachable.induct) (auto intro: inv_init inv_step)

lemma inv_run: "step\<^sup>*\<^sup>* s t \<Longrightarrow> inv s \<Longrightarrow> inv t"
  by (induction rule: rtranclp_induct) (auto intro: inv_step)

end

text \<open>
  A system that makes progress under an invariant: every step decreases a natural number. A run
  is then no longer than that number, and a run that cannot go on is reached from everywhere.
\<close>

locale bounded_progress =
  fixes step :: "'s \<Rightarrow> 's \<Rightarrow> bool"
    and inv :: "'s \<Rightarrow> bool"
    and work :: "'s \<Rightarrow> nat"
  assumes keeps: "inv s \<Longrightarrow> step s t \<Longrightarrow> inv t"
    and works: "inv s \<Longrightarrow> step s t \<Longrightarrow> work t < work s"
begin

lemma run_bounded: "(step ^^ n) s t \<Longrightarrow> inv s \<Longrightarrow> inv t \<and> n + work t \<le> work s"
proof (induction n arbitrary: t)
  case (Suc n)
  then obtain u where "(step ^^ n) s u" "step u t" by auto
  with Suc.IH [of u] Suc.prems(2) keeps [of u t] works [of u t] show ?case by simp
qed simp

lemma run_ends: "inv s \<Longrightarrow> \<exists>t. step\<^sup>*\<^sup>* s t \<and> inv t \<and> (\<forall>u. \<not> step t u)"
proof (induction "work s" arbitrary: s rule: less_induct)
  case less
  show ?case
  proof (cases "\<exists>u. step s u")
    case True
    then obtain u where u: "step s u" by blast
    from less.hyps [OF works [OF less.prems u] keeps [OF less.prems u]] u
    show ?thesis by (meson converse_rtranclp_into_rtranclp)
  qed (use less.prems in blast)
qed

end

end
