(* ===== verification/Go_Strconv.thy ===== *)
theory Go_Strconv
  imports Go_Prelude
begin

text \<open>
  What the plugins use of \<^verbatim>\<open>strconv\<close> and of \<^verbatim>\<open>fmt\<close>'s
  \<^verbatim>\<open>%d\<close>, in base 10: \<^verbatim>\<open>ParseUint\<close> with a width in bits,
  \<^verbatim>\<open>Atoi\<close> (an optional sign, then digits, in the range of a 64-bit
  \<^verbatim>\<open>int\<close>) and the printing of integers. A syntax or range error is
  \<open>None\<close>; every caller only tests for it.
\<close>

definition is_digit :: "char \<Rightarrow> bool" where
  "is_digit c \<longleftrightarrow> 48 \<le> byte_of c \<and> byte_of c \<le> 57"

definition digit_char :: "nat \<Rightarrow> char" where
  "digit_char d = char_of (48 + d)"

definition dec_value :: "string \<Rightarrow> nat" where
  "dec_value s = foldl (\<lambda>n c. 10 * n + (byte_of c - 48)) 0 s"

definition ParseUint :: "string \<Rightarrow> nat \<Rightarrow> nat option" where
  "ParseUint s bits =
     (if s \<noteq> [] \<and> list_all is_digit s \<and> dec_value s < 2 ^ bits then Some (dec_value s) else None)"

definition Atoi :: "string \<Rightarrow> int option" where
  "Atoi s =
     (let (neg, ds) = (case s of
          [] \<Rightarrow> (False, [])
        | c # r \<Rightarrow> if c = CHR ''-'' then (True, r) else if c = CHR ''+'' then (False, r) else (False, s))
      in if ds = [] \<or> \<not> list_all is_digit ds then None
         else if \<not> neg \<and> dec_value ds < 2 ^ 63 then Some (int (dec_value ds))
         else if neg \<and> dec_value ds \<le> 2 ^ 63 then Some (- int (dec_value ds))
         else None)"

fun show_nat :: "nat \<Rightarrow> string" where
  "show_nat n = (if n < 10 then [digit_char n] else show_nat (n div 10) @ [digit_char (n mod 10)])"

declare show_nat.simps [simp del]

definition show_int :: "int \<Rightarrow> string" where
  "show_int i = (if i < 0 then CHR ''-'' # show_nat (nat (- i)) else show_nat (nat i))"

lemma digit_chars:
  "digit_char 1 = CHR ''1''"
  "digit_char 0 = CHR ''0''"
  "digit_char (Suc 0) = CHR ''1''"
  "digit_char 2 = CHR ''2''"
  "digit_char 3 = CHR ''3''"
  "digit_char 4 = CHR ''4''"
  "digit_char 5 = CHR ''5''"
  "digit_char 6 = CHR ''6''"
  "digit_char 7 = CHR ''7''"
  "digit_char 8 = CHR ''8''"
  "digit_char 9 = CHR ''9''"
  by code_simp+

text \<open>Evaluation on numerals.\<close>

lemmas show_eval = show_int_def show_nat.simps digit_chars

lemma byte_of_digit_char [simp]: "d < 10 \<Longrightarrow> byte_of (digit_char d) = 48 + d"
  by (simp add: digit_char_def byte_of_char_of)

lemma is_digit_digit_char [simp]: "d < 10 \<Longrightarrow> is_digit (digit_char d)"
  by (simp add: is_digit_def)

lemma dec_value_Nil [simp]: "dec_value [] = 0"
  by (simp add: dec_value_def)

lemma dec_value_snoc [simp]: "dec_value (s @ [c]) = 10 * dec_value s + (byte_of c - 48)"
  by (simp add: dec_value_def)

lemma show_nat_nonempty [simp]: "show_nat n \<noteq> []"
  by (subst show_nat.simps) simp

lemma show_nat_digits [simp]: "list_all is_digit (show_nat n)"
proof (induction n rule: show_nat.induct)
  case (1 n)
  then show ?case by (subst show_nat.simps) (simp add: list_all_append)
qed

lemma dec_value_single [simp]: "dec_value [c] = byte_of c - 48"
  by (simp add: dec_value_def)

lemma dec_value_show_nat [simp]: "dec_value (show_nat n) = n"
proof (induction n rule: show_nat.induct)
  case (1 n)
  then show ?case by (subst show_nat.simps) simp
qed

lemma ParseUint_show_nat: "ParseUint (show_nat n) bits = (if n < 2 ^ bits then Some n else None)"
  by (simp add: ParseUint_def)

lemma ParseUint_bound: "ParseUint s bits = Some n \<Longrightarrow> n < 2 ^ bits"
  by (auto simp: ParseUint_def split: if_splits)

lemma show_nat_hd: "is_digit (hd (show_nat n))"
  by (metis show_nat_digits show_nat_nonempty list.pred_set hd_in_set)

lemma is_digit_not_sign: "is_digit c \<Longrightarrow> c \<noteq> CHR ''-'' \<and> c \<noteq> CHR ''+''"
  by (auto simp: is_digit_def)

lemma Atoi_unsigned:
  assumes "s \<noteq> []" "list_all is_digit s"
  shows "Atoi s = (if dec_value s < 2 ^ 63 then Some (int (dec_value s)) else None)"
  using assms is_digit_not_sign [of "hd s"]
  by (cases s) (auto simp: Atoi_def)

lemma Atoi_show_int:
  assumes "- (2 ^ 63) \<le> i" "i < 2 ^ 63"
  shows "Atoi (show_int i) = Some i"
proof (cases "i < 0")
  case True
  with assms show ?thesis by (simp add: show_int_def Atoi_def nat_le_iff)
next
  case False
  then have "nat i < 2 ^ 63" using assms by (simp add: nat_less_iff)
  with False show ?thesis by (simp add: show_int_def Atoi_unsigned)
qed

lemma Atoi_range: "Atoi s = Some i \<Longrightarrow> - (2 ^ 63) \<le> i \<and> i < 2 ^ 63"
  by (auto simp: Atoi_def Let_def split: list.splits if_splits)

end
