(* ===== verification/Go_Json.thy ===== *)
theory Go_Json
  imports Go_Strconv
begin

text \<open>
  What the gossip messages use of \<^verbatim>\<open>encoding/json\<close>: the syntax of RFC 8259
  as the package accepts it (whitespace, nesting bounded by 10000, escapes, surrogate
  pairs, invalid UTF-8 replaced by U+FFFD), the writer of strings with its HTML escapes,
  and the decoding of a value into a Go string, \<^verbatim>\<open>int64\<close>,
  \<^verbatim>\<open>uint8\<close> or \<^verbatim>\<open>int\<close> field. The grammar is a recursive descent with fuel.
\<close>

section \<open>UTF-8\<close>

definition in_range :: "nat \<Rightarrow> nat \<Rightarrow> char \<Rightarrow> bool" where
  "in_range lo hi c \<longleftrightarrow> lo \<le> byte_of c \<and> byte_of c \<le> hi"

text \<open>
  The number of bytes of the rune that starts a string whose first byte is not ASCII
  (\<^verbatim>\<open>utf8.DecodeRune\<close>), or \<open>None\<close> if the bytes are not a rune.
\<close>

fun utf8_width :: "string \<Rightarrow> nat option" where
  "utf8_width (a # b # s) =
     (if in_range 194 223 a then (if in_range 128 191 b then Some 2 else None)
      else if (byte_of a = 224 \<and> in_range 160 191 b) \<or> (in_range 225 236 a \<and> in_range 128 191 b) \<or>
              (byte_of a = 237 \<and> in_range 128 159 b) \<or> (in_range 238 239 a \<and> in_range 128 191 b)
      then (case s of c # _ \<Rightarrow> if in_range 128 191 c then Some 3 else None | [] \<Rightarrow> None)
      else if (byte_of a = 240 \<and> in_range 144 191 b) \<or> (in_range 241 243 a \<and> in_range 128 191 b) \<or>
              (byte_of a = 244 \<and> in_range 128 143 b)
      then (case s of c # d # _ \<Rightarrow> if in_range 128 191 c \<and> in_range 128 191 d then Some 4 else None
            | _ \<Rightarrow> None)
      else None)"
| "utf8_width _ = None"

definition encode_rune :: "nat \<Rightarrow> string" where
  "encode_rune u =
     (if u < 128 then [char_of u]
      else if u < 2048 then [char_of (192 + u div 64), char_of (128 + u mod 64)]
      else if u < 65536 then
        [char_of (224 + u div 4096), char_of (128 + u div 64 mod 64), char_of (128 + u mod 64)]
      else [char_of (240 + u div 262144), char_of (128 + u div 4096 mod 64),
            char_of (128 + u div 64 mod 64), char_of (128 + u mod 64)])"

definition replacement :: string where
  "replacement = encode_rune 65533"

function valid_utf8 :: "string \<Rightarrow> bool" where
  "valid_utf8 [] = True"
| "valid_utf8 (c # s) =
     (if byte_of c < 128 then valid_utf8 s
      else case utf8_width (c # s) of
             None \<Rightarrow> False
           | Some w \<Rightarrow> valid_utf8 (drop (w - 1) s))"
  by pat_completeness auto
termination by (relation "measure length") auto

section \<open>Writing strings\<close>

definition hex_char :: "nat \<Rightarrow> char" where
  "hex_char d = (if d < 10 then char_of (48 + d) else char_of (87 + d))"

definition html_safe :: "char \<Rightarrow> bool" where
  "html_safe c \<longleftrightarrow> 32 \<le> byte_of c \<and> byte_of c < 128 \<and>
     c \<notin> {CHR 0x22, CHR 0x5C, CHR ''<'', CHR ''>'', CHR ''&''}"

definition escape_byte :: "char \<Rightarrow> string" where
  "escape_byte c =
     (if c = CHR 0x5C \<or> c = CHR 0x22 then [CHR 0x5C, c]
      else if byte_of c = 8 then [CHR 0x5C, CHR ''b'']
      else if byte_of c = 12 then [CHR 0x5C, CHR ''f'']
      else if byte_of c = 10 then [CHR 0x5C, CHR ''n'']
      else if byte_of c = 13 then [CHR 0x5C, CHR ''r'']
      else if byte_of c = 9 then [CHR 0x5C, CHR ''t'']
      else [CHR 0x5C, CHR ''u'', CHR ''0'', CHR ''0'', hex_char (byte_of c div 16), hex_char (byte_of c mod 16)])"

definition write_rune :: "string \<Rightarrow> string" where
  "write_rune rune =
     (if rune = encode_rune 8232 then [CHR 0x5C] @ ''u2028''
      else if rune = encode_rune 8233 then [CHR 0x5C] @ ''u2029''
      else rune)"

function append_string :: "string \<Rightarrow> string" where
  "append_string [] = []"
| "append_string (c # s) =
     (if byte_of c < 128 then
        (if html_safe c then [c] else escape_byte c) @ append_string s
      else case utf8_width (c # s) of
        None \<Rightarrow> [CHR 0x5C] @ ''ufffd'' @ append_string s
      | Some w \<Rightarrow>
          write_rune (c # take (w - 1) s) @ append_string (drop (w - 1) s))"
  by pat_completeness auto
termination by (relation "measure length") auto

definition json_string :: "string \<Rightarrow> string" where
  "json_string s = [CHR 0x22] @ append_string s @ [CHR 0x22]"

section \<open>Reading strings\<close>

definition hex_val :: "char \<Rightarrow> nat option" where
  "hex_val c =
     (if in_range 48 57 c then Some (byte_of c - 48)
      else if in_range 97 102 c then Some (byte_of c - 87)
      else if in_range 65 70 c then Some (byte_of c - 55)
      else None)"

fun getu4 :: "string \<Rightarrow> nat option" where
  "getu4 (a # b # c # d # s) =
     (case (hex_val a, hex_val b, hex_val c, hex_val d) of
        (Some w, Some x, Some y, Some z) \<Rightarrow> Some (4096 * w + 256 * x + 16 * y + z)
      | _ \<Rightarrow> None)"
| "getu4 _ = None"

definition simple_escape :: "char \<Rightarrow> char option" where
  "simple_escape e =
     (if e \<in> {CHR 0x22, CHR 0x5C, CHR ''/''} then Some e
      else if e = CHR ''b'' then Some (CHR 0x08)
      else if e = CHR ''f'' then Some (CHR 0x0C)
      else if e = CHR ''n'' then Some (CHR 0x0A)
      else if e = CHR ''r'' then Some (CHR 0x0D)
      else if e = CHR ''t'' then Some (CHR 0x09)
      else None)"

text \<open>The second half of a surrogate pair, if the text goes on with one.\<close>

definition low_surrogate :: "string \<Rightarrow> nat option" where
  "low_surrogate s =
     (case s of
        a # b # r \<Rightarrow>
          if a = CHR 0x5C \<and> b = CHR ''u'' then
            (case getu4 r of
               Some v \<Rightarrow> if 56320 \<le> v \<and> v < 57344 then Some v else None
             | None \<Rightarrow> None)
          else None
      | _ \<Rightarrow> None)"

definition emit :: "string \<Rightarrow> (string \<times> string) option \<Rightarrow> (string \<times> string) option" where
  "emit t res = map_option (\<lambda>(u, r). (t @ u, r)) res"

function read_string :: "string \<Rightarrow> (string \<times> string) option" where
  "read_string [] = None"
| "read_string (c # s) =
     (if c = CHR 0x22 then Some ([], s)
      else if c = CHR 0x5C then
        (case s of
           [] \<Rightarrow> None
         | e # r \<Rightarrow>
             (case simple_escape e of
                Some b \<Rightarrow> emit [b] (read_string r)
              | None \<Rightarrow>
                  if e \<noteq> CHR ''u'' then None
                  else case getu4 r of
                    None \<Rightarrow> None
                  | Some u \<Rightarrow>
                      if 55296 \<le> u \<and> u < 57344 then
                        (case (u < 56320, low_surrogate (drop 4 r)) of
                           (True, Some v) \<Rightarrow>
                             emit (encode_rune (65536 + (u - 55296) * 1024 + (v - 56320)))
                               (read_string (drop 10 r))
                         | _ \<Rightarrow> emit replacement (read_string (drop 4 r)))
                      else emit (encode_rune u) (read_string (drop 4 r))))
      else if byte_of c < 32 then None
      else if byte_of c < 128 then emit [c] (read_string s)
      else case utf8_width (c # s) of
             None \<Rightarrow> emit replacement (read_string s)
           | Some w \<Rightarrow> emit (c # take (w - 1) s) (read_string (drop (w - 1) s)))"
  by pat_completeness auto
termination by (relation "measure length") auto

declare valid_utf8.simps(2) [simp del] append_string.simps(2) [simp del] read_string.simps(2) [simp del]


section \<open>Strings survive writing and reading\<close>

lemma byte_of_inject [simp]: "byte_of c = byte_of d \<longleftrightarrow> c = d"
  by (simp add: byte_of_def)

lemma char_of_byte_of [simp]: "char_of (byte_of c) = c"
  by (simp add: byte_of_def)

lemma emit_Some [simp]: "emit t (Some (u, r)) = Some (t @ u, r)"
  by (simp add: emit_def)

lemma utf8_width_bounds: "utf8_width s = Some w \<Longrightarrow> 2 \<le> w \<and> w \<le> 4 \<and> w \<le> length s"
  by (cases s rule: utf8_width.cases) (auto split: if_splits list.splits)

lemma utf8_width_take:
  assumes "utf8_width (c # s) = Some w"
  shows "utf8_width (c # take (w - 1) s @ t) = Some w"
proof (cases s)
  case Nil
  with assms show ?thesis by simp
next
  case (Cons b r)
  with assms show ?thesis
    by (auto simp: numeral_eq_Suc split: if_splits list.splits)
qed

lemma hex_val_hex_char: "d < 16 \<Longrightarrow> hex_val (hex_char d) = Some d"
  by (auto simp: hex_val_def hex_char_def in_range_def byte_of_char_of)

lemma byte_eqD: "byte_of c = n \<Longrightarrow> c = char_of n"
  by (metis char_of_byte_of)

lemma byte_of_control:
  "byte_of c = 8 \<longleftrightarrow> c = CHR 0x08" "byte_of c = 12 \<longleftrightarrow> c = CHR 0x0C" "byte_of c = 10 \<longleftrightarrow> c = CHR 0x0A"
  "byte_of c = 13 \<longleftrightarrow> c = CHR 0x0D" "byte_of c = 9 \<longleftrightarrow> c = CHR 0x09"
  by (auto simp flip: byte_of_inject)

lemma read_u00:
  assumes "byte_of c < 128"
  shows "read_string ([CHR 0x5C, CHR ''u'', CHR ''0'', CHR ''0'',
      hex_char (byte_of c div 16), hex_char (byte_of c mod 16)] @ t) = emit [c] (read_string t)"
proof -
  have "getu4 ([CHR ''0'', CHR ''0'', hex_char (byte_of c div 16), hex_char (byte_of c mod 16)] @ t)
      = Some (byte_of c)"
    using assms by (simp add: hex_val_hex_char, simp add: hex_val_def in_range_def)
  with assms show ?thesis
    by (simp add: read_string.simps(2) simple_escape_def encode_rune_def del: getu4.simps)
qed

lemma read_simple_escape:
  "simple_escape e = Some b \<Longrightarrow> read_string (CHR 0x5C # e # t) = emit [b] (read_string t)"
  by (simp add: read_string.simps(2))

lemma read_escape_byte:
  assumes "byte_of c < 128"
  shows "read_string (escape_byte c @ t) = emit [c] (read_string t)"
proof -
  consider "c = CHR 0x5C" | "c = CHR 0x22" | "c = CHR 0x08" | "c = CHR 0x0C" | "c = CHR 0x0A"
    | "c = CHR 0x0D" | "c = CHR 0x09"
    | "c \<notin> {CHR 0x5C, CHR 0x22, CHR 0x08, CHR 0x0C, CHR 0x0A, CHR 0x0D, CHR 0x09}" by blast
  then show ?thesis
  proof cases
    case 8
    then have "escape_byte c = [CHR 0x5C, CHR ''u'', CHR ''0'', CHR ''0'',
        hex_char (byte_of c div 16), hex_char (byte_of c mod 16)]"
      by (simp add: escape_byte_def byte_of_control)
    with read_u00 [OF assms] show ?thesis by metis
  qed (simp_all add: escape_byte_def read_simple_escape simple_escape_def)
qed

lemma read_rune:
  assumes "128 \<le> byte_of c" "utf8_width (c # s) = Some w"
  shows "read_string ((c # take (w - 1) s) @ t) = emit (c # take (w - 1) s) (read_string t)"
proof -
  from utf8_width_bounds [OF assms(2)] have "length (take (w - 1) s) = w - 1" by auto
  with assms utf8_width_take [OF assms(2), of t] show ?thesis
    by (auto simp: read_string.simps(2))
qed

lemma read_u2028: "read_string ([CHR 0x5C] @ ''u2028'' @ t) = emit (encode_rune 8232) (read_string t)"
  and read_u2029: "read_string ([CHR 0x5C] @ ''u2029'' @ t) = emit (encode_rune 8233) (read_string t)"
  by (simp_all add: read_string.simps(2) simple_escape_def hex_val_def in_range_def)

lemma read_write_rune:
  assumes "128 \<le> byte_of c" "utf8_width (c # s) = Some w"
  shows "read_string (write_rune (c # take (w - 1) s) @ t) = emit (c # take (w - 1) s) (read_string t)"
  using read_rune [OF assms, of t] read_u2028 [of t] read_u2029 [of t] by (simp add: write_rune_def)

lemma read_append_string:
  "valid_utf8 s \<Longrightarrow> read_string (append_string s @ CHR 0x22 # rest) = Some (s, rest)"
proof (induction s rule: valid_utf8.induct)
  case 1
  then show ?case by (simp add: read_string.simps(2))
next
  case (2 c s)
  show ?case
  proof (cases "byte_of c < 128")
    case True
    with 2 have IH: "read_string (append_string s @ CHR 0x22 # rest) = Some (s, rest)"
      by (simp add: valid_utf8.simps(2))
    from True IH show ?thesis
      by (auto simp: append_string.simps(2) read_escape_byte)
         (auto simp: read_string.simps(2) html_safe_def)
  next
    case False
    with 2(3) obtain w where w: "utf8_width (c # s) = Some w" and v: "valid_utf8 (drop (w - 1) s)"
      by (auto simp: valid_utf8.simps(2) split: option.splits)
    from 2(2) [OF False w v] have IH: "read_string (append_string (drop (w - 1) s) @ CHR 0x22 # rest)
        = Some (drop (w - 1) s, rest)" .
    from IH False w read_write_rune [OF _ w] show ?thesis
      by (simp add: append_string.simps(2))
  qed
qed


section \<open>Values: the grammar\<close>

datatype json =
    JNull
  | JBool bool
  | JNum string
  | JStr string
  | JArr "json list"
  | JObj "(string \<times> json) list"

definition is_ws :: "char \<Rightarrow> bool" where
  "is_ws c \<longleftrightarrow> c \<in> {CHR '' '', CHR 0x09, CHR 0x0D, CHR 0x0A}"

primrec skip_ws :: "string \<Rightarrow> string" where
  "skip_ws [] = []"
| "skip_ws (c # s) = (if is_ws c then skip_ws s else c # s)"

definition maxNestingDepth :: nat where
  "maxNestingDepth = 10000"

definition scan_int :: "string \<Rightarrow> (string \<times> string) option" where
  "scan_int s =
     (case s of
        [] \<Rightarrow> None
      | c # r \<Rightarrow>
          if c = CHR ''0'' then Some ([c], r)
          else if is_digit c then Some (takeWhile is_digit s, dropWhile is_digit s)
          else None)"

definition scan_frac :: "string \<Rightarrow> (string \<times> string) option" where
  "scan_frac s =
     (case s of
        [] \<Rightarrow> Some ([], s)
      | c # r \<Rightarrow>
          if c \<noteq> CHR ''.'' then Some ([], s)
          else if takeWhile is_digit r = [] then None
          else Some (c # takeWhile is_digit r, dropWhile is_digit r))"

definition scan_exp :: "string \<Rightarrow> (string \<times> string) option" where
  "scan_exp s =
     (case s of
        [] \<Rightarrow> Some ([], s)
      | c # r \<Rightarrow>
          if c \<noteq> CHR ''e'' \<and> c \<noteq> CHR ''E'' then Some ([], s)
          else
            (let sign = (case r of [] \<Rightarrow> [] | x # _ \<Rightarrow> if x = CHR ''+'' \<or> x = CHR ''-'' then [x] else []);
                 r' = drop (length sign) r
             in if takeWhile is_digit r' = [] then None
                else Some (c # sign @ takeWhile is_digit r', dropWhile is_digit r')))"

definition scan_number :: "string \<Rightarrow> (string \<times> string) option" where
  "scan_number s =
     (let (sign, s0) = (case s of c # r \<Rightarrow> if c = CHR ''-'' then ([c], r) else ([], s) | [] \<Rightarrow> ([], s))
      in case scan_int s0 of
           None \<Rightarrow> None
         | Some (i, s1) \<Rightarrow>
             (case scan_frac s1 of
                None \<Rightarrow> None
              | Some (f, s2) \<Rightarrow>
                  (case scan_exp s2 of
                     None \<Rightarrow> None
                   | Some (e, s3) \<Rightarrow> Some (sign @ i @ f @ e, s3))))"

definition scan_word :: "string \<Rightarrow> json \<Rightarrow> string \<Rightarrow> (json \<times> string) option" where
  "scan_word w j s = (if take (length w) s = w then Some (j, drop (length w) s) else None)"

text \<open>
  The first argument is fuel, the second the number of objects and arrays that are open.
\<close>

fun jvalue :: "nat \<Rightarrow> nat \<Rightarrow> string \<Rightarrow> (json \<times> string) option"
  and jmembers :: "nat \<Rightarrow> nat \<Rightarrow> string \<Rightarrow> ((string \<times> json) list \<times> string) option"
  and jelems :: "nat \<Rightarrow> nat \<Rightarrow> string \<Rightarrow> (json list \<times> string) option"
where
  "jvalue 0 d s = None"
| "jvalue (Suc n) d s =
     (case skip_ws s of
        [] \<Rightarrow> None
      | c # r \<Rightarrow>
          if c = CHR 0x22 then map_option (map_prod JStr id) (read_string r)
          else if c = CHR ''{'' then
            (if maxNestingDepth \<le> d then None
             else case skip_ws r of
                    [] \<Rightarrow> None
                  | x # r' \<Rightarrow>
                      if x = CHR ''}'' then Some (JObj [], r')
                      else map_option (map_prod JObj id) (jmembers n (Suc d) r))
          else if c = CHR ''['' then
            (if maxNestingDepth \<le> d then None
             else case skip_ws r of
                    [] \<Rightarrow> None
                  | x # r' \<Rightarrow>
                      if x = CHR '']'' then Some (JArr [], r')
                      else (case jvalue n (Suc d) r of
                              None \<Rightarrow> None
                            | Some (v, r1) \<Rightarrow>
                                map_option (map_prod (\<lambda>vs. JArr (v # vs)) id) (jelems n (Suc d) r1)))
          else if c = CHR ''t'' then scan_word ''true'' (JBool True) (c # r)
          else if c = CHR ''f'' then scan_word ''false'' (JBool False) (c # r)
          else if c = CHR ''n'' then scan_word ''null'' JNull (c # r)
          else map_option (map_prod JNum id) (scan_number (c # r)))"
| "jmembers 0 d s = None"
| "jmembers (Suc n) d s =
     (case skip_ws s of
        [] \<Rightarrow> None
      | c # r \<Rightarrow>
          if c \<noteq> CHR 0x22 then None
          else case read_string r of
            None \<Rightarrow> None
          | Some (k, r1) \<Rightarrow>
              (case skip_ws r1 of
                 [] \<Rightarrow> None
               | x # r2 \<Rightarrow>
                   if x \<noteq> CHR '':'' then None
                   else case jvalue n d r2 of
                     None \<Rightarrow> None
                   | Some (v, r3) \<Rightarrow>
                       (case skip_ws r3 of
                          [] \<Rightarrow> None
                        | y # r4 \<Rightarrow>
                            if y = CHR ''}'' then Some ([(k, v)], r4)
                            else if y = CHR '','' then
                              map_option (map_prod (\<lambda>kvs. (k, v) # kvs) id) (jmembers n d r4)
                            else None)))"
| "jelems 0 d s = None"
| "jelems (Suc n) d s =
     (case skip_ws s of
        [] \<Rightarrow> None
      | c # r \<Rightarrow>
          if c = CHR '']'' then Some ([], r)
          else if c = CHR '','' then
            (case jvalue n d r of
               None \<Rightarrow> None
             | Some (v, r1) \<Rightarrow> map_option (map_prod (\<lambda>vs. v # vs) id) (jelems n d r1))
          else None)"

definition json_parse :: "string \<Rightarrow> json option" where
  "json_parse s =
     (case jvalue (Suc (length s)) 0 s of
        None \<Rightarrow> None
      | Some (v, r) \<Rightarrow> if skip_ws r = [] then Some v else None)"

section \<open>Values: the writer\<close>

fun show_json :: "json \<Rightarrow> string"
  and show_members :: "(string \<times> json) list \<Rightarrow> string"
  and show_elems :: "json list \<Rightarrow> string"
where
  "show_json JNull = ''null''"
| "show_json (JBool b) = (if b then ''true'' else ''false'')"
| "show_json (JNum lit) = lit"
| "show_json (JStr s) = json_string s"
| "show_json (JArr vs) = ''['' @ show_elems vs @ '']''"
| "show_json (JObj kvs) = ''{'' @ show_members kvs @ ''}''"
| "show_members [] = []"
| "show_members ((k, v) # kvs) =
     json_string k @ '':'' @ show_json v @ (if kvs = [] then [] else '','' @ show_members kvs)"
| "show_elems [] = []"
| "show_elems (v # vs) = show_json v @ (if vs = [] then [] else '','' @ show_elems vs)"

section \<open>Decoding into Go values\<close>

text \<open>
  A key selects the field with that name, or else the field whose name is equal under
  Unicode simple case folding; of the non-ASCII letters only U+017F and U+212A fold to
  ASCII ones. \<^verbatim>\<open>null\<close> leaves a field as it is. A value of the wrong
  type makes the whole decoding fail, after the remaining members have been looked at.
\<close>

fun fold_key :: "string \<Rightarrow> string" where
  "fold_key [] = []"
| "fold_key (a # s) =
     (if 97 \<le> byte_of a \<and> byte_of a \<le> 122 then char_of (byte_of a - 32) # fold_key s
      else if byte_of a = 197 \<and> take 1 s = [CHR 0xBF] then CHR ''S'' # fold_key (drop 1 s)
      else if byte_of a = 226 \<and> take 2 s = [CHR 0x84, CHR 0xAA] then CHR ''K'' # fold_key (drop 2 s)
      else a # fold_key s)"

definition field_for :: "string list \<Rightarrow> string \<Rightarrow> string option" where
  "field_for names k =
     (if k \<in> set names then Some k else find (\<lambda>n. fold_key n = fold_key k) names)"

fun fold_fields :: "('s \<Rightarrow> string \<Rightarrow> json \<Rightarrow> 's option) \<Rightarrow> 's \<Rightarrow> (string \<times> json) list \<Rightarrow> 's option" where
  "fold_fields set_field st [] = Some st"
| "fold_fields set_field st ((k, v) # kvs) =
     (case set_field st k v of None \<Rightarrow> None | Some st' \<Rightarrow> fold_fields set_field st' kvs)"

definition decode_struct :: "('s \<Rightarrow> string \<Rightarrow> json \<Rightarrow> 's option) \<Rightarrow> 's \<Rightarrow> json \<Rightarrow> 's option" where
  "decode_struct set_field st j =
     (case j of JNull \<Rightarrow> Some st | JObj kvs \<Rightarrow> fold_fields set_field st kvs | _ \<Rightarrow> None)"

definition as_string :: "string \<Rightarrow> json \<Rightarrow> string option" where
  "as_string x j = (case j of JStr t \<Rightarrow> Some t | JNull \<Rightarrow> Some x | _ \<Rightarrow> None)"

definition as_int64 :: "int64 \<Rightarrow> json \<Rightarrow> int64 option" where
  "as_int64 x j = (case j of JNum lit \<Rightarrow> map_option of_int (Atoi lit) | JNull \<Rightarrow> Some x | _ \<Rightarrow> None)"

definition as_uint8 :: "uint8 \<Rightarrow> json \<Rightarrow> uint8 option" where
  "as_uint8 x j = (case j of JNum lit \<Rightarrow> map_option of_nat (ParseUint lit 8) | JNull \<Rightarrow> Some x | _ \<Rightarrow> None)"

definition as_int :: "int \<Rightarrow> json \<Rightarrow> int option" where
  "as_int x j = (case j of JNum lit \<Rightarrow> Atoi lit | JNull \<Rightarrow> Some x | _ \<Rightarrow> None)"

end
