(* ===== verification/Go_Json_Proofs.thy ===== *)
theory Go_Json_Proofs
  imports Go_Json
begin

text \<open>
  Reading what was written: every value made of strings in UTF-8 and of integers, nested
  no deeper than the reader allows, is read back as it was. The reader's fuel is enough
  on every input: one unit more than the number of bytes.
\<close>

section \<open>Numbers\<close>

definition stops_number :: "string \<Rightarrow> bool" where
  "stops_number rest \<longleftrightarrow> rest = [] \<or> hd rest \<in> {CHR '','', CHR ''}'', CHR '']''}"

lemma show_nat_no_leading_zero: "hd (show_nat n) = CHR ''0'' \<Longrightarrow> n = 0"
proof (induction n rule: show_nat.induct)
  case (1 n)
  show ?case
  proof (cases "n < 10")
    case True
    with "1.prems" have "byte_of (digit_char n) = byte_of (CHR ''0'')"
      by (simp add: show_nat.simps [of n] del: byte_of_inject byte_of_Char)
    with True show ?thesis by simp
  next
    case False
    with "1.prems" have "hd (show_nat (n div 10)) = CHR ''0''"
      by (simp add: show_nat.simps [of n])
    with False "1.IH" show ?thesis by (simp add: div_eq_0_iff)
  qed
qed

lemma digits_span:
  assumes "list_all is_digit ds" "stops_number rest"
  shows "takeWhile is_digit (ds @ rest) = ds" "dropWhile is_digit (ds @ rest) = rest"
proof -
  have "\<not> is_digit (hd rest)" if "rest \<noteq> []"
    using assms(2) that by (auto simp: stops_number_def is_digit_def)
  then have "takeWhile is_digit rest = []" "dropWhile is_digit rest = rest"
    by (cases rest; simp)+
  with assms(1) show "takeWhile is_digit (ds @ rest) = ds" "dropWhile is_digit (ds @ rest) = rest"
    by (auto simp: list_all_iff takeWhile_append2 dropWhile_append2)
qed

lemma scan_int_show_nat:
  assumes "stops_number rest"
  shows "scan_int (show_nat n @ rest) = Some (show_nat n, rest)"
proof (cases "n = 0")
  case True
  moreover have "show_nat 0 = [CHR ''0'']" by code_simp
  ultimately show ?thesis by (simp add: scan_int_def)
next
  case False
  obtain c r where c: "show_nat n = c # r" by (cases "show_nat n") auto
  with False have "c \<noteq> CHR ''0''" using show_nat_no_leading_zero [of n] by auto
  moreover have "is_digit c" using show_nat_hd [of n] c by simp
  ultimately show ?thesis
    using digits_span [OF show_nat_digits assms, of n] c by (simp add: scan_int_def)
qed

lemma scan_tail:
  assumes "stops_number rest"
  shows "scan_frac rest = Some ([], rest)" "scan_exp rest = Some ([], rest)"
  using assms by (auto simp: scan_frac_def scan_exp_def stops_number_def split: list.splits)

lemma scan_number_show_int:
  assumes "stops_number rest"
  shows "scan_number (show_int i @ rest) = Some (show_int i, rest)"
proof (cases "i < 0")
  case True
  with scan_int_show_nat [OF assms] scan_tail [OF assms] show ?thesis
    by (simp add: scan_number_def show_int_def)
next
  case False
  obtain c r where c: "show_nat (nat i) = c # r" by (cases "show_nat (nat i)") auto
  then have "c \<noteq> CHR ''-''" using show_nat_hd [of "nat i"] is_digit_not_sign [of c] by simp
  with False c scan_int_show_nat [OF assms, of "nat i"] scan_tail [OF assms] show ?thesis
    by (simp add: scan_number_def show_int_def)
qed

section \<open>Values\<close>

fun jdepth :: "json \<Rightarrow> nat"
  and jdepth_members :: "(string \<times> json) list \<Rightarrow> nat"
  and jdepth_elems :: "json list \<Rightarrow> nat"
where
  "jdepth (JArr vs) = Suc (jdepth_elems vs)"
| "jdepth (JObj kvs) = Suc (jdepth_members kvs)"
| "jdepth _ = 0"
| "jdepth_members [] = 0"
| "jdepth_members ((k, v) # kvs) = max (jdepth v) (jdepth_members kvs)"
| "jdepth_elems [] = 0"
| "jdepth_elems (v # vs) = max (jdepth v) (jdepth_elems vs)"

fun writable :: "json \<Rightarrow> bool"
  and writable_members :: "(string \<times> json) list \<Rightarrow> bool"
  and writable_elems :: "json list \<Rightarrow> bool"
where
  "writable (JNum lit) = (\<exists>i. lit = show_int i)"
| "writable (JStr s) = valid_utf8 s"
| "writable (JArr vs) = writable_elems vs"
| "writable (JObj kvs) = writable_members kvs"
| "writable _ = True"
| "writable_members [] = True"
| "writable_members ((k, v) # kvs) = (valid_utf8 k \<and> writable v \<and> writable_members kvs)"
| "writable_elems [] = True"
| "writable_elems (v # vs) = (writable v \<and> writable_elems vs)"

lemma show_int_cases:
  obtains c r where "show_int i = c # r" "is_digit c \<or> c = CHR ''-''"
proof (cases "i < 0")
  case True
  then show ?thesis by (intro that) (auto simp: show_int_def)
next
  case False
  obtain c r where "show_nat (nat i) = c # r" by (cases "show_nat (nat i)") auto
  moreover from this have "is_digit c" using show_nat_hd [of "nat i"] by simp
  ultimately show ?thesis using False by (intro that) (auto simp: show_int_def)
qed

lemma skip_ws_show_json: "writable j \<Longrightarrow> skip_ws (show_json j @ rest) = show_json j @ rest"
proof (cases j)
  case (JNum lit)
  moreover assume "writable j"
  ultimately obtain i where "lit = show_int i" by auto
  moreover obtain c r where "show_int i = c # r" "is_digit c \<or> c = CHR ''-''" by (rule show_int_cases)
  ultimately show ?thesis using JNum by (auto simp: is_ws_def is_digit_def)
qed (auto simp: is_ws_def json_string_def)

lemma jvalue_number:
  assumes "stops_number rest"
  shows "jvalue (Suc n) d (show_int i @ rest) = Some (JNum (show_int i), rest)"
proof -
  obtain c r where c: "show_int i = c # r" "is_digit c \<or> c = CHR ''-''" by (rule show_int_cases)
  then have "\<not> is_ws c" "c \<notin> {CHR 0x22, CHR ''{'', CHR ''['', CHR ''t'', CHR ''f'', CHR ''n''}"
    by (auto simp: is_ws_def is_digit_def)
  with c scan_number_show_int [OF assms, of i] show ?thesis by simp
qed

lemma jvalue_string:
  "valid_utf8 s \<Longrightarrow> jvalue (Suc n) d (json_string s @ rest) = Some (JStr s, rest)"
  by (simp add: json_string_def is_ws_def read_append_string)


lemma jvalue_object:
  assumes "skip_ws r = x # r'" "x \<noteq> CHR ''}''" "d < maxNestingDepth"
  shows "jvalue (Suc m) d (CHR ''{'' # r) = map_option (map_prod JObj id) (jmembers m (Suc d) r)"
  using assms by (simp add: is_ws_def)

text \<open>An array is read like a list of elements that starts with a comma.\<close>

lemma jvalue_array:
  assumes "skip_ws r = x # r'" "x \<noteq> CHR '']''" "d < maxNestingDepth"
  shows "jvalue (Suc m) d (CHR ''['' # r) =
    map_option (map_prod JArr id) (jelems (Suc m) (Suc d) (CHR '','' # r))"
  using assms by (auto simp: is_ws_def option.map_comp prod.map_comp comp_def id_def split: option.splits)

lemma jmembers_step:
  assumes "valid_utf8 k" "jvalue n d t = Some (v, y # r4)" "y = CHR ''}'' \<or> y = CHR '',''"
  shows "jmembers (Suc n) d (json_string k @ CHR '':'' # t) =
    (if y = CHR ''}'' then Some ([(k, v)], r4) else map_option (map_prod (\<lambda>kvs. (k, v) # kvs) id) (jmembers n d r4))"
  using assms by (auto simp: json_string_def is_ws_def read_append_string)

lemma jelems_step:
  assumes "jvalue n d t = Some (v, r1)"
  shows "jelems (Suc n) d (CHR '','' # t) = map_option (map_prod (\<lambda>vs. v # vs) id) (jelems n d r1)"
  using assms by (simp add: is_ws_def)

lemma jelems_end: "jelems (Suc n) d (CHR '']'' # r) = Some ([], r)"
  by (simp add: is_ws_def)

lemma stops_number_simps [simp]:
  "stops_number (CHR ''}'' # r)" "stops_number (CHR '']'' # r)" "stops_number (CHR '','' # r)" "stops_number []"
  by (simp_all add: stops_number_def)

lemma show_members_start: "kvs \<noteq> [] \<Longrightarrow> \<exists>r. show_members kvs = CHR 0x22 # r"
  by (cases kvs rule: show_members.cases) (auto simp: json_string_def)

lemma show_json_start:
  "writable j \<Longrightarrow> \<exists>c r. show_json j = c # r \<and> \<not> is_ws c \<and> c \<noteq> CHR '']''"
proof (cases j)
  case (JNum lit)
  moreover assume "writable j"
  ultimately obtain i where "lit = show_int i" by auto
  moreover obtain c r where "show_int i = c # r" "is_digit c \<or> c = CHR ''-''" by (rule show_int_cases)
  ultimately show ?thesis using JNum by (auto simp: is_ws_def is_digit_def)
qed (auto simp: is_ws_def json_string_def)

definition more_elems :: "json list \<Rightarrow> string" where
  "more_elems vs = (if vs = [] then [] else CHR '','' # show_elems vs)"

lemma show_elems_Cons: "show_elems (v # vs) = show_json v @ more_elems vs"
  by (simp add: more_elems_def)

lemma stops_number_more [simp]: "stops_number (more_elems vs @ CHR '']'' # r)"
  by (simp add: more_elems_def)

declare jvalue.simps [simp del] jmembers.simps [simp del] jelems.simps [simp del]

lemma jvalue_word:
  "0 < n \<Longrightarrow> jvalue n d (CHR ''n'' # CHR ''u'' # CHR ''l'' # CHR ''l'' # rest) = Some (JNull, rest)"
  "0 < n \<Longrightarrow> jvalue n d (show_json (JBool b) @ rest) = Some (JBool b, rest)"
  by (cases n; simp add: jvalue.simps scan_word_def is_ws_def)+

lemma read_array:
  assumes "writable_elems vs" "d < maxNestingDepth"
    and elems: "vs \<noteq> [] \<Longrightarrow> jelems (Suc m) (Suc d) (more_elems vs @ CHR '']'' # rest) = Some (vs, rest)"
  shows "jvalue (Suc m) d (show_json (JArr vs) @ rest) = Some (JArr vs, rest)"
proof (cases vs)
  case Nil
  with assms(2) show ?thesis by (simp add: jvalue.simps is_ws_def)
next
  case (Cons v ws)
  with assms(1) obtain c r where c: "show_elems vs = c # r" "\<not> is_ws c" "c \<noteq> CHR '']''"
    using show_json_start [of v] by auto
  with Cons have "more_elems vs = CHR '','' # c # r" by (simp add: more_elems_def)
  with Cons c assms(2) elems show ?thesis by (simp add: jvalue_array)
qed

lemma read_object:
  assumes "d < maxNestingDepth"
    and members: "kvs \<noteq> [] \<Longrightarrow> jmembers m (Suc d) (show_members kvs @ CHR ''}'' # rest) = Some (kvs, rest)"
  shows "jvalue (Suc m) d (show_json (JObj kvs) @ rest) = Some (JObj kvs, rest)"
proof (cases "kvs = []")
  case True
  with assms(1) show ?thesis by (simp add: jvalue.simps is_ws_def)
next
  case False
  then obtain r where "show_members kvs = CHR 0x22 # r" using show_members_start by blast
  with False assms(1) members show ?thesis by (simp add: jvalue_object is_ws_def)
qed

lemma read_member:
  assumes "valid_utf8 k"
    and v: "\<And>rest. stops_number rest \<Longrightarrow> jvalue m d (show_json v @ rest) = Some (v, rest)"
    and kvs: "kvs \<noteq> [] \<Longrightarrow> jmembers m d (show_members kvs @ CHR ''}'' # rest) = Some (kvs, rest)"
  shows "jmembers (Suc m) d (show_members ((k, v) # kvs) @ CHR ''}'' # rest) = Some ((k, v) # kvs, rest)"
  using assms(1) v [of "CHR ''}'' # rest"] v [of "CHR '','' # show_members kvs @ CHR ''}'' # rest"] kvs
  by (cases "kvs = []") (simp_all add: jmembers_step)

lemma read_elem:
  assumes v: "\<And>rest. stops_number rest \<Longrightarrow> jvalue m d (show_json v @ rest) = Some (v, rest)"
    and "0 < m" "vs \<noteq> [] \<Longrightarrow> jelems m d (more_elems vs @ CHR '']'' # rest) = Some (vs, rest)"
  shows "jelems (Suc m) d (more_elems (v # vs) @ CHR '']'' # rest) = Some (v # vs, rest)"
proof -
  have vs: "jelems m d (more_elems vs @ CHR '']'' # rest) = Some (vs, rest)"
    using assms(2,3) by (cases "vs = []"; cases m) (simp_all add: more_elems_def jelems_end)
  have "more_elems (v # vs) = CHR '','' # show_json v @ more_elems vs" by (simp add: more_elems_def)
  with v [of "more_elems vs @ CHR '']'' # rest"] vs show ?thesis
    by (simp only: append_Cons append_assoc jelems_step stops_number_more) simp
qed

lemma read_back:
  "writable j \<Longrightarrow> stops_number rest \<Longrightarrow> length (show_json j) < n \<Longrightarrow> d + jdepth j \<le> maxNestingDepth \<Longrightarrow>
     jvalue n d (show_json j @ rest) = Some (j, rest)"
  "writable_members kvs \<Longrightarrow> kvs \<noteq> [] \<Longrightarrow> length (show_members kvs) < n \<Longrightarrow>
     d + jdepth_members kvs \<le> maxNestingDepth \<Longrightarrow>
     jmembers n d (show_members kvs @ CHR ''}'' # rest) = Some (kvs, rest)"
  "writable_elems vs \<Longrightarrow> length (more_elems vs) < n \<Longrightarrow> d + jdepth_elems vs \<le> maxNestingDepth \<Longrightarrow>
     jelems n d (more_elems vs @ CHR '']'' # rest) = Some (vs, rest)"
proof (induction j and kvs and vs arbitrary: n d rest and n d rest and n d rest
    rule: show_json_show_members_show_elems.induct)
  case 1
  then show ?case by (simp add: jvalue_word)
next
  case (2 b)
  then show ?case using jvalue_word(2) [of n] by simp
next
  case (3 lit)
  then show ?case by (cases n) (auto simp: jvalue_number)
next
  case (4 s)
  then show ?case by (cases n) (auto simp: jvalue_string)
next
  case (5 vs)
  then obtain m where "n = Suc m" "vs \<noteq> [] \<Longrightarrow> length (more_elems vs) < n" by (cases n) (auto simp: more_elems_def)
  with 5 show ?case by (auto intro!: read_array "5.IH" simp del: show_json.simps)
next
  case (6 kvs)
  then obtain m where "n = Suc m" "length (show_members kvs) < m" by (cases n) auto
  with 6 show ?case by (auto intro!: read_object "6.IH" simp del: show_json.simps)
next
  case (8 k v kvs)
  then obtain m where "n = Suc m" "length (show_json v) < m" "kvs = [] \<or> length (show_members kvs) < m"
    by (cases n) (auto simp: json_string_def split: if_splits)
  with 8 show ?case by (auto intro!: read_member "8.IH" simp del: show_members.simps)
next
  case (10 v vs)
  then obtain m where n: "n = Suc m" by (cases n) auto
  with "10.prems" have "length (show_json v) < m" "length (more_elems vs) < m" by (auto simp: more_elems_def)
  with 10 n show ?case by (auto intro!: read_elem)
next
  case 9
  then show ?case by (cases n) (simp_all add: more_elems_def jelems_end)
qed simp

lemma json_parse_show:
  assumes "writable j" "jdepth j \<le> maxNestingDepth"
  shows "json_parse (show_json j) = Some j"
  using read_back(1) [of j "[]" "Suc (length (show_json j))" 0] assms by (simp add: json_parse_def)


section \<open>The fuel is enough\<close>

lemma length_skip_ws: "length (skip_ws s) \<le> length s"
  by (induction s) auto

lemma skip_ws_Cons: "skip_ws s = c # r \<Longrightarrow> length r < length s"
  using length_skip_ws [of s] by simp

lemma emit_SomeD: "emit t res = Some (u, r) \<Longrightarrow> \<exists>u'. res = Some (u', r)"
  by (auto simp: emit_def)

lemma read_string_consumes: "read_string s = Some (t, r) \<Longrightarrow> length r < length s"
proof (induction s arbitrary: t r rule: read_string.induct)
  case 1
  then show ?case by simp
next
  case (2 c s)
  then show ?case
    apply (simp add: read_string.simps(2) split: if_splits list.splits option.splits bool.splits)
             apply (fastforce dest!: emit_SomeD)+
    done
qed

lemma scan_int_consumes: "scan_int s = Some (l, r) \<Longrightarrow> length r < length s"
  using length_dropWhile_le [of is_digit "tl s"]
  by (auto simp: scan_int_def split: list.splits if_splits)

lemma scan_frac_le: "scan_frac s = Some (l, r) \<Longrightarrow> length r \<le> length s"
  by (auto simp: scan_frac_def intro: le_SucI length_dropWhile_le split: list.splits if_splits)

lemma scan_exp_le: "scan_exp s = Some (l, r) \<Longrightarrow> length r \<le> length s"
  by (auto simp: scan_exp_def Let_def intro: le_SucI length_dropWhile_le le_trans [OF length_dropWhile_le]
      split: list.splits if_splits)

lemma scan_number_consumes: "scan_number s = Some (l, r) \<Longrightarrow> length r < length s"
  by (auto simp: scan_number_def Let_def split: list.splits if_splits option.splits
      dest!: scan_int_consumes scan_frac_le scan_exp_le)

lemma scan_word_consumes: "scan_word w j s = Some (v, r) \<Longrightarrow> w \<noteq> [] \<Longrightarrow> length r < length s"
  by (cases s) (auto simp: scan_word_def split: if_splits)


lemma scan_consumes:
  "skip_ws s = c # r \<Longrightarrow> length r < length s"
  "read_string s = Some (t, r) \<Longrightarrow> length r < length s"
  "scan_number s = Some (t, r) \<Longrightarrow> length r < length s"
  "scan_word (c' # w) j s = Some (v, r) \<Longrightarrow> length r < length s"
  by (auto dest: skip_ws_Cons read_string_consumes scan_number_consumes scan_word_consumes)

lemma jvalue_consumes_all:
  "(\<forall>d s v r. jvalue n d s = Some (v, r) \<longrightarrow> length r < length s) \<and>
   (\<forall>d s kvs r. jmembers n d s = Some (kvs, r) \<longrightarrow> length r < length s) \<and>
   (\<forall>d s vs r. jelems n d s = Some (vs, r) \<longrightarrow> length r < length s)"
proof (induction n)
  case 0
  show ?case by (simp add: jvalue.simps jmembers.simps jelems.simps)
next
  case (Suc n)
  then have IH: "\<And>d s v r. jvalue n d s = Some (v, r) \<Longrightarrow> length r < length s"
    "\<And>d s kvs r. jmembers n d s = Some (kvs, r) \<Longrightarrow> length r < length s"
    "\<And>d s vs r. jelems n d s = Some (vs, r) \<Longrightarrow> length r < length s"
    by blast+
  show ?case
  proof (intro conjI allI impI)
    fix d s v r assume "jvalue (Suc n) d s = Some (v, r)"
    then show "length r < length s"
      by (fastforce simp: jvalue.simps split: list.splits if_splits option.splits dest!: IH scan_consumes)
  next
    fix d s kvs r assume "jmembers (Suc n) d s = Some (kvs, r)"
    then show "length r < length s"
      by (auto simp: jmembers.simps split: list.splits if_splits option.splits dest!: IH scan_consumes)
  next
    fix d s vs r assume "jelems (Suc n) d s = Some (vs, r)"
    then show "length r < length s"
      by (auto simp: jelems.simps split: list.splits if_splits option.splits dest!: IH scan_consumes)
  qed
qed

lemma jvalue_consumes: "jvalue n d s = Some (v, r) \<Longrightarrow> length r < length s"
  using jvalue_consumes_all by blast

text \<open>Two amounts of fuel agree below a length when no shorter input tells them apart.\<close>

definition agree_below :: "nat \<Rightarrow> nat \<Rightarrow> nat \<Rightarrow> bool" where
  "agree_below l n k \<longleftrightarrow> (\<forall>d t. length t < l \<longrightarrow>
     jvalue n d t = jvalue k d t \<and> jmembers n d t = jmembers k d t \<and> jelems n d t = jelems k d t)"

lemma agree_belowD:
  assumes "agree_below l n k" "length t < l"
  shows "jvalue n d t = jvalue k d t" "jmembers n d t = jmembers k d t" "jelems n d t = jelems k d t"
  using assms by (auto simp: agree_below_def)

lemma agree_list:
  assumes "agree_below l n k" "length r < l"
  shows "(case jvalue n d r of None \<Rightarrow> None | Some (v, r1) \<Rightarrow> map_option (f v) (jelems n d r1)) =
    (case jvalue k d r of None \<Rightarrow> None | Some (v, r1) \<Rightarrow> map_option (f v) (jelems k d r1))"
proof -
  have "jelems n d r1 = jelems k d r1" if "jvalue k d r = Some (v, r1)" for v r1
    using agree_belowD(3) [OF assms(1)] jvalue_consumes [OF that] assms(2) by simp
  with agree_belowD(1) [OF assms] show ?thesis by (auto split: option.split)
qed

lemma jvalue_agree:
  assumes "agree_below (length s) n k"
  shows "jvalue (Suc n) d s = jvalue (Suc k) d s"
proof (cases "skip_ws s")
  case (Cons c r)
  then have "length r < length s" by (rule skip_ws_Cons)
  with Cons assms show ?thesis by (simp only: jvalue.simps list.case agree_list agree_belowD(2))
qed (simp only: jvalue.simps list.case)

lemma jelems_agree:
  assumes "agree_below (length s) n k"
  shows "jelems (Suc n) d s = jelems (Suc k) d s"
proof (cases "skip_ws s")
  case (Cons c r)
  then have "length r < length s" by (rule skip_ws_Cons)
  with Cons assms show ?thesis by (simp only: jelems.simps list.case agree_list)
qed (simp only: jelems.simps list.case)

lemma jmembers_agree:
  assumes "agree_below (length s) n k"
  shows "jmembers (Suc n) d s = jmembers (Suc k) d s"
proof -
  have "jvalue n d r2 = jvalue k d r2"
      "jvalue k d r2 = Some (v, r3) \<Longrightarrow> skip_ws r3 = y # r4 \<Longrightarrow> jmembers n d r4 = jmembers k d r4"
    if "skip_ws s = c # r" "read_string r = Some (t, r1)" "skip_ws r1 = x # r2" for c r t r1 x r2 v r3 y r4
  proof -
    from that have r2: "length r2 < length s" by (fastforce dest!: scan_consumes)
    then show "jvalue n d r2 = jvalue k d r2" by (rule agree_belowD [OF assms])
    assume "jvalue k d r2 = Some (v, r3)" "skip_ws r3 = y # r4"
    with r2 have "length r4 < length s" by (auto dest!: jvalue_consumes scan_consumes)
    then show "jmembers n d r4 = jmembers k d r4" by (rule agree_belowD [OF assms])
  qed
  then show ?thesis unfolding jmembers.simps by (auto split: list.split option.split)
qed

lemma fuel_agrees: "l \<le> n \<Longrightarrow> l \<le> m \<Longrightarrow> agree_below l n m"
proof (induction n arbitrary: l m)
  case (Suc n)
  show ?case unfolding agree_below_def
  proof (intro allI impI)
    fix d and t :: string assume "length t < l"
    moreover with Suc.prems obtain k where "m = Suc k" by (cases m) auto
    ultimately show "jvalue (Suc n) d t = jvalue m d t \<and> jmembers (Suc n) d t = jmembers m d t \<and> jelems (Suc n) d t = jelems m d t"
      using Suc by (simp add: jvalue_agree jmembers_agree jelems_agree)
  qed
qed (simp add: agree_below_def)

lemma jvalue_fuel: "length s < n \<Longrightarrow> jvalue n d s = jvalue (Suc (length s)) d s"
  by (rule agree_belowD [OF fuel_agrees [of "Suc (length s)"]]) auto

end
