(* ===== verification/DC_Message.thy ===== *)
theory DC_Message
  imports Interfaces Go_Json_Proofs
begin

text \<open>
  The gossip messages of \<^verbatim>\<open>plugins/docker-cluster/message.go\<close>: the record
  update that is broadcast when a container starts or stops, the entry of a full state
  exchange, and the full state itself. \<^verbatim>\<open>RecordAction\<close> is a
  \<^verbatim>\<open>uint8\<close>, so a message may carry any of 256 actions, of which two have a name.
\<close>

type_synonym RecordAction = uint8

definition RecordActionAdd :: RecordAction where
  "RecordActionAdd = 0"

definition RecordActionRemove :: RecordAction where
  "RecordActionRemove = 1"

record RecordMessage =
  msg_Hostname :: string
  msg_IP :: string
  msg_Action :: RecordAction
  msg_Timestamp :: int64
  msg_NodeID :: string

record RecordEntry =
  entry_IP :: string
  entry_Timestamp :: int64
  entry_NodeID :: string

record FullState =
  state_NodeID :: string
  state_Records :: "RecordEntry go_map"

definition NewFullState :: "string \<Rightarrow> FullState" where
  "NewFullState nodeID = \<lparr>state_NodeID = nodeID, state_Records = Map.empty\<rparr>"

lemma actions_differ [simp]: "RecordActionAdd \<noteq> RecordActionRemove" "RecordActionRemove \<noteq> RecordActionAdd"
  by (simp_all add: RecordActionAdd_def RecordActionRemove_def)


section \<open>Messages on the wire\<close>

definition msg_json :: "RecordMessage \<Rightarrow> json" where
  "msg_json m = JObj
     [(''h'', JStr (msg_Hostname m)), (''i'', JStr (msg_IP m)), (''a'', JNum (show_int (uint (msg_Action m)))),
      (''t'', JNum (show_int (sint (msg_Timestamp m)))), (''n'', JStr (msg_NodeID m))]"

definition Encode :: "RecordMessage \<Rightarrow> string option" where
  "Encode m = Some (show_json (msg_json m))"

definition zero_msg :: RecordMessage where
  "zero_msg = \<lparr>msg_Hostname = [], msg_IP = [], msg_Action = 0, msg_Timestamp = 0, msg_NodeID = []\<rparr>"

definition set_msg_field :: "RecordMessage \<Rightarrow> string \<Rightarrow> json \<Rightarrow> RecordMessage option" where
  "set_msg_field m k v =
     (case field_for [''h'', ''i'', ''a'', ''t'', ''n''] k of
        None \<Rightarrow> Some m
      | Some f \<Rightarrow>
          if f = ''h'' then map_option (\<lambda>x. m\<lparr>msg_Hostname := x\<rparr>) (as_string (msg_Hostname m) v)
          else if f = ''i'' then map_option (\<lambda>x. m\<lparr>msg_IP := x\<rparr>) (as_string (msg_IP m) v)
          else if f = ''a'' then map_option (\<lambda>x. m\<lparr>msg_Action := x\<rparr>) (as_uint8 (msg_Action m) v)
          else if f = ''t'' then map_option (\<lambda>x. m\<lparr>msg_Timestamp := x\<rparr>) (as_int64 (msg_Timestamp m) v)
          else map_option (\<lambda>x. m\<lparr>msg_NodeID := x\<rparr>) (as_string (msg_NodeID m) v))"

definition DecodeRecordMessage :: "string \<Rightarrow> RecordMessage option" where
  "DecodeRecordMessage data =
     (case json_parse data of None \<Rightarrow> None | Some j \<Rightarrow> decode_struct set_msg_field zero_msg j)"

definition entry_json :: "RecordEntry \<Rightarrow> json" where
  "entry_json e = JObj
     [(''i'', JStr (entry_IP e)), (''t'', JNum (show_int (sint (entry_Timestamp e)))),
      (''n'', JStr (entry_NodeID e))]"

text \<open>\<^verbatim>\<open>json.Marshal\<close> writes the keys of a map in increasing order.\<close>

definition state_json :: "FullState \<Rightarrow> json" where
  "state_json s = JObj
     [(''node'', JStr (state_NodeID s)),
      (''records'', JObj (map (\<lambda>k. (k, entry_json (the (state_Records s k))))
         (sorted_list_of_set (dom (state_Records s)))))]"

definition EncodeState :: "FullState \<Rightarrow> string option" where
  "EncodeState s = Some (show_json (state_json s))"

definition zero_entry :: RecordEntry where
  "zero_entry = \<lparr>entry_IP = [], entry_Timestamp = 0, entry_NodeID = []\<rparr>"

definition set_entry_field :: "RecordEntry \<Rightarrow> string \<Rightarrow> json \<Rightarrow> RecordEntry option" where
  "set_entry_field e k v =
     (case field_for [''i'', ''t'', ''n''] k of
        None \<Rightarrow> Some e
      | Some f \<Rightarrow>
          if f = ''i'' then map_option (\<lambda>x. e\<lparr>entry_IP := x\<rparr>) (as_string (entry_IP e) v)
          else if f = ''t'' then map_option (\<lambda>x. e\<lparr>entry_Timestamp := x\<rparr>) (as_int64 (entry_Timestamp e) v)
          else map_option (\<lambda>x. e\<lparr>entry_NodeID := x\<rparr>) (as_string (entry_NodeID e) v))"

definition put_entry :: "RecordEntry go_map \<Rightarrow> string \<Rightarrow> json \<Rightarrow> RecordEntry go_map option" where
  "put_entry m k v =
     (case decode_struct set_entry_field zero_entry v of None \<Rightarrow> None | Some e \<Rightarrow> Some (m(k \<mapsto> e)))"

definition as_entries :: "RecordEntry go_map \<Rightarrow> json \<Rightarrow> RecordEntry go_map option" where
  "as_entries m j =
     (case j of JNull \<Rightarrow> Some Map.empty | JObj kvs \<Rightarrow> fold_fields put_entry m kvs | _ \<Rightarrow> None)"

definition set_state_field :: "FullState \<Rightarrow> string \<Rightarrow> json \<Rightarrow> FullState option" where
  "set_state_field s k v =
     (case field_for [''node'', ''records''] k of
        None \<Rightarrow> Some s
      | Some f \<Rightarrow>
          if f = ''node'' then map_option (\<lambda>x. s\<lparr>state_NodeID := x\<rparr>) (as_string (state_NodeID s) v)
          else map_option (\<lambda>x. s\<lparr>state_Records := x\<rparr>) (as_entries (state_Records s) v))"

definition DecodeFullState :: "string \<Rightarrow> FullState option" where
  "DecodeFullState data =
     (case json_parse data of None \<Rightarrow> None | Some j \<Rightarrow> decode_struct set_state_field (NewFullState []) j)"

section \<open>Round trips\<close>

definition sendable_msg :: "RecordMessage \<Rightarrow> bool" where
  "sendable_msg m \<longleftrightarrow> valid_utf8 (msg_Hostname m) \<and> valid_utf8 (msg_IP m) \<and> valid_utf8 (msg_NodeID m)"

definition sendable_entry :: "RecordEntry \<Rightarrow> bool" where
  "sendable_entry e \<longleftrightarrow> valid_utf8 (entry_IP e) \<and> valid_utf8 (entry_NodeID e)"

definition sendable_state :: "FullState \<Rightarrow> bool" where
  "sendable_state s \<longleftrightarrow> valid_utf8 (state_NodeID s) \<and> finite (dom (state_Records s)) \<and>
     (\<forall>k e. state_Records s k = Some e \<longrightarrow> valid_utf8 k \<and> sendable_entry e)"

lemma as_int64_show [simp]: "as_int64 x (JNum (show_int (sint t))) = Some t"
proof -
  have "Atoi (show_int (sint t)) = Some (sint t)"
    using sint_greater_eq [of t] sint_less [of t] by (intro Atoi_show_int) simp_all
  then show ?thesis by (simp add: as_int64_def)
qed

lemma as_uint8_show [simp]: "as_uint8 x (JNum (show_int (uint a))) = Some a"
proof -
  have "unat a < 2 ^ LENGTH(8)" by (rule unsigned_less)
  then have "unat a < 2 ^ 8" by simp
  moreover have "show_int (uint a) = show_nat (unat a)" by (simp add: show_int_def)
  ultimately show ?thesis by (simp add: as_uint8_def ParseUint_show_nat)
qed

lemma as_string_JStr [simp]: "as_string x (JStr t) = Some t"
  by (simp add: as_string_def)

lemma field_for_exact: "k \<in> set names \<Longrightarrow> field_for names k = Some k"
  by (simp add: field_for_def)

lemma ascii_valid_utf8: "is_ascii s \<Longrightarrow> valid_utf8 s"
  by (induction s) (simp_all add: valid_utf8.simps)

lemma decode_msg_json: "decode_struct set_msg_field zero_msg (msg_json m) = Some m"
  by (simp add: decode_struct_def msg_json_def set_msg_field_def field_for_exact zero_msg_def)

lemma decode_entry_json: "decode_struct set_entry_field zero_entry (entry_json e) = Some e"
  by (simp add: decode_struct_def entry_json_def set_entry_field_def field_for_exact zero_entry_def)


lemma put_entry_json: "put_entry m k (entry_json e) = Some (m(k \<mapsto> e))"
  by (simp add: put_entry_def decode_entry_json)

lemma fold_put_entries:
  "distinct ks \<Longrightarrow> fold_fields put_entry m (map (\<lambda>k. (k, entry_json (f k))) ks)
     = Some (\<lambda>k. if k \<in> set ks then Some (f k) else m k)"
  by (induction ks arbitrary: m) (auto simp: put_entry_json fun_eq_iff)

lemma decode_state_json:
  assumes "finite (dom (state_Records s))"
  shows "decode_struct set_state_field (NewFullState []) (state_json s) = Some s"
proof -
  have "(\<lambda>k. if k \<in> dom (state_Records s) then Some (the (state_Records s k)) else None) = state_Records s"
    by (auto simp: fun_eq_iff domIff)
  with assms show ?thesis
    by (simp add: decode_struct_def state_json_def set_state_field_def field_for_exact NewFullState_def
        as_entries_def fold_put_entries)
qed

lemma writable_entry_json: "sendable_entry e \<Longrightarrow> writable (entry_json e)"
  by (auto simp: entry_json_def sendable_entry_def intro: ascii_valid_utf8)

lemma writable_entries:
  "(\<And>k. k \<in> set ks \<Longrightarrow> valid_utf8 k \<and> sendable_entry (f k)) \<Longrightarrow>
   writable_members (map (\<lambda>k. (k, entry_json (f k))) ks)"
  by (induction ks) (simp_all add: writable_entry_json)

lemma jdepth_entries: "jdepth_members (map (\<lambda>k. (k, entry_json (f k))) ks) \<le> 1"
  by (induction ks) (simp_all add: entry_json_def)

lemma writable_msg_json: "sendable_msg m \<Longrightarrow> writable (msg_json m)"
  by (auto simp: msg_json_def sendable_msg_def intro: ascii_valid_utf8)

lemma writable_state_json: "sendable_state s \<Longrightarrow> writable (state_json s)"
  by (auto simp: state_json_def sendable_state_def ascii_valid_utf8 intro!: writable_entries)

lemma depth_msg_json: "jdepth (msg_json m) \<le> maxNestingDepth"
  by (simp add: msg_json_def maxNestingDepth_def)

lemma depth_state_json: "jdepth (state_json s) \<le> maxNestingDepth"
  using jdepth_entries [of "\<lambda>k. the (state_Records s k)" "sorted_list_of_set (dom (state_Records s))"]
  by (simp add: state_json_def maxNestingDepth_def)

lemma Encode_decodes: "sendable_msg m \<Longrightarrow> Encode m = Some b \<Longrightarrow> DecodeRecordMessage b = Some m"
  by (auto simp: Encode_def DecodeRecordMessage_def json_parse_show writable_msg_json depth_msg_json
      decode_msg_json)

lemma EncodeState_decodes: "sendable_state s \<Longrightarrow> EncodeState s = Some b \<Longrightarrow> DecodeFullState b = Some s"
  by (auto simp: EncodeState_def DecodeFullState_def json_parse_show writable_state_json depth_state_json
      decode_state_json sendable_state_def)

interpretation msg_codec: wire_codec Encode DecodeRecordMessage sendable_msg
  by unfold_locales (auto simp: Encode_decodes, auto simp: Encode_def msg_json_def)

interpretation state_codec: wire_codec EncodeState DecodeFullState sendable_state
  by unfold_locales (auto simp: EncodeState_decodes, auto simp: EncodeState_def state_json_def)

section \<open>Properties\<close>

text \<open>
  C15. A gossip message is read back as it was written: for every message whose hostname,
  address and node name are valid UTF-8, whatever its action and timestamp, encoding
  succeeds and decoding the bytes gives the message.
\<close>

theorem message_roundtrip:
  assumes "sendable_msg m"
  shows "\<exists>b. Encode m = Some b \<and> DecodeRecordMessage b = Some m"
  using msg_codec.received [OF assms] by blast

theorem message_roundtrip_witness:
  "\<exists>b. Encode \<lparr>msg_Hostname = ''a.com'', msg_IP = ''1.2.3.4'', msg_Action = 1,
               msg_Timestamp = - 5, msg_NodeID = ''n<1>''\<rparr> = Some b \<and>
       DecodeRecordMessage b = Some \<lparr>msg_Hostname = ''a.com'', msg_IP = ''1.2.3.4'', msg_Action = 1,
               msg_Timestamp = - 5, msg_NodeID = ''n<1>''\<rparr>"
  by (rule message_roundtrip) (simp add: sendable_msg_def ascii_valid_utf8)

text \<open>
  C16. A full state is read back as it was written, with any number of records, whatever
  the order in which the map's keys are written.
\<close>

theorem full_state_roundtrip:
  assumes "sendable_state s"
  shows "\<exists>b. EncodeState s = Some b \<and> DecodeFullState b = Some s"
  using state_codec.received [OF assms] by blast

theorem full_state_roundtrip_witness:
  "\<exists>b. EncodeState \<lparr>state_NodeID = ''n1'', state_Records =
         [''b.com'' \<mapsto> \<lparr>entry_IP = ''1.1.1.1'', entry_Timestamp = 7, entry_NodeID = ''n1''\<rparr>,
          ''a.com'' \<mapsto> \<lparr>entry_IP = ''2.2.2.2'', entry_Timestamp = 3, entry_NodeID = ''n2''\<rparr>]\<rparr> = Some b \<and>
       DecodeFullState b = Some \<lparr>state_NodeID = ''n1'', state_Records =
         [''b.com'' \<mapsto> \<lparr>entry_IP = ''1.1.1.1'', entry_Timestamp = 7, entry_NodeID = ''n1''\<rparr>,
          ''a.com'' \<mapsto> \<lparr>entry_IP = ''2.2.2.2'', entry_Timestamp = 3, entry_NodeID = ''n2''\<rparr>]\<rparr>"
  by (rule full_state_roundtrip) (auto simp: sendable_state_def sendable_entry_def ascii_valid_utf8
      split: if_splits)

end
