(* ===== verification/DC_Records.thy ===== *)
theory DC_Records
  imports Interfaces DC_Message "HOL-Library.Product_Lexorder"
begin

text \<open>
  The record table of the docker-cluster plugin, \<^verbatim>\<open>records.go\<close>: the hostname
  to address map, the metadata map of the last-write-wins (LWW) rule, and every operation
  on them. An operation runs under the table's mutex, so it is a function from the table
  before to the table after; what concurrent readers may see in between is the subject of
  \<^theory_text>\<open>DC_Concurrency\<close>. The first argument of an operation is the Unicode part of
  \<^verbatim>\<open>strings.ToLower\<close>. A lookup's pair \<^verbatim>\<open>(ip, found)\<close> is an
  option: \<open>None\<close> for \<^verbatim>\<open>("", false)\<close>.
\<close>

section \<open>State and operations\<close>

record RecordMeta =
  meta_Timestamp :: int64
  meta_NodeID :: string

record Records =
  r_data :: "string go_map"
  r_meta :: "RecordMeta go_map"

definition NewRecords :: Records where
  "NewRecords = \<lparr>r_data = Map.empty, r_meta = Map.empty\<rparr>"

definition Add :: "(string \<Rightarrow> string) \<Rightarrow> Records \<Rightarrow> hostname \<Rightarrow> string \<Rightarrow> Records" where
  "Add ul r hostname ip =
     (let hostname = ToLower ul hostname in r\<lparr>r_data := (r_data r)(hostname \<mapsto> ip)\<rparr>)"

definition Remove :: "(string \<Rightarrow> string) \<Rightarrow> Records \<Rightarrow> hostname \<Rightarrow> Records" where
  "Remove ul r hostname =
     (let hostname = ToLower ul hostname
      in case r_data r hostname of
           None \<Rightarrow> r
         | Some _ \<Rightarrow> r\<lparr>r_data := (r_data r)(hostname := None)\<rparr>)"

definition Lookup :: "(string \<Rightarrow> string) \<Rightarrow> Records \<Rightarrow> hostname \<Rightarrow> string option" where
  "Lookup ul r hostname = r_data r (ToLower ul hostname)"

definition GetAll :: "Records \<Rightarrow> string go_map" where
  "GetAll r = r_data r"

definition Count :: "Records \<Rightarrow> nat" where
  "Count r = card (dom (r_data r))"

text \<open>The test both LWW operations make on the metadata that is already there.\<close>

definition lww_rejects :: "RecordMeta option \<Rightarrow> int64 \<Rightarrow> string \<Rightarrow> bool" where
  "lww_rejects m timestamp nodeID =
     (case m of
        None \<Rightarrow> False
      | Some existing \<Rightarrow>
          if sint (meta_Timestamp existing) > sint timestamp then True
          else if meta_Timestamp existing = timestamp \<and> meta_NodeID existing \<ge> nodeID then True
          else False)"

definition AddWithMeta ::
  "(string \<Rightarrow> string) \<Rightarrow> Records \<Rightarrow> hostname \<Rightarrow> string \<Rightarrow> int64 \<Rightarrow> string \<Rightarrow> bool \<times> Records" where
  "AddWithMeta ul r hostname ip timestamp nodeID =
     (let hostname = ToLower ul hostname
      in if lww_rejects (r_meta r hostname) timestamp nodeID then (False, r)
         else (True, r\<lparr>r_data := (r_data r)(hostname \<mapsto> ip),
                       r_meta := (r_meta r)(hostname \<mapsto>
                         \<lparr>meta_Timestamp = timestamp, meta_NodeID = nodeID\<rparr>)\<rparr>))"

definition RemoveWithMeta ::
  "(string \<Rightarrow> string) \<Rightarrow> Records \<Rightarrow> hostname \<Rightarrow> int64 \<Rightarrow> string \<Rightarrow> bool \<times> Records" where
  "RemoveWithMeta ul r hostname timestamp nodeID =
     (let hostname = ToLower ul hostname
      in case r_data r hostname of
           None \<Rightarrow> (False, r)
         | Some _ \<Rightarrow>
             if lww_rejects (r_meta r hostname) timestamp nodeID then (False, r)
             else (True, r\<lparr>r_data := (r_data r)(hostname := None),
                           r_meta := (r_meta r)(hostname := None)\<rparr>))"

definition zero_meta :: RecordMeta where
  "zero_meta = \<lparr>meta_Timestamp = 0, meta_NodeID = []\<rparr>"

definition entry_of :: "string \<Rightarrow> RecordMeta option \<Rightarrow> RecordEntry" where
  "entry_of ip m = (let meta = (case m of None \<Rightarrow> zero_meta | Some meta \<Rightarrow> meta)
     in \<lparr>entry_IP = ip, entry_Timestamp = meta_Timestamp meta, entry_NodeID = meta_NodeID meta\<rparr>)"

definition GetAllWithMeta :: "Records \<Rightarrow> RecordEntry go_map" where
  "GetAllWithMeta r =
     (\<lambda>hostname. map_option (\<lambda>ip. entry_of ip (r_meta r hostname)) (r_data r hostname))"

definition ApplyMessage :: "(string \<Rightarrow> string) \<Rightarrow> Records \<Rightarrow> RecordMessage \<Rightarrow> bool \<times> Records" where
  "ApplyMessage ul r msg =
     (if msg_Action msg = RecordActionAdd
      then AddWithMeta ul r (msg_Hostname msg) (msg_IP msg) (msg_Timestamp msg) (msg_NodeID msg)
      else if msg_Action msg = RecordActionRemove
      then RemoveWithMeta ul r (msg_Hostname msg) (msg_Timestamp msg) (msg_NodeID msg)
      else (False, r))"

definition GetMeta :: "(string \<Rightarrow> string) \<Rightarrow> Records \<Rightarrow> hostname \<Rightarrow> RecordMeta option" where
  "GetMeta ul r hostname = r_meta r (ToLower ul hostname)"

text \<open>The table after a message, without the flag.\<close>

abbreviation apply_msg :: "(string \<Rightarrow> string) \<Rightarrow> RecordMessage \<Rightarrow> Records \<Rightarrow> Records" where
  "apply_msg ul msg r \<equiv> snd (ApplyMessage ul r msg)"

section \<open>The table as a record store\<close>

lemma Lookup_NewRecords [simp]: "Lookup ul NewRecords h = None"
  by (simp add: Lookup_def NewRecords_def)

lemma Lookup_Add [store_simps]:
  "Lookup ul (Add ul r h ip) h' = (if ToLower ul h' = ToLower ul h then Some ip else Lookup ul r h')"
  by (simp add: Lookup_def Add_def)

lemma Lookup_Remove [store_simps]:
  "Lookup ul (Remove ul r h) h' = (if ToLower ul h' = ToLower ul h then None else Lookup ul r h')"
  by (auto simp: Lookup_def Remove_def Let_def split: option.splits)

interpretation dcs: record_store NewRecords "Add ul" "Remove ul" "Lookup ul" "ToLower ul" for ul
  by unfold_locales (simp_all add: store_simps)

lemma meta_Add [simp]: "r_meta (Add ul r h ip) = r_meta r"
  by (simp add: Add_def)

lemma meta_Remove [simp]: "r_meta (Remove ul r h) = r_meta r"
  by (simp add: Remove_def Let_def split: option.splits)


section \<open>Well-formed tables\<close>

text \<open>
  Every key of both maps is in lower case, and both maps are finite. Any sequence of
  operations on a new table keeps this.
\<close>

definition wf_records :: "(string \<Rightarrow> string) \<Rightarrow> Records \<Rightarrow> bool" where
  "wf_records ul r \<longleftrightarrow> finite (dom (r_data r)) \<and> finite (dom (r_meta r)) \<and>
     (\<forall>k \<in> dom (r_data r) \<union> dom (r_meta r). ToLower ul k = k)"

datatype table_op =
    OpAdd hostname string
  | OpRemove hostname
  | OpApply RecordMessage

fun table_step :: "(string \<Rightarrow> string) \<Rightarrow> Records \<Rightarrow> table_op \<Rightarrow> Records" where
  "table_step ul r (OpAdd h ip) = Add ul r h ip"
| "table_step ul r (OpRemove h) = Remove ul r h"
| "table_step ul r (OpApply msg) = snd (ApplyMessage ul r msg)"

definition table_run :: "(string \<Rightarrow> string) \<Rightarrow> table_op list \<Rightarrow> Records" where
  "table_run ul ops = foldl (table_step ul) NewRecords ops"

lemma wf_NewRecords [simp]: "wf_records ul NewRecords"
  by (simp add: wf_records_def NewRecords_def)

lemma wf_Add: "lower_ok ul \<Longrightarrow> wf_records ul r \<Longrightarrow> wf_records ul (Add ul r h ip)"
  by (auto simp: wf_records_def Add_def)

lemma wf_Remove: "wf_records ul r \<Longrightarrow> wf_records ul (Remove ul r h)"
  by (auto simp: wf_records_def Remove_def Let_def split: option.splits)

lemma wf_AddWithMeta:
  "lower_ok ul \<Longrightarrow> wf_records ul r \<Longrightarrow> wf_records ul (snd (AddWithMeta ul r h ip ts n))"
  by (auto simp: wf_records_def AddWithMeta_def Let_def)

lemma wf_RemoveWithMeta:
  "wf_records ul r \<Longrightarrow> wf_records ul (snd (RemoveWithMeta ul r h ts n))"
  by (auto simp: wf_records_def RemoveWithMeta_def Let_def split: option.splits)

lemma wf_ApplyMessage:
  "lower_ok ul \<Longrightarrow> wf_records ul r \<Longrightarrow> wf_records ul (snd (ApplyMessage ul r msg))"
  by (simp add: ApplyMessage_def wf_AddWithMeta wf_RemoveWithMeta)

lemmas wf_operations = wf_Add wf_Remove wf_AddWithMeta wf_RemoveWithMeta wf_ApplyMessage

lemma wf_table_step: "lower_ok ul \<Longrightarrow> wf_records ul r \<Longrightarrow> wf_records ul (table_step ul r p)"
  by (cases p) (simp_all add: wf_operations)

lemma wf_table_run: "lower_ok ul \<Longrightarrow> wf_records ul (table_run ul ops)"
  unfolding table_run_def
  by (induction ops rule: rev_induct) (simp_all add: wf_table_step)

lemma Lookup_lower_key: "wf_records ul r \<Longrightarrow> r_data r k = Some ip \<Longrightarrow> Lookup ul r k = Some ip"
  by (force simp: wf_records_def Lookup_def dom_def)

lemma Count_Add:
  "wf_records ul r \<Longrightarrow>
   Count (Add ul r h ip) = (if Lookup ul r h = None then Suc (Count r) else Count r)"
  by (auto simp: Count_def Add_def Lookup_def wf_records_def insert_absorb domIff card_insert_if)

lemma Count_Remove:
  "wf_records ul r \<Longrightarrow>
   Count (Remove ul r h) = (if Lookup ul r h = None then Count r else Count r - 1)"
  by (auto simp: Count_def Remove_def Lookup_def wf_records_def Let_def domI split: option.splits)

section \<open>The last-write-wins rule\<close>

text \<open>The stamp of a record: its signed timestamp, then its node, compared in this order.\<close>

definition stamp :: "int64 \<Rightarrow> string \<Rightarrow> int \<times> string" where
  "stamp ts n = (sint ts, n)"

definition meta_stamp :: "RecordMeta \<Rightarrow> int \<times> string" where
  "meta_stamp m = stamp (meta_Timestamp m) (meta_NodeID m)"

definition msg_stamp :: "RecordMessage \<Rightarrow> int \<times> string" where
  "msg_stamp m = stamp (msg_Timestamp m) (msg_NodeID m)"

lemma stamp_eq_iff [simp]: "stamp a m = stamp b n \<longleftrightarrow> a = b \<and> m = n"
  by (simp add: stamp_def)

lemma lww_rejects_None [simp]: "\<not> lww_rejects None ts n"
  by (simp add: lww_rejects_def)

lemma lww_rejects_Some [simp]: "lww_rejects (Some m) ts n \<longleftrightarrow> stamp ts n \<le> meta_stamp m"
  by (auto simp: lww_rejects_def meta_stamp_def stamp_def less_eq_prod_def)


text \<open>
  The abstract contract: per hostname a register that keeps the value with the highest
  stamp it has been given. \<open>lww_abs\<close> reads it off a table; the value is an option,
  since a plain \<^verbatim>\<open>Remove\<close> deletes the address and leaves the metadata.
\<close>

type_synonym lww_registers = "hostname \<Rightarrow> ((int \<times> string) \<times> string option) option"

definition lww_put :: "hostname \<Rightarrow> int \<times> string \<Rightarrow> string option \<Rightarrow> lww_registers \<Rightarrow> lww_registers" where
  "lww_put k st v A =
     (case A k of
        None \<Rightarrow> A(k \<mapsto> (st, v))
      | Some (st', _) \<Rightarrow> if st \<le> st' then A else A(k \<mapsto> (st, v)))"

definition lww_abs :: "Records \<Rightarrow> lww_registers" where
  "lww_abs r = (\<lambda>k. map_option (\<lambda>m. (meta_stamp m, r_data r k)) (r_meta r k))"

lemma AddWithMeta_refines:
  "lww_abs (snd (AddWithMeta ul r h ip ts n)) = lww_put (ToLower ul h) (stamp ts n) (Some ip) (lww_abs r)"
  by (auto simp: AddWithMeta_def lww_abs_def lww_put_def Let_def meta_stamp_def fun_eq_iff
           split: option.splits)

lemma AddWithMeta_accepts:
  "fst (AddWithMeta ul r h ip ts n) \<longleftrightarrow> \<not> lww_rejects (GetMeta ul r h) ts n"
  by (simp add: AddWithMeta_def GetMeta_def Let_def)

lemma AddWithMeta_rejected: "\<not> fst (AddWithMeta ul r h ip ts n) \<Longrightarrow> snd (AddWithMeta ul r h ip ts n) = r"
  by (simp add: AddWithMeta_def Let_def split: if_splits)

lemma RemoveWithMeta_rejected: "\<not> fst (RemoveWithMeta ul r h ts n) \<Longrightarrow> snd (RemoveWithMeta ul r h ts n) = r"
  by (auto simp: RemoveWithMeta_def Let_def split: if_splits option.splits)

lemma RemoveWithMeta_accepts:
  "fst (RemoveWithMeta ul r h ts n) \<longleftrightarrow>
     Lookup ul r h \<noteq> None \<and> \<not> lww_rejects (GetMeta ul r h) ts n"
  by (auto simp: RemoveWithMeta_def GetMeta_def Lookup_def Let_def split: option.splits)

lemma Lookup_AddWithMeta [store_simps]:
  "Lookup ul (snd (AddWithMeta ul r h ip ts n)) h' =
     (if ToLower ul h' = ToLower ul h \<and> \<not> lww_rejects (GetMeta ul r h) ts n then Some ip
      else Lookup ul r h')"
  by (simp add: AddWithMeta_def Lookup_def GetMeta_def Let_def)

lemma GetMeta_AddWithMeta [store_simps]:
  "GetMeta ul (snd (AddWithMeta ul r h ip ts n)) h' =
     (if ToLower ul h' = ToLower ul h \<and> \<not> lww_rejects (GetMeta ul r h) ts n
      then Some \<lparr>meta_Timestamp = ts, meta_NodeID = n\<rparr> else GetMeta ul r h')"
  by (simp add: AddWithMeta_def GetMeta_def Let_def)

lemma Lookup_RemoveWithMeta [store_simps]:
  "Lookup ul (snd (RemoveWithMeta ul r h ts n)) h' =
     (if ToLower ul h' = ToLower ul h \<and> \<not> lww_rejects (GetMeta ul r h) ts n then None
      else Lookup ul r h')"
  by (auto simp: RemoveWithMeta_def Lookup_def GetMeta_def Let_def split: option.splits)

lemma GetMeta_RemoveWithMeta [store_simps]:
  "GetMeta ul (snd (RemoveWithMeta ul r h ts n)) h' =
     (if ToLower ul h' = ToLower ul h \<and> fst (RemoveWithMeta ul r h ts n) then None
      else GetMeta ul r h')"
  by (auto simp: RemoveWithMeta_def GetMeta_def Let_def split: option.splits)

section \<open>Order and repetition of gossip messages\<close>

text \<open>
  Two messages agree when they are for different hostnames, or both add and carry the same
  address if they carry the same stamp, or both remove. Only an addition and a removal of
  one hostname do not agree.
\<close>

definition msgs_agree :: "(string \<Rightarrow> string) \<Rightarrow> RecordMessage \<Rightarrow> RecordMessage \<Rightarrow> bool" where
  "msgs_agree ul m n \<longleftrightarrow>
     ToLower ul (msg_Hostname m) \<noteq> ToLower ul (msg_Hostname n) \<or>
     msg_Action m = RecordActionAdd \<and> msg_Action n = RecordActionAdd \<and>
       (msg_stamp m = msg_stamp n \<longrightarrow> msg_IP m = msg_IP n) \<or>
     msg_Action m = RecordActionRemove \<and> msg_Action n = RecordActionRemove"

text \<open>A message as a change of the one register of its hostname.\<close>

definition reg_apply ::
  "RecordMessage \<Rightarrow> string option \<times> RecordMeta option \<Rightarrow> string option \<times> RecordMeta option" where
  "reg_apply msg v =
     (if msg_Action msg = RecordActionAdd then
        if lww_rejects (snd v) (msg_Timestamp msg) (msg_NodeID msg) then v
        else (Some (msg_IP msg), Some \<lparr>meta_Timestamp = msg_Timestamp msg, meta_NodeID = msg_NodeID msg\<rparr>)
      else if msg_Action msg = RecordActionRemove then
        if fst v = None \<or> lww_rejects (snd v) (msg_Timestamp msg) (msg_NodeID msg) then v
        else (None, None)
      else v)"

definition reg :: "Records \<Rightarrow> string \<Rightarrow> string option \<times> RecordMeta option" where
  "reg r k = (r_data r k, r_meta r k)"

lemma reg_apply_msg:
  "reg (apply_msg ul msg r) k =
     (if k = ToLower ul (msg_Hostname msg) then reg_apply msg (reg r k) else reg r k)"
  by (auto simp: ApplyMessage_def AddWithMeta_def RemoveWithMeta_def reg_apply_def reg_def Let_def
           split: option.splits)

lemma Records_eqI: "(\<And>k. reg r k = reg r' k) \<Longrightarrow> r = r'"
  for r r' :: Records
  by (cases r, cases r') (auto simp: reg_def fun_eq_iff)

lemma reg_apply_idem: "reg_apply m (reg_apply m v) = reg_apply m v"
  by (cases v) (simp add: reg_apply_def meta_stamp_def)

lemma lww_twice_add:
  assumes "msg_Action m = RecordActionAdd" "msg_Action n = RecordActionAdd"
    and "msg_stamp m = msg_stamp n \<longrightarrow> msg_IP m = msg_IP n"
  shows "reg_apply m (reg_apply n v) = reg_apply n (reg_apply m v)"
proof (cases "msg_stamp m = msg_stamp n")
  case True
  with assms show ?thesis by (auto simp: reg_apply_def meta_stamp_def msg_stamp_def)
next
  case False
  then consider "msg_stamp m < msg_stamp n" | "msg_stamp n < msg_stamp m" by fastforce
  then show ?thesis
    using assms(1,2)
    by cases (cases "snd v"; auto simp: reg_apply_def meta_stamp_def msg_stamp_def not_le
        dest: order.strict_trans1 order.strict_trans2 less_imp_le)+
qed

lemma reg_apply_comm:
  assumes "msgs_agree ul m n" "ToLower ul (msg_Hostname m) = ToLower ul (msg_Hostname n)"
  shows "reg_apply m (reg_apply n v) = reg_apply n (reg_apply m v)"
  using assms by (auto simp: msgs_agree_def intro: lww_twice_add) (auto simp: reg_apply_def)

interpretation gossip: replicated_store "apply_msg ul" "msgs_agree ul" for ul
proof
  show "apply_msg ul m (apply_msg ul m s) = apply_msg ul m s" for m s
    by (rule Records_eqI) (simp add: reg_apply_msg reg_apply_idem)
  show "apply_msg ul m (apply_msg ul n s) = apply_msg ul n (apply_msg ul m s)"
    if "msgs_agree ul m n" for m n s
    using that by (intro Records_eqI) (auto simp: reg_apply_msg intro: reg_apply_comm)
qed


section \<open>Which record wins\<close>

lemma reg_Lookup: "Lookup ul r h = fst (reg r (ToLower ul h))"
  and reg_GetMeta: "GetMeta ul r h = snd (reg r (ToLower ul h))"
  by (simp_all add: Lookup_def GetMeta_def reg_def)

lemma reg_NewRecords [simp]: "reg NewRecords k = (None, None)"
  by (simp add: reg_def NewRecords_def)

definition holds_best :: "(string \<Rightarrow> string) \<Rightarrow> RecordMessage list \<Rightarrow> string \<Rightarrow> Records \<Rightarrow> bool" where
  "holds_best ul ms k r \<longleftrightarrow>
     (let mine = filter (\<lambda>m. ToLower ul (msg_Hostname m) = k) ms
      in if mine = [] then reg r k = (None, None)
         else \<exists>m \<in> set mine. (\<forall>n \<in> set mine. msg_stamp n \<le> msg_stamp m) \<and>
           reg r k = (Some (msg_IP m), Some \<lparr>meta_Timestamp = msg_Timestamp m, meta_NodeID = msg_NodeID m\<rparr>))"

lemma holds_best_snoc:
  assumes "holds_best ul ms k r" "msg_Action n = RecordActionAdd"
  shows "holds_best ul (ms @ [n]) k (apply_msg ul n r)"
proof (cases "ToLower ul (msg_Hostname n) = k")
  case False
  then have same: "reg (apply_msg ul n r) k = reg r k" by (auto simp: reg_apply_msg)
  from False have "filter (\<lambda>m. ToLower ul (msg_Hostname m) = k) (ms @ [n]) =
    filter (\<lambda>m. ToLower ul (msg_Hostname m) = k) ms" by simp
  with assms(1) show ?thesis unfolding holds_best_def same by (simp only:)
next
  case True
  let ?mine = "filter (\<lambda>m. ToLower ul (msg_Hostname m) = k) ms"
  show ?thesis
  proof (cases "?mine = []")
    case nil: True
    with True assms show ?thesis by (auto simp: holds_best_def reg_apply_msg reg_apply_def)
  next
    case False
    with assms(1) obtain m where m: "m \<in> set ?mine" "\<forall>n \<in> set ?mine. msg_stamp n \<le> msg_stamp m"
      and r: "reg r k = (Some (msg_IP m), Some \<lparr>meta_Timestamp = msg_Timestamp m, meta_NodeID = msg_NodeID m\<rparr>)"
      by (auto simp: holds_best_def Let_def)
    show ?thesis
    proof (cases "msg_stamp n \<le> msg_stamp m")
      case le: True
      with True r assms(2) have "reg (apply_msg ul n r) k = reg r k"
        by (simp add: reg_apply_msg reg_apply_def meta_stamp_def msg_stamp_def)
      with m r le True show ?thesis by (auto simp: holds_best_def Let_def)
    next
      case gt: False
      with True r assms(2) have "reg (apply_msg ul n r) k =
          (Some (msg_IP n), Some \<lparr>meta_Timestamp = msg_Timestamp n, meta_NodeID = msg_NodeID n\<rparr>)"
        by (simp add: reg_apply_msg reg_apply_def meta_stamp_def msg_stamp_def)
      with m gt True show ?thesis
        by (auto simp: holds_best_def Let_def not_le intro!: bexI [of _ n] dest: order.strict_trans1)
    qed
  qed
qed

lemma holds_bestE:
  assumes "holds_best ul ms k r" "m \<in> set ms" "ToLower ul (msg_Hostname m) = k"
  obtains w where "w \<in> set ms" "ToLower ul (msg_Hostname w) = k" "msg_stamp m \<le> msg_stamp w"
    and "reg r k = (Some (msg_IP w), Some \<lparr>meta_Timestamp = msg_Timestamp w, meta_NodeID = msg_NodeID w\<rparr>)"
proof -
  from assms(2,3) have "filter (\<lambda>m. ToLower ul (msg_Hostname m) = k) ms \<noteq> []"
    by (auto simp: filter_empty_conv)
  with assms that show thesis unfolding holds_best_def Let_def by auto
qed

lemma holds_best_fold:
  assumes "\<forall>m \<in> set ms. msg_Action m = RecordActionAdd"
  shows "holds_best ul ms k (fold (apply_msg ul) ms NewRecords)"
  using assms
proof (induction ms rule: rev_induct)
  case Nil
  then show ?case by (simp add: holds_best_def)
next
  case (snoc n ms)
  then show ?case by (simp add: holds_best_snoc)
qed

section \<open>Properties\<close>

text \<open>
  C27. Whatever sequence of additions, removals and gossip messages is applied to a new
  table, every key of the address map and of the metadata map is in lower case and both
  maps are finite, so a lookup (which lowers its argument) reaches every stored record.
\<close>

theorem table_always_wf:
  assumes "lower_ok ul"
  shows "wf_records ul (table_run ul ops) \<and>
         (\<forall>k. r_data (table_run ul ops) k \<noteq> None \<longrightarrow>
              Lookup ul (table_run ul ops) k = r_data (table_run ul ops) k)"
  using wf_table_run [OF assms, of ops] Lookup_lower_key [OF wf_table_run [OF assms, of ops]] by auto

theorem table_always_wf_witness:
  "wf_records (\<lambda>s. s) (table_run (\<lambda>s. s) [OpAdd ''App.Example.COM'' ''10.0.0.1'']) \<and>
   Lookup (\<lambda>s. s) (table_run (\<lambda>s. s) [OpAdd ''App.Example.COM'' ''10.0.0.1'']) ''app.example.com'' = Some ''10.0.0.1''"
proof -
  let ?t = "table_run (\<lambda>s. s) [OpAdd ''App.Example.COM'' ''10.0.0.1'']"
  have d: "r_data ?t ''app.example.com'' = Some ''10.0.0.1''"
    by code_simp
  from table_always_wf [OF lower_ok_id, of "[OpAdd ''App.Example.COM'' ''10.0.0.1'']"] d
  show ?thesis by simp
qed

text \<open>
  C6. Last-write-wins: \<^verbatim>\<open>AddWithMeta\<close> is exactly the write of a register that
  keeps the highest stamp (signed timestamp, then node name); its flag says whether the
  given stamp is above the stored one; a refused write changes nothing.
\<close>

theorem AddWithMeta_lww:
  "lww_abs (snd (AddWithMeta ul r h ip ts n)) =
     lww_put (ToLower ul h) (stamp ts n) (Some ip) (lww_abs r) \<and>
   fst (AddWithMeta ul r h ip ts n) =
     (case GetMeta ul r h of None \<Rightarrow> True | Some m \<Rightarrow> meta_stamp m < stamp ts n) \<and>
   (fst (AddWithMeta ul r h ip ts n) \<or> snd (AddWithMeta ul r h ip ts n) = r)"
  by (auto simp: AddWithMeta_refines AddWithMeta_accepts AddWithMeta_rejected not_le split: option.splits)

text \<open>
  \<^verbatim>\<open>RemoveWithMeta\<close> on every branch: it succeeds exactly when the host has
  an address and the given stamp is above the stored one; then address and metadata of
  that host are gone and every other host is as before; otherwise nothing changes.
\<close>

theorem RemoveWithMeta_behaviour:
  "fst (RemoveWithMeta ul r h ts n) =
     (Lookup ul r h \<noteq> None \<and>
      (case GetMeta ul r h of None \<Rightarrow> True | Some m \<Rightarrow> meta_stamp m < stamp ts n)) \<and>
   snd (RemoveWithMeta ul r h ts n) =
     (if fst (RemoveWithMeta ul r h ts n)
      then r\<lparr>r_data := (r_data r)(ToLower ul h := None), r_meta := (r_meta r)(ToLower ul h := None)\<rparr>
      else r)"
  by (auto simp: RemoveWithMeta_def Lookup_def GetMeta_def Let_def not_le split: option.splits)

text \<open>
  C1. Convergence: two nodes that start from the same table and receive the same set of
  messages, in any order and any number of times each, end with the same table, provided
  that no hostname is both added and removed and that additions with one stamp carry one
  address.
\<close>

theorem gossip_converges:
  assumes "\<forall>m \<in> set xs. \<forall>n \<in> set xs. msgs_agree ul m n" and "set xs = set ys"
  shows "fold (apply_msg ul) xs r = fold (apply_msg ul) ys r"
  using assms by (rule gossip.convergence)

definition sample_add :: "string \<Rightarrow> string \<Rightarrow> int64 \<Rightarrow> string \<Rightarrow> RecordMessage" where
  "sample_add h ip ts n = \<lparr>msg_Hostname = h, msg_IP = ip, msg_Action = RecordActionAdd,
     msg_Timestamp = ts, msg_NodeID = n\<rparr>"

definition sample_remove :: "string \<Rightarrow> int64 \<Rightarrow> string \<Rightarrow> RecordMessage" where
  "sample_remove h ts n = \<lparr>msg_Hostname = h, msg_IP = [], msg_Action = RecordActionRemove,
     msg_Timestamp = ts, msg_NodeID = n\<rparr>"

lemmas sample_msgs = sample_add_def sample_remove_def

theorem gossip_converges_witness:
  "fold (apply_msg (\<lambda>s. s)) [sample_add ''a.com'' ''1.1.1.1'' 5 ''n1'', sample_add ''a.com'' ''2.2.2.2'' 7 ''n2''] NewRecords =
   fold (apply_msg (\<lambda>s. s)) [sample_add ''a.com'' ''2.2.2.2'' 7 ''n2'', sample_add ''a.com'' ''1.1.1.1'' 5 ''n1'',
     sample_add ''a.com'' ''1.1.1.1'' 5 ''n1''] NewRecords"
  by (rule gossip_converges) (auto simp: msgs_agree_def sample_msgs msg_stamp_def)

text \<open>
  C17. The record that wins: after additions only, in any order, a lookup gives the address
  of the addition with the highest stamp among those for that hostname.
\<close>

theorem lww_winner:
  assumes adds: "\<forall>n \<in> set ms. msg_Action n = RecordActionAdd"
    and agree: "\<forall>p \<in> set ms. \<forall>n \<in> set ms. msgs_agree ul p n"
    and m: "m \<in> set ms" "ToLower ul (msg_Hostname m) = ToLower ul h"
    and best: "\<forall>n \<in> set ms. ToLower ul (msg_Hostname n) = ToLower ul h \<longrightarrow> msg_stamp n \<le> msg_stamp m"
  shows "Lookup ul (fold (apply_msg ul) ms NewRecords) h = Some (msg_IP m)"
proof -
  obtain w where w: "w \<in> set ms" "ToLower ul (msg_Hostname w) = ToLower ul h" "msg_stamp m \<le> msg_stamp w"
    and r: "reg (fold (apply_msg ul) ms NewRecords) (ToLower ul h) = (Some (msg_IP w),
      Some \<lparr>meta_Timestamp = msg_Timestamp w, meta_NodeID = msg_NodeID w\<rparr>)"
    using holds_bestE [OF holds_best_fold [OF adds] m] by blast
  from best w have st: "msg_stamp w = msg_stamp m" by (blast intro: order.antisym)
  from agree w(1) m(1) have "msgs_agree ul w m" by blast
  with st w(2) m(2) adds w(1) m(1) have "msg_IP w = msg_IP m" by (simp add: msgs_agree_def)
  with r show ?thesis by (simp add: reg_Lookup)
qed

theorem lww_winner_witness:
  "Lookup (\<lambda>s. s) (fold (apply_msg (\<lambda>s. s))
     [sample_add ''a.com'' ''2.2.2.2'' 7 ''n2'', sample_add ''a.com'' ''1.1.1.1'' 5 ''n1''] NewRecords) ''A.com''
     = Some ''2.2.2.2''"
  using lww_winner [of "[sample_add ''a.com'' ''2.2.2.2'' 7 ''n2'', sample_add ''a.com'' ''1.1.1.1'' 5 ''n1'']"
      "\<lambda>s. s" "sample_add ''a.com'' ''2.2.2.2'' 7 ''n2''" "''A.com''"]
  by (auto simp: sample_msgs msgs_agree_def msg_stamp_def stamp_def lower_eval)

text \<open>
  C38. A removal is not kept: when a removal overtakes the older addition it answers, the
  addition is accepted afterwards and the host stays in the table, while a node that
  received them in the order they were sent has dropped it. The two nodes disagree although
  both received both messages.
\<close>

theorem overtaken_removal_is_lost:
  assumes "sint t1 < sint t2"
  shows "Lookup ul (fold (apply_msg ul) [sample_add h ip t1 n, sample_remove h t2 n] NewRecords) h = None \<and>
         Lookup ul (fold (apply_msg ul) [sample_remove h t2 n, sample_add h ip t1 n] NewRecords) h = Some ip"
  using assms by (simp add: reg_Lookup reg_apply_msg reg_apply_def sample_msgs meta_stamp_def stamp_def)

theorem overtaken_removal_is_lost_witness:
  "Lookup (\<lambda>s. s) (fold (apply_msg (\<lambda>s. s)) [sample_add ''a.com'' ''1.1.1.1'' 1 ''n1'', sample_remove ''a.com'' 2 ''n1''] NewRecords) ''a.com'' = None \<and>
   Lookup (\<lambda>s. s) (fold (apply_msg (\<lambda>s. s)) [sample_remove ''a.com'' 2 ''n1'', sample_add ''a.com'' ''1.1.1.1'' 1 ''n1''] NewRecords) ''a.com'' = Some ''1.1.1.1''"
  by (rule overtaken_removal_is_lost) simp

end
