(* ===== verification/DC_Watcher.thy ===== *)
theory DC_Watcher
  imports DC_Records
begin

text \<open>
  The Docker watcher of \<^verbatim>\<open>docker_watcher.go\<close>: the containers it tracks, the
  host names it reads from their labels, the records it adds and removes, and the loop that
  connects, synchronises and follows the event stream with exponential backoff. The Docker
  client and \<^verbatim>\<open>dns.IsDomainName\<close> are packages outside this repository: what
  the daemon answers is an input of the operations, and the name check is the parameter
  \<open>isdom\<close>. The clock reading \<^verbatim>\<open>time.Now().UnixNano()\<close> is the argument
  \<open>ts\<close>. The record table and the state \<open>'c\<close> that the callback works on are shared with the
  rest of the plugin and passed explicitly.
\<close>

section \<open>State\<close>

type_synonym 'c RecordChangeCallback =
  "hostname \<Rightarrow> string \<Rightarrow> bool \<Rightarrow> int64 \<Rightarrow> 'c \<times> Records \<Rightarrow> 'c \<times> Records"

record 'c DockerWatcher =
  dw_dockerSocket :: string
  dw_hostIP :: string
  dw_labels :: "string list"
  dw_callback :: "'c RecordChangeCallback option"
  dw_client :: bool
  dw_running :: bool
  dw_cancelled :: bool
  dw_workers :: nat
  dw_containers :: "string list go_map"

text \<open>The watcher, the state of the callback, the record table.\<close>

type_synonym 'c watcher_state = "'c DockerWatcher \<times> 'c \<times> Records"

definition truncateID :: "string \<Rightarrow> nat \<Rightarrow> string" where
  "truncateID cid maxLen = (if length cid \<le> maxLen then cid else take maxLen cid)"

definition NewDockerWatcher :: "string \<Rightarrow> string \<Rightarrow> string list \<Rightarrow> 'c DockerWatcher" where
  "NewDockerWatcher dockerSocket hostIP labels = \<lparr>dw_dockerSocket = dockerSocket, dw_hostIP = hostIP,
     dw_labels = labels, dw_callback = None, dw_client = False, dw_running = False, dw_cancelled = False,
     dw_workers = 0, dw_containers = Map.empty\<rparr>"

definition SetCallback :: "'c RecordChangeCallback option \<Rightarrow> 'c DockerWatcher \<Rightarrow> 'c DockerWatcher" where
  "SetCallback cb dw = dw\<lparr>dw_callback := cb\<rparr>"

definition watcher_Start :: "'c DockerWatcher \<Rightarrow> 'c DockerWatcher" where
  "watcher_Start dw =
     (if dw_running dw then dw
      else dw\<lparr>dw_running := True, dw_cancelled := False, dw_workers := Suc (dw_workers dw)\<rparr>)"

text \<open>
  \<^verbatim>\<open>Stop\<close> cancels the context, waits until the loop has returned, then closes the
  client: \<open>watcher_cancel\<close> is what precedes the wait, \<open>watcher_Stop\<close> the whole call once
  the loop is gone.
\<close>

definition watcher_cancel :: "'c DockerWatcher \<Rightarrow> 'c DockerWatcher" where
  "watcher_cancel dw = (if \<not> dw_running dw then dw else dw\<lparr>dw_running := False, dw_cancelled := True\<rparr>)"

definition closeClient :: "'c DockerWatcher \<Rightarrow> 'c DockerWatcher" where
  "closeClient dw = (if dw_client dw then dw\<lparr>dw_client := False\<rparr> else dw)"

definition watcher_Stop :: "'c DockerWatcher \<Rightarrow> 'c DockerWatcher" where
  "watcher_Stop dw =
     (if \<not> dw_running dw then dw
      else closeClient ((watcher_cancel dw)\<lparr>dw_workers := 0\<rparr>))"

section \<open>Host names from labels\<close>

definition host_byte :: "char \<Rightarrow> bool" where
  "host_byte c \<longleftrightarrow> (97 \<le> byte_of c \<and> byte_of c \<le> 122) \<or> (65 \<le> byte_of c \<and> byte_of c \<le> 90) \<or>
     (48 \<le> byte_of c \<and> byte_of c \<le> 57) \<or> c = CHR ''-'' \<or> c = CHR ''.''"

definition isValidHostname :: "(string \<Rightarrow> bool) \<Rightarrow> string \<Rightarrow> bool" where
  "isValidHostname isdom name =
     (if length name = 0 \<or> length name > 253 then False
      else if \<not> list_all host_byte name then False
      else isdom name)"

text \<open>The inner loop over the parts of one label value; \<open>hostnames\<close> is also the set \<^verbatim>\<open>seen\<close>.\<close>

fun extract_parts :: "(string \<Rightarrow> bool) \<Rightarrow> string list \<Rightarrow> string list \<Rightarrow> string list" where
  "extract_parts isdom [] hostnames = hostnames"
| "extract_parts isdom (part # parts) hostnames =
     (let hostname = TrimSpace part
      in if hostname = [] \<or> hostname \<in> set hostnames then extract_parts isdom parts hostnames
         else if \<not> isValidHostname isdom hostname then extract_parts isdom parts hostnames
         else extract_parts isdom parts (hostnames @ [hostname]))"

fun extract_labels :: "(string \<Rightarrow> bool) \<Rightarrow> string list \<Rightarrow> string go_map \<Rightarrow> string list \<Rightarrow> string list" where
  "extract_labels isdom [] labels hostnames = hostnames"
| "extract_labels isdom (labelName # names) labels hostnames =
     (case labels labelName of
        None \<Rightarrow> extract_labels isdom names labels hostnames
      | Some value \<Rightarrow> extract_labels isdom names labels (extract_parts isdom (split_on CHR '','' value) hostnames))"

definition extractHostnames :: "(string \<Rightarrow> bool) \<Rightarrow> 'c DockerWatcher \<Rightarrow> string go_map \<Rightarrow> string list" where
  "extractHostnames isdom dw labels = extract_labels isdom (dw_labels dw) labels []"

section \<open>Updating the records of a container\<close>

definition call_each :: "'c RecordChangeCallback \<Rightarrow> string list \<Rightarrow> string \<Rightarrow> bool \<Rightarrow> int64 \<Rightarrow> 'c \<times> Records \<Rightarrow> 'c \<times> Records" where
  "call_each cb hostnames ip added ts s = foldl (\<lambda>s h. cb h ip added ts s) s hostnames"

text \<open>A map read without the second result: the zero value, an empty slice, for a missing key.\<close>

definition hosts_at :: "string list go_map \<Rightarrow> string \<Rightarrow> string list" where
  "hosts_at cs cid = (case cs cid of None \<Rightarrow> [] | Some hs \<Rightarrow> hs)"

definition updateContainer ::
  "(string \<Rightarrow> string) \<Rightarrow> int64 \<Rightarrow> string \<Rightarrow> string list \<Rightarrow> 'c watcher_state \<Rightarrow> 'c watcher_state" where
  "updateContainer ul ts containerID newHostnames s =
     (case s of (dw, c, r) \<Rightarrow>
        let oldHostnames = hosts_at (dw_containers dw) containerID;
            dw = dw\<lparr>dw_containers := (dw_containers dw)(containerID \<mapsto> newHostnames)\<rparr>;
            removed = filter (\<lambda>h. h \<notin> set newHostnames) oldHostnames;
            added = filter (\<lambda>h. h \<notin> set oldHostnames) newHostnames;
            r = foldl (Remove ul) r removed;
            r = foldl (\<lambda>r h. Add ul r h (dw_hostIP dw)) r added
        in (dw, case dw_callback dw of
                  None \<Rightarrow> (c, r)
                | Some cb \<Rightarrow> call_each cb added (dw_hostIP dw) True ts (call_each cb removed [] False ts (c, r))))"

record container_summary =
  sum_ID :: string
  sum_Labels :: "string go_map"

definition applyContainerSummary ::
  "(string \<Rightarrow> string) \<Rightarrow> (string \<Rightarrow> bool) \<Rightarrow> int64 \<Rightarrow> container_summary \<Rightarrow> 'c watcher_state \<Rightarrow> bool \<times> 'c watcher_state" where
  "applyContainerSummary ul isdom ts summary s =
     (let hostnames = extractHostnames isdom (fst s) (sum_Labels summary)
      in if length hostnames = 0 then (False, s)
         else (True, updateContainer ul ts (sum_ID summary) hostnames s))"

text \<open>The inspection of a container: the labels of its configuration, or no configuration.\<close>

definition applyContainerInspect ::
  "(string \<Rightarrow> string) \<Rightarrow> (string \<Rightarrow> bool) \<Rightarrow> int64 \<Rightarrow> string \<Rightarrow> string go_map option \<Rightarrow> 'c watcher_state \<Rightarrow> string list \<times> 'c watcher_state" where
  "applyContainerInspect ul isdom ts containerID info s =
     (case info of
        None \<Rightarrow> ([], s)
      | Some labels \<Rightarrow>
          (let hostnames = extractHostnames isdom (fst s) labels
           in (hostnames, if length hostnames > 0 then updateContainer ul ts containerID hostnames s else s)))"

definition handleContainerStart ::
  "(string \<Rightarrow> string) \<Rightarrow> (string \<Rightarrow> bool) \<Rightarrow> (string \<Rightarrow> string + string go_map option) \<Rightarrow> int64 \<Rightarrow> string \<Rightarrow> 'c watcher_state \<Rightarrow> 'c watcher_state" where
  "handleContainerStart ul isdom inspect ts containerID s =
     (if \<not> dw_client (fst s) then s
      else case inspect containerID of
             Inl err \<Rightarrow> s
           | Inr info \<Rightarrow> snd (applyContainerInspect ul isdom ts containerID info s))"

definition handleContainerStop :: "(string \<Rightarrow> string) \<Rightarrow> int64 \<Rightarrow> string \<Rightarrow> 'c watcher_state \<Rightarrow> 'c watcher_state" where
  "handleContainerStop ul ts containerID s =
     (case s of (dw, c, r) \<Rightarrow>
        (case dw_containers dw containerID of
           None \<Rightarrow> (dw, c, r)
         | Some hostnames \<Rightarrow>
             (let dw = dw\<lparr>dw_containers := (dw_containers dw)(containerID := None)\<rparr>;
                  r = foldl (Remove ul) r hostnames
              in (dw, case dw_callback dw of
                        None \<Rightarrow> (c, r)
                      | Some cb \<Rightarrow> call_each cb hostnames [] False ts (c, r)))))"

record events_Message =
  ev_Action :: string
  ev_ActorID :: string

definition handleEvent ::
  "(string \<Rightarrow> string) \<Rightarrow> (string \<Rightarrow> bool) \<Rightarrow> (string \<Rightarrow> string + string go_map option) \<Rightarrow> int64 \<Rightarrow> events_Message \<Rightarrow> 'c watcher_state \<Rightarrow> 'c watcher_state" where
  "handleEvent ul isdom inspect ts event s =
     (if ev_Action event = ''start'' then handleContainerStart ul isdom inspect ts (ev_ActorID event) s
      else if ev_Action event = ''stop'' \<or> ev_Action event = ''die'' then handleContainerStop ul ts (ev_ActorID event) s
      else s)"

section \<open>Synchronising with the running containers\<close>

text \<open>Each listed container comes with the clock reading of its update.\<close>

fun sync_items ::
  "(string \<Rightarrow> string) \<Rightarrow> (string \<Rightarrow> bool) \<Rightarrow> (container_summary \<times> int64) list \<Rightarrow> string list \<Rightarrow> 'c watcher_state \<Rightarrow> string list \<times> 'c watcher_state" where
  "sync_items ul isdom [] seen s = (seen, s)"
| "sync_items ul isdom ((summary, ts) # items) seen s =
     (case applyContainerSummary ul isdom ts summary s of
        (ok, s') \<Rightarrow> sync_items ul isdom items (if ok then sum_ID summary # seen else seen) s')"

definition drop_unseen ::
  "(string \<Rightarrow> string) \<Rightarrow> (string list go_map \<Rightarrow> string list) \<Rightarrow> int64 \<Rightarrow> string list \<Rightarrow> 'c watcher_state \<Rightarrow> 'c watcher_state" where
  "drop_unseen ul ord ts seen s =
     (case s of (dw, c, r) \<Rightarrow>
        let gone = filter (\<lambda>id. id \<notin> set seen) (ord (dw_containers dw));
            removedHostnames = concat (map (hosts_at (dw_containers dw)) gone);
            r = foldl (Remove ul) r removedHostnames;
            dw = dw\<lparr>dw_containers := (dw_containers dw) |` (- set gone)\<rparr>
        in (dw, if length removedHostnames > 0
                then case dw_callback dw of
                       None \<Rightarrow> (c, r)
                     | Some cb \<Rightarrow> call_each cb removedHostnames [] False ts (c, r)
                else (c, r)))"

definition syncContainers ::
  "(string \<Rightarrow> string) \<Rightarrow> (string \<Rightarrow> bool) \<Rightarrow> (string list go_map \<Rightarrow> string list) \<Rightarrow>
   string + (container_summary \<times> int64) list \<Rightarrow> int64 \<Rightarrow> 'c watcher_state \<Rightarrow> string option \<times> 'c watcher_state" where
  "syncContainers ul isdom ord listing ts s =
     (if \<not> dw_client (fst s) then (None, s)
      else case listing of
             Inl err \<Rightarrow> (Some err, s)
           | Inr items \<Rightarrow>
               (case sync_items ul isdom items [] s of
                  (seen, s') \<Rightarrow> (None, drop_unseen ul ord ts seen s')))"

section \<open>The event stream\<close>

text \<open>
  What one \<^verbatim>\<open>select\<close> of \<^verbatim>\<open>consumeEvents\<close> receives: the end of
  the context, a value or the closing of the error channel, an event or the closing of the
  message channel. An event comes with the answer the daemon gives to an inspection while it
  is handled and with the clock reading. A loop whose inputs run out is still waiting:
  the result is \<open>None\<close>.
\<close>

datatype stream_input =
    CtxDone
  | ErrReceived "string option"
  | ErrsClosed
  | EventReceived events_Message "string \<Rightarrow> string + string go_map option" int64
  | MessagesClosed

definition EOF :: string where
  "EOF = ''EOF''"

fun consumeEvents ::
  "(events_Message \<Rightarrow> (string \<Rightarrow> string + string go_map option) \<Rightarrow> int64 \<Rightarrow> 's \<Rightarrow> 's) \<Rightarrow> stream_input list \<Rightarrow> 's \<Rightarrow> string option option \<times> 's" where
  "consumeEvents handle [] s = (None, s)"
| "consumeEvents handle (i # is) s =
     (case i of
        CtxDone \<Rightarrow> (Some None, s)
      | ErrsClosed \<Rightarrow> (Some (Some EOF), s)
      | ErrReceived None \<Rightarrow> (Some (Some EOF), s)
      | ErrReceived (Some err) \<Rightarrow> (Some (Some err), s)
      | MessagesClosed \<Rightarrow> (Some (Some EOF), s)
      | EventReceived event inspect ts \<Rightarrow> consumeEvents handle is (handle event inspect ts s))"

definition watchEvents ::
  "(string \<Rightarrow> string) \<Rightarrow> (string \<Rightarrow> bool) \<Rightarrow> stream_input list \<Rightarrow> 'c watcher_state \<Rightarrow> string option option \<times> 'c watcher_state" where
  "watchEvents ul isdom inputs s =
     (if \<not> dw_client (fst s) then (Some None, s)
      else consumeEvents (\<lambda>event inspect ts. handleEvent ul isdom inspect ts event) inputs s)"

section \<open>The loop\<close>

text \<open>Durations are signed 64-bit counts of nanoseconds.\<close>

definition nextBackoff :: "int64 \<Rightarrow> int64 \<Rightarrow> int64" where
  "nextBackoff current max' = (let next = current * 2 in if max' <s next then max' else next)"

definition Second :: int64 where
  "Second = 1000000000"

definition maxBackoff :: int64 where
  "maxBackoff = 5 * 60 * Second"

definition connect :: "string option \<Rightarrow> 'c DockerWatcher \<Rightarrow> string option \<times> 'c DockerWatcher" where
  "connect dial dw =
     (case dial of
        Some err \<Rightarrow> (Some err, dw)
      | None \<Rightarrow> (None, dw\<lparr>dw_client := True\<rparr>))"

text \<open>
  \<^verbatim>\<open>Stop\<close> runs in another goroutine and may cancel the context at any time. \<open>stop_point\<close>
  says where in a turn of the loop it does so, if it does: before the answer of the ping, of the
  listing or of the event stream, or after some nanoseconds of the wait. What the daemon answers
  to a call with a cancelled context is an input like any other answer.
\<close>

datatype stop_point = NoStop | StopInConnect | StopInSync | StopInStream | StopInSleep nat

definition stop_at :: "stop_point \<Rightarrow> stop_point \<Rightarrow> 'c DockerWatcher \<Rightarrow> 'c DockerWatcher" where
  "stop_at here p dw = (if p = here then watcher_cancel dw else dw)"

text \<open>
  \<^verbatim>\<open>sleep\<close> waits for the duration or until the context is cancelled: the time it takes and
  the watcher afterwards.
\<close>

definition sleep :: "stop_point \<Rightarrow> int64 \<Rightarrow> 'c DockerWatcher \<Rightarrow> int \<times> 'c DockerWatcher" where
  "sleep p d dw =
     (if dw_cancelled dw then (0, dw)
      else case p of
             StopInSleep t \<Rightarrow> if dw_running dw \<and> int t < sint d then (int t, watcher_cancel dw) else (sint d, dw)
           | _ \<Rightarrow> (sint d, dw))"

text \<open>
  What the daemon does during one turn of \<^verbatim>\<open>watchLoop\<close>: the error of creating or
  pinging the client if there is one, the list of running containers, the event stream; the
  clock reading of the synchronisation; and when \<^verbatim>\<open>Stop\<close> is called.
\<close>

record daemon =
  dm_dial :: "string option"
  dm_list :: "string + (container_summary \<times> int64) list"
  dm_ts :: int64
  dm_stream :: "stream_input list"
  dm_stop :: stop_point

text \<open>\<open>Slept d w\<close>: the turn asked for a wait of \<open>d\<close> and waited \<open>w\<close> nanoseconds.\<close>

datatype turn_result = LoopReturned | Waiting | Slept int64 int | Continued

definition back_off :: "stop_point \<Rightarrow> int64 \<Rightarrow> 'c watcher_state \<Rightarrow> turn_result \<times> int64 \<times> 'c watcher_state" where
  "back_off p backoff s =
     (case s of (dw, cr) \<Rightarrow>
        (case sleep p backoff dw of (w, dw) \<Rightarrow> (Slept backoff w, nextBackoff backoff maxBackoff, dw, cr)))"

text \<open>
  One turn: how it ends, the backoff for the next turn and the state. \<open>Waiting\<close> is a turn
  whose event stream is still open.
\<close>

definition watch_turn ::
  "(string \<Rightarrow> string) \<Rightarrow> (string \<Rightarrow> bool) \<Rightarrow> (string list go_map \<Rightarrow> string list) \<Rightarrow> daemon \<Rightarrow>
   int64 \<times> 'c watcher_state \<Rightarrow> turn_result \<times> int64 \<times> 'c watcher_state" where
  "watch_turn ul isdom ord dm b =
     (case b of (backoff, dw, cr) \<Rightarrow>
        if dw_cancelled dw then (LoopReturned, backoff, dw\<lparr>dw_workers := dw_workers dw - 1\<rparr>, cr)
        else case connect (dm_dial dm) (stop_at StopInConnect (dm_stop dm) dw) of
          (Some err, dw) \<Rightarrow> back_off (dm_stop dm) backoff (dw, cr)
        | (None, dw) \<Rightarrow>
            (let backoff = Second
             in case syncContainers ul isdom ord (dm_list dm) (dm_ts dm) (stop_at StopInSync (dm_stop dm) dw, cr) of
                  (Some err, dw, cr) \<Rightarrow> back_off (dm_stop dm) backoff (closeClient dw, cr)
                | (None, dw, cr) \<Rightarrow>
                    (case watchEvents ul isdom (dm_stream dm) (stop_at StopInStream (dm_stop dm) dw, cr) of
                       (None, s) \<Rightarrow> (Waiting, backoff, s)
                     | (Some (Some err), dw, cr) \<Rightarrow> back_off (dm_stop dm) backoff (closeClient dw, cr)
                     | (Some None, s) \<Rightarrow> (Continued, backoff, s))))"

text \<open>The loop over the behaviours of the daemon in successive turns.\<close>

fun watchLoop ::
  "(string \<Rightarrow> string) \<Rightarrow> (string \<Rightarrow> bool) \<Rightarrow> (string list go_map \<Rightarrow> string list) \<Rightarrow> daemon list \<Rightarrow>
   int64 \<times> 'c watcher_state \<Rightarrow> turn_result list \<times> int64 \<times> 'c watcher_state" where
  "watchLoop ul isdom ord [] b = ([], b)"
| "watchLoop ul isdom ord (dm # dms) b =
     (case watch_turn ul isdom ord dm b of
        (LoopReturned, b') \<Rightarrow> ([LoopReturned], b')
      | (Waiting, b') \<Rightarrow> ([Waiting], b')
      | (res, b') \<Rightarrow> (case watchLoop ul isdom ord dms b' of (rs, b'') \<Rightarrow> (res # rs, b'')))"

section \<open>Host names from labels: the reference\<close>

definition candidates :: "string list \<Rightarrow> string go_map \<Rightarrow> string list" where
  "candidates names labels = concat (map (\<lambda>n. case labels n of None \<Rightarrow> []
     | Some value \<Rightarrow> map TrimSpace (split_on CHR '','' value)) names)"

lemma isValidHostname_iff:
  "isValidHostname isdom h \<longleftrightarrow> h \<noteq> [] \<and> length h \<le> 253 \<and> list_all host_byte h \<and> isdom h"
  by (auto simp: isValidHostname_def)

lemma extract_parts_fold:
  "extract_parts isdom parts hs = fold keep_new (filter (isValidHostname isdom) (map TrimSpace parts)) hs"
  by (induction parts arbitrary: hs) (auto simp: Let_def keep_new_def isValidHostname_iff)

lemma extract_labels_fold:
  "extract_labels isdom names labels hs = fold keep_new (filter (isValidHostname isdom) (candidates names labels)) hs"
  by (induction names arbitrary: hs) (auto simp: candidates_def extract_parts_fold split: option.splits)

lemma extractHostnames_eq:
  "extractHostnames isdom dw labels =
     rev (remdups (rev (filter (isValidHostname isdom) (candidates (dw_labels dw) labels))))"
  by (simp add: extractHostnames_def extract_labels_fold fold_keep_new)

section \<open>What the operations on containers leave alone\<close>

lemma hosts_at_simps [simp]:
  "hosts_at Map.empty cid = []"
  "hosts_at (cs(cid' \<mapsto> hs)) cid = (if cid = cid' then hs else hosts_at cs cid)"
  "cs cid = Some hs \<Longrightarrow> hosts_at cs cid = hs"
  "cs cid = None \<Longrightarrow> hosts_at cs cid = []"
  by (simp_all add: hosts_at_def)

definition same_setup :: "'c watcher_state \<Rightarrow> 'c watcher_state \<Rightarrow> bool" where
  "same_setup s t \<longleftrightarrow> dw_labels (fst t) = dw_labels (fst s) \<and> dw_hostIP (fst t) = dw_hostIP (fst s) \<and>
     dw_client (fst t) = dw_client (fst s) \<and> dw_callback (fst t) = dw_callback (fst s) \<and>
     dw_running (fst t) = dw_running (fst s) \<and> dw_cancelled (fst t) = dw_cancelled (fst s)"

lemma setup_updateContainer: "same_setup s (updateContainer ul ts cid hs s)"
  by (cases s) (simp add: same_setup_def updateContainer_def Let_def)

lemma setup_handleContainerStop: "same_setup s (handleContainerStop ul ts cid s)"
  by (cases s) (simp add: same_setup_def handleContainerStop_def Let_def split: option.splits)

lemma setup_refl [simp]: "same_setup s s"
  by (simp add: same_setup_def)

lemma setup_trans: "same_setup s t \<Longrightarrow> same_setup t u \<Longrightarrow> same_setup s u"
  by (simp add: same_setup_def)

lemma setup_handleEvent: "same_setup s (handleEvent ul isdom inspect ts event s)"
  by (simp add: handleEvent_def handleContainerStart_def applyContainerInspect_def Let_def
      setup_updateContainer setup_handleContainerStop split: sum.splits option.splits)

lemma setup_applyContainerSummary: "same_setup s (snd (applyContainerSummary ul isdom ts summary s))"
  by (simp add: applyContainerSummary_def Let_def setup_updateContainer)

lemma setup_drop_unseen: "same_setup s (drop_unseen ul ord ts seen s)"
  by (cases s) (simp add: drop_unseen_def same_setup_def Let_def)

lemma sync_items_Cons:
  "sync_items ul isdom ((summary, ts) # items) seen s =
     sync_items ul isdom items
       (if extractHostnames isdom (fst s) (sum_Labels summary) = [] then seen else sum_ID summary # seen)
       (snd (applyContainerSummary ul isdom ts summary s))"
  by (cases s) (simp add: applyContainerSummary_def Let_def)

lemma setup_sync_items: "same_setup s (snd (sync_items ul isdom items seen s))"
proof (induction items arbitrary: seen s)
  case (Cons it items)
  obtain summary ts where "it = (summary, ts)" by (cases it)
  then show ?case by (simp only: sync_items_Cons) (rule setup_trans [OF setup_applyContainerSummary Cons.IH])
qed simp

lemma setup_syncContainers: "same_setup s (snd (syncContainers ul isdom ord listing ts s))"
proof -
  have "same_setup s (drop_unseen ul ord ts seen s')" if "sync_items ul isdom items [] s = (seen, s')" for items seen s'
    using setup_trans [OF setup_sync_items [of s ul isdom items "[]"] setup_drop_unseen] that by simp
  then show ?thesis by (auto simp: syncContainers_def split: sum.splits prod.splits)
qed

lemma setup_consumeEvents:
  "(\<And>e i t s. same_setup s (handle e i t s)) \<Longrightarrow> same_setup s (snd (consumeEvents handle inputs s))"
proof (induction handle inputs s rule: consumeEvents.induct)
  case (2 handle i inputs s)
  show ?case
  proof (cases i)
    case (EventReceived e ins t)
    with 2 setup_trans [of s "handle e ins t s"] show ?thesis by simp
  qed (auto split: option.splits)
qed simp

lemma setup_watchEvents: "same_setup s (snd (watchEvents ul isdom inputs s))"
  by (simp add: watchEvents_def setup_consumeEvents setup_handleEvent)

section \<open>The backoff\<close>

lemma sint_small: "0 \<le> i \<Longrightarrow> i < 2 ^ 63 \<Longrightarrow> sint (word_of_int i :: int64) = i"
  by (simp add: signed_of_int signed_take_bit_int_eq_self)

lemma sint_seconds [simp]: "sint Second = 1000000000" "sint maxBackoff = 300000000000"
  using sint_small [of 1000000000] sint_small [of 300000000000]
  by (simp_all add: Second_def maxBackoff_def)

lemma sint_double: "0 \<le> sint b \<Longrightarrow> sint b \<le> sint maxBackoff \<Longrightarrow> sint (b * 2) = 2 * sint b"
  for b :: int64
  using sint_small [of "sint b * 2"] by (simp add: mult.commute)

lemma sint_nextBackoff:
  assumes "0 \<le> sint b" "sint b \<le> sint maxBackoff"
  shows "sint (nextBackoff b maxBackoff) = min (2 * sint b) (sint maxBackoff)"
  using sint_double [OF assms] by (simp add: nextBackoff_def Let_def word_sless_alt)

lemma backoff_iter: "sint (((\<lambda>b. nextBackoff b maxBackoff) ^^ n) Second) = min (10 ^ 9 * 2 ^ n) (300 * 10 ^ 9)"
proof (induction n)
  case (Suc n)
  then have "0 \<le> sint (((\<lambda>b. nextBackoff b maxBackoff) ^^ n) Second)"
      "sint (((\<lambda>b. nextBackoff b maxBackoff) ^^ n) Second) \<le> sint maxBackoff" by simp_all
  from sint_nextBackoff [OF this] Suc show ?case by simp
qed simp

definition backoff_ok :: "int64 \<Rightarrow> bool" where
  "backoff_ok b \<longleftrightarrow> sint Second \<le> sint b \<and> sint b \<le> sint maxBackoff"

lemma backoff_ok_Second [simp]: "backoff_ok Second"
  by (simp add: backoff_ok_def)

lemma backoff_ok_next: "backoff_ok b \<Longrightarrow> backoff_ok (nextBackoff b maxBackoff)"
  using sint_nextBackoff [of b] by (simp add: backoff_ok_def)

lemma sleep_result:
  assumes "backoff_ok d" "sleep p d dw = (w, dw')"
  shows "0 \<le> w \<and> w \<le> sint d \<and> (w < sint d \<longrightarrow> dw_cancelled dw') \<and> (dw_cancelled dw \<longrightarrow> dw_cancelled dw')"
  using assms by (auto simp: sleep_def backoff_ok_def watcher_cancel_def split: if_splits stop_point.splits)

lemma back_off_result:
  assumes "backoff_ok b" "back_off p b (dw, cr) = (res, b', dw', cr')"
  shows "\<exists>w. res = Slept b w \<and> 0 \<le> w \<and> w \<le> sint b \<and> (w < sint b \<longrightarrow> dw_cancelled dw') \<and>
    (dw_cancelled dw \<longrightarrow> dw_cancelled dw') \<and> backoff_ok b'"
  using assms sleep_result [OF assms(1), of p dw] by (auto simp: back_off_def backoff_ok_next split: prod.splits)

definition wait_ok :: "turn_result \<Rightarrow> bool \<Rightarrow> bool" where
  "wait_ok res cancelled \<longleftrightarrow> (\<forall>d w. res = Slept d w \<longrightarrow> backoff_ok d \<and> 0 \<le> w \<and> w \<le> sint d \<and> (w < sint d \<longrightarrow> cancelled))"

lemma back_off_ok:
  "backoff_ok b \<Longrightarrow> back_off p b (dw, cr) = (res, b', s') \<Longrightarrow>
   backoff_ok b' \<and> wait_ok res (dw_cancelled (fst s')) \<and> res \<noteq> LoopReturned"
  using back_off_result [of b p dw cr res b' "fst s'" "snd s'"] by (auto simp: wait_ok_def)

lemma watch_turn_result:
  assumes "backoff_ok b" "watch_turn ul isdom ord dm (b, dw, cr) = (res, b', s')"
  shows "backoff_ok b' \<and> wait_ok res (dw_cancelled (fst s')) \<and> (res = LoopReturned \<longleftrightarrow> dw_cancelled dw) \<and>
    (res = LoopReturned \<longrightarrow> dw_cancelled (fst s'))"
proof (cases "dw_cancelled dw")
  case True
  with assms show ?thesis by (auto simp: watch_turn_def wait_ok_def)
next
  case False
  have other: "wait_ok Waiting c" "wait_ok Continued c" for c by (simp_all add: wait_ok_def)
  from False assms back_off_ok show ?thesis
    by (auto simp: watch_turn_def Let_def other split: prod.splits option.splits dest!: back_off_ok [rotated])
qed

lemma watchLoop_cancelled:
  "dw_cancelled (fst s) \<Longrightarrow> dms \<noteq> [] \<Longrightarrow> \<exists>s'. watchLoop ul isdom ord dms (b, s) = ([LoopReturned], b, s') \<and> dw_cancelled (fst s')"
  by (cases dms; cases s) (auto simp: watch_turn_def)

lemma watchLoop_result:
  assumes "backoff_ok b" "watchLoop ul isdom ord dms (b, s) = (rs, b', s')"
  shows "(\<forall>d w. Slept d w \<in> set rs \<longrightarrow> backoff_ok d \<and> 0 \<le> w \<and> w \<le> sint d) \<and>
    (LoopReturned \<in> set rs \<longrightarrow> dw_cancelled (fst s')) \<and>
    (\<forall>xs d w ys. rs = xs @ Slept d w # ys \<and> w < sint d \<longrightarrow> dw_cancelled (fst s') \<and> ys \<in> {[], [LoopReturned]})"
  using assms
proof (induction dms arbitrary: b s rs b' s')
  case (Cons dm dms)
  obtain res b1 s1 where tr: "watch_turn ul isdom ord dm (b, s) = (res, b1, s1)"
    by (cases "watch_turn ul isdom ord dm (b, s)") auto
  obtain rs2 b2 s2 where rec: "watchLoop ul isdom ord dms (b1, s1) = (rs2, b2, s2)"
    by (cases "watchLoop ul isdom ord dms (b1, s1)") auto
  from watch_turn_result [OF Cons.prems(1), of ul isdom ord dm "fst s" "snd s"] tr
  have t: "backoff_ok b1" "wait_ok res (dw_cancelled (fst s1))" "res = LoopReturned \<longrightarrow> dw_cancelled (fst s1)" by auto
  note IH = Cons.IH [OF t(1) rec]
  show ?case
  proof (cases "res = LoopReturned \<or> res = Waiting")
    case True
    with Cons.prems(2) tr have "rs = [res] \<and> s' = s1" by auto
    with True t(3) show ?thesis by (auto simp: Cons_eq_append_conv)
  next
    case False
    with Cons.prems(2) tr rec have rs: "rs = res # rs2" "s' = s2" by (cases res; auto)+
    have short: "dw_cancelled (fst s2) \<and> rs2 \<in> {[], [LoopReturned]}" if "res = Slept d w" "w < sint d" for d w
    proof (cases "dms = []")
      case True
      with rec t(2) that show ?thesis by (auto simp: wait_ok_def)
    next
      case False
      with watchLoop_cancelled [of s1 dms ul isdom ord b1] rec t(2) that show ?thesis by (auto simp: wait_ok_def)
    qed
    have tail: "dw_cancelled (fst s2) \<and> ys \<in> {[], [LoopReturned]}" if "res # rs2 = xs @ Slept d w # ys \<and> w < sint d" for xs d w ys
    proof (cases xs)
      case (Cons x xs')
      with that have "rs2 = xs' @ Slept d w # ys \<and> w < sint d" by simp
      with IH show ?thesis by blast
    qed (use that short in auto)
    have "\<forall>d w. Slept d w \<in> set (res # rs2) \<longrightarrow> backoff_ok d \<and> 0 \<le> w \<and> w \<le> sint d"
      using IH t(2) by (auto simp: wait_ok_def)
    with tail IH False show ?thesis unfolding rs by auto
  qed
qed simp

text \<open>A run of events is handled one by one, in the order they arrive, until the stream ends.\<close>

lemma consumeEvents_run:
  "consumeEvents handle (map (\<lambda>(e, i, t). EventReceived e i t) evs @ rest) s =
     consumeEvents handle rest (foldl (\<lambda>s (e, i, t). handle e i t s) s evs)"
  by (induction evs arbitrary: s) auto

section \<open>Properties\<close>

text \<open>
  C30. The names read from the labels of a container are the parts of the values of the
  configured labels, split at commas and trimmed, that are valid host names, each once and in
  the order of its first occurrence: every one of 1 to 253 letters, digits, hyphens and dots,
  and accepted by \<^verbatim>\<open>dns.IsDomainName\<close>.
\<close>

theorem extracted_names:
  "extractHostnames isdom dw labels =
     rev (remdups (rev (filter (isValidHostname isdom) (candidates (dw_labels dw) labels)))) \<and>
   distinct (extractHostnames isdom dw labels) \<and>
   list_all (\<lambda>h. 1 \<le> length h \<and> length h \<le> 253 \<and> list_all host_byte h \<and> isdom h) (extractHostnames isdom dw labels)"
  by (auto simp: extractHostnames_eq list_all_iff isValidHostname_iff Suc_le_eq)

definition sample_watcher :: "unit DockerWatcher" where
  "sample_watcher = NewDockerWatcher ''unix:///var/run/docker.sock'' ''10.0.0.1'' [''coredns.host.name'']"

text \<open>
  C29. The waiting time after the n-th failed connection in a row is the smaller of
  \<open>2\<^sup>n\<close> seconds and five minutes: doubling the 64-bit duration never wraps around.
\<close>

theorem backoff_closed_form:
  "sint (((\<lambda>b. nextBackoff b maxBackoff) ^^ n) Second) = min (10 ^ 9 * 2 ^ n) (300 * 10 ^ 9)"
  by (rule backoff_iter)

text \<open>
  C28. The waits of the loop, over any behaviour of the daemon and whenever \<^verbatim>\<open>Stop\<close> is
  called: every wait it asks for is between one second and five minutes; it takes that long, or
  less when the context is cancelled; after a wait that was cut short the loop does nothing more
  than return, and it returns only when the context is cancelled.
\<close>

theorem loop_waits:
  assumes "watchLoop ul isdom ord dms (Second, s) = (rs, b', s')"
  shows "(\<forall>d w. Slept d w \<in> set rs \<longrightarrow> sint Second \<le> sint d \<and> sint d \<le> sint maxBackoff \<and> 0 \<le> w \<and> w \<le> sint d) \<and>
    (LoopReturned \<in> set rs \<longrightarrow> dw_cancelled (fst s')) \<and>
    (\<forall>xs d w ys. rs = xs @ Slept d w # ys \<and> w < sint d \<longrightarrow> dw_cancelled (fst s') \<and> ys \<in> {[], [LoopReturned]})"
  using watchLoop_result [OF backoff_ok_Second assms] unfolding backoff_ok_def by blast

theorem loop_waits_witness:
  "\<exists>b s. watchLoop (\<lambda>s. s) (\<lambda>_. True) sorted_order
      [\<lparr>dm_dial = Some ''refused'', dm_list = Inl [], dm_ts = 0, dm_stream = [], dm_stop = NoStop\<rparr>,
       \<lparr>dm_dial = Some ''refused'', dm_list = Inl [], dm_ts = 0, dm_stream = [], dm_stop = StopInSleep 7\<rparr>,
       \<lparr>dm_dial = None, dm_list = Inr [], dm_ts = 0, dm_stream = [], dm_stop = NoStop\<rparr>]
      (Second, watcher_Start sample_watcher, (), NewRecords) =
    ([Slept Second (10 ^ 9), Slept (2 * Second) 7, LoopReturned], b, s) \<and> dw_cancelled (fst s)"
proof -
  let ?dms = "[\<lparr>dm_dial = Some ''refused'', dm_list = Inl [], dm_ts = 0, dm_stream = [], dm_stop = NoStop\<rparr>,
       \<lparr>dm_dial = Some ''refused'', dm_list = Inl [], dm_ts = 0, dm_stream = [], dm_stop = StopInSleep 7\<rparr>,
       \<lparr>dm_dial = None, dm_list = Inr [], dm_ts = 0, dm_stream = [], dm_stop = NoStop\<rparr>]"
  have "\<not> maxBackoff <s 2 * Second" "sint (2 * Second) = 2000000000"
    using sint_double [of Second] by (simp_all add: word_sless_alt mult.commute)
  then obtain b s where r: "watchLoop (\<lambda>s. s) (\<lambda>_. True) sorted_order ?dms (Second, watcher_Start sample_watcher, (), NewRecords) =
      ([Slept Second (10 ^ 9), Slept (2 * Second) 7, LoopReturned], b, s)"
    by (simp add: watch_turn_def back_off_def sleep_def connect_def stop_at_def watcher_Start_def watcher_cancel_def
        sample_watcher_def NewDockerWatcher_def nextBackoff_def Let_def mult.commute)
  from loop_waits [OF r] r show ?thesis by auto
qed

end
