(* ===== verification/DC_Delegate.thy ===== *)
theory DC_Delegate
  imports DC_Records
begin

text \<open>
  The memberlist delegate of \<^verbatim>\<open>delegate.go\<close>: the bounded channel of received
  messages, the goroutine that applies them, the full state exchange, and the queue of
  outgoing broadcasts. The queue is memberlist's \<^verbatim>\<open>TransmitLimitedQueue\<close>, a
  package outside this repository: it is a value of a type parameter, and its two methods
  are arguments of the operations that call them. The record table the delegate points to is
  shared with the rest of the plugin and passed explicitly.

  The iteration of \<^verbatim>\<open>MergeRemoteState\<close> over a Go map has no fixed order; \<open>ord\<close>
  is the order the runtime picks for a map, with \<open>range_order\<close> as its law.
\<close>

section \<open>State and operations\<close>

text \<open>
  A goroutine running \<^verbatim>\<open>processMessages\<close> is before its \<^verbatim>\<open>select\<close>, waits in it on the
  context that \<^verbatim>\<open>d.ctx\<close> was when it entered it, or holds a message it has received and not
  yet applied. Contexts are numbered in the order they are made; \<open>d_done\<close> has the cancelled ones.
\<close>

datatype worker = Looping | Selecting nat | Applying RecordMessage

record 'q ClusterDelegate =
  d_nodeID :: string
  d_broadcasts :: 'q
  d_msgChan :: "RecordMessage list"
  d_ctx :: "nat option"
  d_ctxs :: nat
  d_done :: "nat list"
  d_workers :: "worker list"

definition msgChanBufferSize :: nat where
  "msgChanBufferSize = 256"

definition NewClusterDelegate :: "string \<Rightarrow> 'q \<Rightarrow> 'q ClusterDelegate" where
  "NewClusterDelegate nodeID q = \<lparr>d_nodeID = nodeID, d_broadcasts = q, d_msgChan = [],
     d_ctx = None, d_ctxs = 0, d_done = [], d_workers = []\<rparr>"

definition NodeMeta :: "'q ClusterDelegate \<Rightarrow> int \<Rightarrow> string option" where
  "NodeMeta d limit = None"

definition NotifyMsg :: "'q ClusterDelegate \<Rightarrow> string \<Rightarrow> 'q ClusterDelegate" where
  "NotifyMsg d data =
     (if length data = 0 then d
      else case DecodeRecordMessage data of
             None \<Rightarrow> d
           | Some msg \<Rightarrow>
               if length (d_msgChan d) < msgChanBufferSize
               then d\<lparr>d_msgChan := d_msgChan d @ [msg]\<rparr>
               else d)"

definition GetBroadcasts ::
  "('q \<Rightarrow> int \<Rightarrow> int \<Rightarrow> string list \<times> 'q) \<Rightarrow> 'q ClusterDelegate \<Rightarrow> int \<Rightarrow> int \<Rightarrow> string list \<times> 'q ClusterDelegate" where
  "GetBroadcasts getb d overhead limit =
     (let (msgs, q) = getb (d_broadcasts d) overhead limit in (msgs, d\<lparr>d_broadcasts := q\<rparr>))"

definition LocalState :: "'q ClusterDelegate \<Rightarrow> Records \<Rightarrow> bool \<Rightarrow> string option" where
  "LocalState d r join =
     EncodeState \<lparr>state_NodeID = d_nodeID d, state_Records = GetAllWithMeta r\<rparr>"

definition merge_msg :: "string \<Rightarrow> RecordEntry \<Rightarrow> RecordMessage" where
  "merge_msg hostname entry = \<lparr>msg_Hostname = hostname, msg_IP = entry_IP entry,
     msg_Action = RecordActionAdd, msg_Timestamp = entry_Timestamp entry, msg_NodeID = entry_NodeID entry\<rparr>"

definition MergeRemoteState ::
  "(string \<Rightarrow> string) \<Rightarrow> (RecordEntry go_map \<Rightarrow> string list) \<Rightarrow> Records \<Rightarrow> string \<Rightarrow> bool \<Rightarrow> Records" where
  "MergeRemoteState ul ord r buf join =
     (if length buf = 0 then r
      else case DecodeFullState buf of
             None \<Rightarrow> r
           | Some state \<Rightarrow>
               foldl (\<lambda>r hostname. snd (ApplyMessage ul r
                        (merge_msg hostname (the (state_Records state hostname)))))
                 r (ord (state_Records state)))"

text \<open>What is queued, and its method \<^verbatim>\<open>Invalidates\<close>: no packet replaces another.\<close>

record broadcast =
  b_data :: string

definition Invalidates :: "broadcast \<Rightarrow> broadcast \<Rightarrow> bool" where
  "Invalidates b other = False"

definition Message :: "broadcast \<Rightarrow> string" where
  "Message b = b_data b"

definition BroadcastRecord ::
  "('q \<Rightarrow> broadcast \<Rightarrow> 'q) \<Rightarrow> 'q ClusterDelegate \<Rightarrow> RecordMessage \<Rightarrow> 'q ClusterDelegate" where
  "BroadcastRecord queueb d msg =
     (case Encode msg of
        None \<Rightarrow> d
      | Some data \<Rightarrow> d\<lparr>d_broadcasts := queueb (d_broadcasts d) \<lparr>b_data = data\<rparr>\<rparr>)"

text \<open>
  \<^verbatim>\<open>Start\<close> replaces the context and the function that cancels it: the context of an earlier
  call, if there was one, can then only be cancelled by the caller who passed its parent.
\<close>

definition delegate_Start :: "'q ClusterDelegate \<Rightarrow> 'q ClusterDelegate" where
  "delegate_Start d = d\<lparr>d_ctx := Some (d_ctxs d), d_ctxs := Suc (d_ctxs d), d_workers := d_workers d @ [Looping]\<rparr>"

definition cancel_ctx :: "nat \<Rightarrow> 'q ClusterDelegate \<Rightarrow> 'q ClusterDelegate" where
  "cancel_ctx c d = d\<lparr>d_done := c # d_done d\<rparr>"

text \<open>
  \<^verbatim>\<open>Stop\<close> cancels and then waits for the goroutines. The wait is over when no worker
  is left, so its two halves are a cancellation and the condition \<open>stop_returns\<close>.
\<close>

definition delegate_Stop :: "'q ClusterDelegate \<Rightarrow> 'q ClusterDelegate" where
  "delegate_Stop d = (case d_ctx d of None \<Rightarrow> d | Some c \<Rightarrow> cancel_ctx c d)"

definition stop_returns :: "'q ClusterDelegate \<Rightarrow> bool" where
  "stop_returns d \<longleftrightarrow> d_workers d = []"

text \<open>
  The turns of \<^verbatim>\<open>processMessages\<close>. The \<^verbatim>\<open>select\<close> may take either branch that is
  ready, so a cancelled worker may still receive a message; receiving and applying are two turns.
\<close>

inductive process_turn ::
  "(string \<Rightarrow> string) \<Rightarrow> 'q ClusterDelegate \<times> Records \<Rightarrow> 'q ClusterDelegate \<times> Records \<Rightarrow> bool"
  for ul :: "string \<Rightarrow> string" where
  worker_select: "d_workers d = us @ Looping # vs \<Longrightarrow> d_ctx d = Some c \<Longrightarrow>
     process_turn ul (d, r) (d\<lparr>d_workers := us @ Selecting c # vs\<rparr>, r)"
| worker_done: "d_workers d = us @ Selecting c # vs \<Longrightarrow> c \<in> set (d_done d) \<Longrightarrow>
     process_turn ul (d, r) (d\<lparr>d_workers := us @ vs\<rparr>, r)"
| worker_receive: "d_workers d = us @ Selecting c # vs \<Longrightarrow> d_msgChan d = msg # rest \<Longrightarrow>
     process_turn ul (d, r) (d\<lparr>d_msgChan := rest, d_workers := us @ Applying msg # vs\<rparr>, r)"
| worker_apply: "d_workers d = us @ Applying msg # vs \<Longrightarrow>
     process_turn ul (d, r) (d\<lparr>d_workers := us @ Looping # vs\<rparr>, snd (ApplyMessage ul r msg))"

inductive_cases process_turnE: "process_turn ul (d, r) u"

text \<open>
  Everything that happens to a delegate that its manager has created and started: the calls
  memberlist makes, the calls of the cluster manager, the cancellation of a parent context, and
  the turns of the worker.
\<close>

definition delegate_init :: "'q ClusterDelegate \<times> Records \<Rightarrow> bool" where
  "delegate_init s \<longleftrightarrow> (\<exists>n q. s = (delegate_Start (NewClusterDelegate n q), NewRecords))"

inductive delegate_step ::
  "(string \<Rightarrow> string) \<Rightarrow> ('q \<Rightarrow> broadcast \<Rightarrow> 'q) \<Rightarrow> ('q \<Rightarrow> int \<Rightarrow> int \<Rightarrow> string list \<times> 'q) \<Rightarrow>
   (RecordEntry go_map \<Rightarrow> string list) \<Rightarrow>
   'q ClusterDelegate \<times> Records \<Rightarrow> 'q ClusterDelegate \<times> Records \<Rightarrow> bool"
  for ul queueb getb ord where
  call_notify: "delegate_step ul queueb getb ord (d, r) (NotifyMsg d data, r)"
| call_get: "delegate_step ul queueb getb ord (d, r) (snd (GetBroadcasts getb d overhead limit), r)"
| call_merge: "delegate_step ul queueb getb ord (d, r) (d, MergeRemoteState ul ord r buf join)"
| call_broadcast: "delegate_step ul queueb getb ord (d, r) (BroadcastRecord queueb d msg, r)"
| call_stop: "delegate_step ul queueb getb ord (d, r) (delegate_Stop d, r)"
| parent_done: "c < d_ctxs d \<Longrightarrow> delegate_step ul queueb getb ord (d, r) (cancel_ctx c d, r)"
| turn: "process_turn ul s t \<Longrightarrow> delegate_step ul queueb getb ord s t"

section \<open>The worker\<close>

text \<open>
  What holds of a delegate that is started once: the channel is within its capacity, there is at
  most one worker, and it waits on the context that \<^verbatim>\<open>Stop\<close> cancels.
\<close>

definition one_worker :: "'q ClusterDelegate \<Rightarrow> bool" where
  "one_worker d \<longleftrightarrow> length (d_workers d) \<le> 1 \<and> d_ctx d \<noteq> None \<and> (\<forall>c. Selecting c \<in> set (d_workers d) \<longrightarrow> d_ctx d = Some c)"

definition delegate_inv :: "'q ClusterDelegate \<times> Records \<Rightarrow> bool" where
  "delegate_inv s \<longleftrightarrow> length (d_msgChan (fst s)) \<le> msgChanBufferSize \<and> one_worker (fst s)"

lemma NotifyMsg_frame: "\<exists>ms. NotifyMsg d data = d\<lparr>d_msgChan := ms\<rparr> \<and> (length (d_msgChan d) \<le> msgChanBufferSize \<longrightarrow> length ms \<le> msgChanBufferSize)"
  by (cases d) (auto simp: NotifyMsg_def split: option.splits)

lemma process_turn_inv: "process_turn ul s t \<Longrightarrow> delegate_inv s \<Longrightarrow> delegate_inv t"
  by (induction rule: process_turn.induct) (auto simp: delegate_inv_def one_worker_def)

lemma delegate_step_inv: "delegate_step ul queueb getb ord s t \<Longrightarrow> delegate_inv s \<Longrightarrow> delegate_inv t"
proof (induction rule: delegate_step.induct)
  case (call_notify d r data)
  with NotifyMsg_frame [of d data] show ?case by (auto simp: delegate_inv_def one_worker_def)
next
  case (turn s t)
  then show ?case by (rule process_turn_inv)
qed (auto simp: delegate_inv_def one_worker_def GetBroadcasts_def BroadcastRecord_def delegate_Stop_def cancel_ctx_def
    split: prod.splits option.splits)

interpretation dlg: step_invariant delegate_init "delegate_step ul queueb getb ord" delegate_inv for ul queueb getb ord
proof
  show "delegate_inv s" if "delegate_init s" for s
    using that by (auto simp: delegate_init_def delegate_inv_def one_worker_def NewClusterDelegate_def delegate_Start_def)
qed (rule delegate_step_inv)

text \<open>Every turn takes work away: three turns at most for a queued message, two to wait again.\<close>

fun worker_work :: "worker \<Rightarrow> nat" where
  "worker_work Looping = 2"
| "worker_work (Selecting c) = 1"
| "worker_work (Applying msg) = 3"

definition delegate_work :: "'q ClusterDelegate \<times> Records \<Rightarrow> nat" where
  "delegate_work s = 3 * length (d_msgChan (fst s)) + sum_list (map worker_work (d_workers (fst s)))"

lemma turn_works: "process_turn ul s t \<Longrightarrow> delegate_work t < delegate_work s"
  by (induction rule: process_turn.induct) (simp_all add: delegate_work_def)

interpretation tur: bounded_progress "process_turn ul" delegate_inv delegate_work for ul
  by unfold_locales (use process_turn_inv turn_works in blast)+

lemma turn_keeps: "process_turn ul s t \<Longrightarrow> d_ctx (fst t) = d_ctx (fst s) \<and> d_done (fst t) = d_done (fst s) \<and> d_nodeID (fst t) = d_nodeID (fst s)"
  by (induction rule: process_turn.induct) simp_all

lemma turns_keep: "(process_turn ul)\<^sup>*\<^sup>* s t \<Longrightarrow> d_ctx (fst t) = d_ctx (fst s) \<and> d_done (fst t) = d_done (fst s) \<and> d_nodeID (fst t) = d_nodeID (fst s)"
  by (induction rule: rtranclp_induct) (use turn_keeps in fastforce)+

lemma delegate_work_bound:
  assumes "delegate_inv s"
  shows "delegate_work s \<le> 3 * 256 + 3"
proof -
  have each: "worker_work w \<le> 3" for w by (cases w) simp_all
  have "sum_list (map worker_work (d_workers (fst s))) \<le> 3"
    using assms each by (cases "d_workers (fst s)") (auto simp: delegate_inv_def one_worker_def)
  moreover have "length (d_msgChan (fst s)) \<le> 256" using assms by (simp add: delegate_inv_def msgChanBufferSize_def)
  ultimately show ?thesis by (simp add: delegate_work_def)
qed

lemma stuck_worker:
  assumes "d_workers d = [w]" "d_ctx d \<noteq> None" "\<forall>u. \<not> process_turn ul (d, r) u"
  shows "\<exists>c. w = Selecting c \<and> c \<notin> set (d_done d) \<and> d_msgChan d = []"
proof (cases w)
  case Looping
  with assms worker_select [of d "[]" "[]" "the (d_ctx d)" ul r] show ?thesis by simp
next
  case (Applying msg)
  with assms worker_apply [of d "[]" msg "[]" ul r] show ?thesis by simp
next
  case (Selecting c)
  with assms worker_done [of d "[]" c "[]" ul r] worker_receive [of d "[]" c "[]" _ _ ul r] show ?thesis
    by (cases "d_msgChan d") auto
qed

lemma one_worker_cases:
  assumes "one_worker d"
  obtains "d_workers d = []" | w where "d_workers d = [w]"
  using assms by (cases "d_workers d") (auto simp: one_worker_def)

lemma stopped_stuck:
  assumes "delegate_inv (d, r)" "d_ctx d = Some c" "c \<in> set (d_done d)" "\<forall>u. \<not> process_turn ul (d, r) u"
  shows "stop_returns d"
proof -
  have one: "one_worker d" using assms(1) by (simp add: delegate_inv_def)
  then show ?thesis
  proof (cases rule: one_worker_cases)
    case (2 w)
    with stuck_worker [OF 2 _ assms(4)] assms(2,3) one show ?thesis by (auto simp: one_worker_def)
  qed (simp add: stop_returns_def)
qed

section \<open>The channel is a queue\<close>

text \<open>
  The table a single worker ends with if nothing else arrives: the message in hand and the
  queued ones applied in the order they came. A turn of the worker does not change it; an
  accepted message is applied last.
\<close>

fun in_hand :: "worker list \<Rightarrow> RecordMessage list" where
  "in_hand [] = []"
| "in_hand (Applying msg # ws) = msg # in_hand ws"
| "in_hand (Looping # ws) = in_hand ws"
| "in_hand (Selecting c # ws) = in_hand ws"

definition settled :: "(string \<Rightarrow> string) \<Rightarrow> 'q ClusterDelegate \<times> Records \<Rightarrow> Records" where
  "settled ul s = fold (apply_msg ul) (in_hand (d_workers (fst s)) @ d_msgChan (fst s)) (snd s)"

lemma settled_turn:
  "process_turn ul s t \<Longrightarrow> length (d_workers (fst s)) \<le> 1 \<Longrightarrow> settled ul t = settled ul s \<and> length (d_workers (fst t)) \<le> 1"
  by (induction rule: process_turn.induct) (auto simp: settled_def)

lemma settled_turns:
  "(process_turn ul)\<^sup>*\<^sup>* s t \<Longrightarrow> length (d_workers (fst s)) \<le> 1 \<Longrightarrow> settled ul t = settled ul s \<and> length (d_workers (fst t)) \<le> 1"
  by (induction rule: rtranclp_induct) (auto dest: settled_turn)

lemma drain:
  assumes "d_workers d = [w]" "d_ctx d = Some c"
  shows "\<exists>c'. (process_turn ul)\<^sup>*\<^sup>* (d, r) (d\<lparr>d_msgChan := [], d_workers := [Selecting c']\<rparr>, settled ul (d, r))"
  using assms
proof (induction "delegate_work (d, r)" arbitrary: d w r rule: less_induct)
  case less
  note IH = less.hyps [OF turn_works, of ul]
  show ?case
  proof (cases w)
    case Looping
    with less.prems have "process_turn ul (d, r) (d\<lparr>d_workers := [Selecting c]\<rparr>, r)" (is "process_turn ul _ (?d, r)")
      using worker_select [of d "[]" "[]"] by simp
    with IH [OF this, of "Selecting c"] less.prems Looping show ?thesis
      by (auto simp: settled_def intro: converse_rtranclp_into_rtranclp)
  next
    case (Applying m)
    with less.prems have "process_turn ul (d, r) (d\<lparr>d_workers := [Looping]\<rparr>, apply_msg ul m r)"
      using worker_apply [of d "[]" m "[]"] by simp
    with IH [OF this, of Looping] less.prems Applying show ?thesis
      by (auto simp: settled_def intro: converse_rtranclp_into_rtranclp)
  next
    case (Selecting c')
    show ?thesis
    proof (cases "d_msgChan d")
      case Nil
      then have "d = d\<lparr>d_msgChan := [], d_workers := [Selecting c']\<rparr>" using less.prems Selecting by (cases d) simp
      moreover have "settled ul (d, r) = r" using Nil less.prems Selecting by (simp add: settled_def)
      ultimately show ?thesis by (metis rtranclp.rtrancl_refl)
    next
      case (Cons m ms)
      with less.prems Selecting have "process_turn ul (d, r) (d\<lparr>d_msgChan := ms, d_workers := [Applying m]\<rparr>, r)"
        using worker_receive [of d "[]" c' "[]"] by simp
      with IH [OF this, of "Applying m"] less.prems Selecting Cons show ?thesis
        by (auto simp: settled_def intro: converse_rtranclp_into_rtranclp)
    qed
  qed
qed

text \<open>The messages a run of packets brings.\<close>

fun decoded :: "string list \<Rightarrow> RecordMessage list" where
  "decoded [] = []"
| "decoded (data # packets) =
     (case DecodeRecordMessage data of
        Some msg \<Rightarrow> if data = [] then decoded packets else msg # decoded packets
      | None \<Rightarrow> decoded packets)"

lemma burst:
  assumes "length (d_msgChan d) \<le> msgChanBufferSize"
  shows "foldl NotifyMsg d packets = d\<lparr>d_msgChan := take msgChanBufferSize (d_msgChan d @ decoded packets)\<rparr>"
  using assms
proof (induction packets arbitrary: d)
  case Nil
  then show ?case by (cases d) simp
next
  case (Cons data packets)
  let ?skip = "data = [] \<or> DecodeRecordMessage data = None"
  show ?case
  proof (cases "?skip \<or> length (d_msgChan d) = msgChanBufferSize")
    case True
    then have "NotifyMsg d data = d" by (auto simp: NotifyMsg_def split: option.splits)
    moreover from True Cons.prems have "take msgChanBufferSize (d_msgChan d @ decoded (data # packets)) =
        take msgChanBufferSize (d_msgChan d @ decoded packets)" by (auto split: option.splits)
    ultimately show ?thesis using Cons.IH [of d] Cons.prems by simp
  next
    case False
    then obtain msg where "DecodeRecordMessage data = Some msg" "data \<noteq> []" by auto
    with False Cons.prems Cons.IH [of "NotifyMsg d data"] show ?thesis by (simp add: NotifyMsg_def)
  qed
qed

lemma wf_foldl_apply:
  "lower_ok ul \<Longrightarrow> wf_records ul r \<Longrightarrow> wf_records ul (foldl (\<lambda>r h. snd (ApplyMessage ul r (f h))) r hs)"
  by (induction hs arbitrary: r) (simp_all add: wf_ApplyMessage)

lemma wf_MergeRemoteState:
  "lower_ok ul \<Longrightarrow> wf_records ul r \<Longrightarrow> wf_records ul (MergeRemoteState ul ord r buf join)"
  by (simp add: MergeRemoteState_def wf_foldl_apply split: option.splits)

section \<open>Merging a peer's state\<close>

definition utf8_records :: "Records \<Rightarrow> bool" where
  "utf8_records r \<longleftrightarrow>
     (\<forall>k ip. r_data r k = Some ip \<longrightarrow> valid_utf8 k \<and> valid_utf8 ip) \<and>
     (\<forall>k m. r_meta r k = Some m \<longrightarrow> valid_utf8 (meta_NodeID m))"

lemma reg_merge_fold:
  assumes "distinct hs" "\<forall>h \<in> set hs. ToLower ul h = h"
  shows "reg (foldl (\<lambda>r h. snd (ApplyMessage ul r (merge_msg h (f h)))) r hs) k =
    (if k \<in> set hs then reg_apply (merge_msg k (f k)) (reg r k) else reg r k)"
  using assms
  by (induction hs arbitrary: r) (auto simp: reg_apply_msg merge_msg_def)

lemma GetAllWithMeta_at: "GetAllWithMeta r k = map_option (\<lambda>ip. entry_of ip (r_meta r k)) (r_data r k)"
  by (simp add: GetAllWithMeta_def)

lemma dom_GetAllWithMeta [simp]: "dom (GetAllWithMeta r) = dom (r_data r)"
  by (auto simp: GetAllWithMeta_def)

lemma sendable_local:
  assumes "wf_records ul r" "utf8_records r" "valid_utf8 n"
  shows "sendable_state \<lparr>state_NodeID = n, state_Records = GetAllWithMeta r\<rparr>"
  using assms
  by (auto simp: sendable_state_def wf_records_def sendable_entry_def GetAllWithMeta_at entry_of_def
      zero_meta_def utf8_records_def Let_def split: option.splits)

lemma reg_merge_local:
  assumes "wf_records ul ra" "utf8_records ra" "valid_utf8 (d_nodeID d)"
    and ord: "range_order ord" and buf: "LocalState d ra join = Some buf"
  shows "reg (MergeRemoteState ul ord rb buf join') k =
    (case r_data ra k of
       None \<Rightarrow> reg rb k
     | Some ip \<Rightarrow> reg_apply (merge_msg k (entry_of ip (r_meta ra k))) (reg rb k))"
proof -
  let ?st = "\<lparr>state_NodeID = d_nodeID d, state_Records = GetAllWithMeta ra\<rparr>"
  have ok: "sendable_state ?st" by (rule sendable_local [OF assms(1-3)])
  have dec: "DecodeFullState buf = Some ?st" and ne: "buf \<noteq> []"
    using buf state_codec.decodes [OF ok] state_codec.encodes [OF ok] by (auto simp: LocalState_def)
  have o: "distinct (ord (GetAllWithMeta ra))" "set (ord (GetAllWithMeta ra)) = dom (r_data ra)"
    using ord assms(1) by (auto simp: range_order_def wf_records_def)
  have low: "\<forall>h \<in> set (ord (GetAllWithMeta ra)). ToLower ul h = h"
    using assms(1) o by (auto simp: wf_records_def)
  show ?thesis
    using ne o(2) by (auto simp: MergeRemoteState_def dec reg_merge_fold [OF o(1) low] GetAllWithMeta_at
        split: option.splits)
qed


text \<open>
  A push-pull exchange of two nodes, as memberlist performs it: each sends its state and merges
  the state the other sent, in whatever order the runtime iterates the maps in.
\<close>

inductive exchange ::
  "(string \<Rightarrow> string) \<Rightarrow> 'p ClusterDelegate \<Rightarrow> 'q ClusterDelegate \<Rightarrow> Records \<times> Records \<Rightarrow> Records \<times> Records \<Rightarrow> bool"
  for ul da db where
  push_pull: "LocalState da ra ja = Some bufa \<Longrightarrow> LocalState db rb jb = Some bufb \<Longrightarrow> range_order orda \<Longrightarrow> range_order ordb \<Longrightarrow>
     exchange ul da db (ra, rb) (MergeRemoteState ul orda ra bufb ja, MergeRemoteState ul ordb rb bufa jb)"

text \<open>What a merge takes from the other node is as clean as what the other node held.\<close>

lemma utf8_reg:
  "utf8_records r \<longleftrightarrow> (\<forall>k. (\<forall>ip. fst (reg r k) = Some ip \<longrightarrow> valid_utf8 k \<and> valid_utf8 ip) \<and>
     (\<forall>m. snd (reg r k) = Some m \<longrightarrow> valid_utf8 (meta_NodeID m)))"
  by (auto simp: utf8_records_def reg_def)

lemma utf8_merge_local:
  assumes "wf_records ul ra" "utf8_records ra" "valid_utf8 (d_nodeID d)" "range_order ord" "LocalState d ra join = Some buf"
    and "utf8_records rb"
  shows "utf8_records (MergeRemoteState ul ord rb buf join')"
  unfolding utf8_reg
proof (intro allI)
  fix k
  let ?new = "reg (MergeRemoteState ul ord rb buf join') k"
  have old: "\<forall>ip. fst (reg rb k) = Some ip \<longrightarrow> valid_utf8 k \<and> valid_utf8 ip" "\<forall>m. snd (reg rb k) = Some m \<longrightarrow> valid_utf8 (meta_NodeID m)"
    using assms(6) by (auto simp: utf8_reg)
  show "(\<forall>ip. fst ?new = Some ip \<longrightarrow> valid_utf8 k \<and> valid_utf8 ip) \<and> (\<forall>m. snd ?new = Some m \<longrightarrow> valid_utf8 (meta_NodeID m))"
  proof (cases "r_data ra k")
    case None
    then show ?thesis using old by (simp add: reg_merge_local [OF assms(1-5)])
  next
    case (Some ip)
    have ok: "valid_utf8 k" "valid_utf8 ip" "valid_utf8 (entry_NodeID (entry_of ip (r_meta ra k)))"
      using assms(2) Some by (auto simp: utf8_records_def entry_of_def zero_meta_def Let_def split: option.splits)
    have "?new = reg rb k \<or> fst ?new = Some ip \<and> (\<exists>ts. snd ?new = Some \<lparr>meta_Timestamp = ts, meta_NodeID = entry_NodeID (entry_of ip (r_meta ra k))\<rparr>)"
      unfolding reg_merge_local [OF assms(1-5)] Some option.case by (simp add: reg_apply_def merge_msg_def entry_of_def Let_def)
    then show ?thesis using old ok by auto
  qed
qed

text \<open>
  A tie: both nodes hold one stamp for a name. No exchange touches the name then, whatever the
  addresses are.
\<close>

definition tied :: "(string \<Rightarrow> string) \<Rightarrow> hostname \<Rightarrow> RecordMeta \<Rightarrow> string option \<Rightarrow> string option \<Rightarrow> Records \<times> Records \<Rightarrow> bool" where
  "tied ul k m ipa ipb s \<longleftrightarrow> wf_records ul (fst s) \<and> wf_records ul (snd s) \<and> utf8_records (fst s) \<and> utf8_records (snd s) \<and>
     reg (fst s) k = (ipa, Some m) \<and> reg (snd s) k = (ipb, Some m)"

text \<open>
  A table holds a name as a replicated one when the address has its metadata, and nothing is
  left when there is no address.
\<close>

definition replicated_at :: "Records \<Rightarrow> hostname \<Rightarrow> bool" where
  "replicated_at r k \<longleftrightarrow> (r_data r k = None \<longleftrightarrow> r_meta r k = None)"

lemma meta_eq_iff: "meta_stamp a = meta_stamp b \<longleftrightarrow> a = b"
  for a b :: RecordMeta
  by (cases a, cases b) (auto simp: meta_stamp_def)

text \<open>The joint register of two replicated registers: the one with the higher stamp.\<close>

definition reg_join ::
  "string option \<times> RecordMeta option \<Rightarrow> string option \<times> RecordMeta option \<Rightarrow> string option \<times> RecordMeta option" where
  "reg_join v w =
     (case (snd v, snd w) of
        (None, _) \<Rightarrow> w
      | (_, None) \<Rightarrow> v
      | (Some a, Some b) \<Rightarrow> if meta_stamp a \<le> meta_stamp b then w else v)"

lemma reg_apply_join:
  "reg_apply (merge_msg k (entry_of ip (Some m))) w = reg_join (Some ip, Some m) w"
  by (auto simp: reg_apply_def merge_msg_def entry_of_def reg_join_def meta_stamp_def split: option.splits)

lemma reg_join_comm:
  assumes "\<And>a. snd v = Some a \<Longrightarrow> snd w = Some a \<Longrightarrow> v = w"
    and "snd v = None \<Longrightarrow> fst v = None" "snd w = None \<Longrightarrow> fst w = None"
  shows "reg_join v w = reg_join w v"
proof (cases "snd v")
  case None
  with assms show ?thesis by (cases v; cases w) (auto simp: reg_join_def split: option.splits)
next
  case (Some a)
  show ?thesis
  proof (cases "snd w")
    case None
    with Some show ?thesis by (simp add: reg_join_def)
  next
    case sw: (Some b)
    with Some assms(1) [of a] show ?thesis by (auto simp: reg_join_def meta_eq_iff)
  qed
qed

lemma reg_merge_join:
  assumes "wf_records ul ra" "utf8_records ra" "valid_utf8 (d_nodeID d)" "range_order ord"
    "LocalState d ra j = Some buf" "replicated_at ra k"
  shows "reg (MergeRemoteState ul ord rb buf j') k = reg_join (reg ra k) (reg rb k)"
proof (cases "r_data ra k")
  case None
  with assms(6) have "r_meta ra k = None" by (simp add: replicated_at_def)
  with None show ?thesis by (simp add: reg_merge_local [OF assms(1-5)]) (simp add: reg_def reg_join_def)
next
  case (Some ip)
  with assms(6) obtain m where "r_meta ra k = Some m" by (auto simp: replicated_at_def)
  with Some show ?thesis by (simp add: reg_merge_local [OF assms(1-5)] reg_apply_join) (simp add: reg_def)
qed

section \<open>Properties\<close>

text \<open>
  C9. A burst of packets that arrives while the worker does not run: the channel keeps what it
  had and takes the messages of the packets in their order until it holds 256, and the rest is
  dropped. Empty and undecodable packets take no room. The packets change nothing else, so the
  caller is never made to wait.
\<close>

theorem burst_keeps_first:
  assumes "length (d_msgChan d) \<le> msgChanBufferSize"
  shows "foldl NotifyMsg d packets = d\<lparr>d_msgChan := take 256 (d_msgChan d @ decoded packets)\<rparr>"
  using burst [OF assms] by (simp add: msgChanBufferSize_def)

theorem burst_keeps_first_witness:
  "\<exists>packet. d_msgChan (foldl NotifyMsg (NewClusterDelegate ''n1'' ()) ([[], ''{''] @ replicate 300 packet)) =
     replicate 256 (sample_add ''a.com'' ''1.1.1.1'' 5 ''n2'')"
proof -
  let ?m = "sample_add ''a.com'' ''1.1.1.1'' 5 ''n2''"
  have "sendable_msg ?m" by (simp add: sendable_msg_def sample_add_def ascii_valid_utf8 RecordActionAdd_def)
  then obtain packet where p: "packet \<noteq> []" "DecodeRecordMessage packet = Some ?m" by (rule msg_codec.received)
  have "DecodeRecordMessage ''{'' = None" by code_simp
  moreover have "decoded (replicate n packet) = replicate n ?m" for n using p by (induction n) auto
  ultimately have "decoded ([[], ''{''] @ replicate 300 packet) = replicate 300 ?m" by (simp split: option.splits)
  with burst_keeps_first [of "NewClusterDelegate ''n1'' ()" "[[], ''{''] @ replicate 300 packet"] show ?thesis
    by (intro exI [of _ packet]) (simp add: NewClusterDelegate_def msgChanBufferSize_def take_replicate)
qed

text \<open>
  C18. The worker of a delegate started once can always empty the channel, and however its
  turns are scheduled, when the channel is empty and nothing is in its hands the table is the
  one that the message it held and the queued ones give, applied in the order they arrived.
\<close>

theorem queue_drains_in_order:
  assumes "d_workers d = [w]" "d_ctx d = Some c"
  shows "(\<exists>c'. (process_turn ul)\<^sup>*\<^sup>* (d, r) (d\<lparr>d_msgChan := [], d_workers := [Selecting c']\<rparr>,
             fold (apply_msg ul) (in_hand [w] @ d_msgChan d) r)) \<and>
         (\<forall>d' r'. (process_turn ul)\<^sup>*\<^sup>* (d, r) (d', r') \<and> d_msgChan d' = [] \<and> in_hand (d_workers d') = [] \<longrightarrow>
            r' = fold (apply_msg ul) (in_hand [w] @ d_msgChan d) r)"
proof (intro conjI allI impI)
  show "\<exists>c'. (process_turn ul)\<^sup>*\<^sup>* (d, r) (d\<lparr>d_msgChan := [], d_workers := [Selecting c']\<rparr>,
      fold (apply_msg ul) (in_hand [w] @ d_msgChan d) r)"
    using drain [OF assms, of ul r] assms(1) by (simp add: settled_def)
  fix d' r' assume "(process_turn ul)\<^sup>*\<^sup>* (d, r) (d', r') \<and> d_msgChan d' = [] \<and> in_hand (d_workers d') = []"
  then show "r' = fold (apply_msg ul) (in_hand [w] @ d_msgChan d) r"
    using settled_turns [of ul "(d, r)" "(d', r')"] assms(1) by (simp add: settled_def)
qed

theorem queue_drains_in_order_witness:
  "\<exists>c. (process_turn (\<lambda>s. s))\<^sup>*\<^sup>*
     ((delegate_Start (NewClusterDelegate ''n1'' ()))\<lparr>d_msgChan := [sample_add ''a.com'' ''1.1.1.1'' 5 ''n2'']\<rparr>, NewRecords)
     ((delegate_Start (NewClusterDelegate ''n1'' ()))\<lparr>d_msgChan := [], d_workers := [Selecting c]\<rparr>,
      apply_msg (\<lambda>s. s) (sample_add ''a.com'' ''1.1.1.1'' 5 ''n2'') NewRecords)"
  using queue_drains_in_order [of "(delegate_Start (NewClusterDelegate ''n1'' ()))
      \<lparr>d_msgChan := [sample_add ''a.com'' ''1.1.1.1'' 5 ''n2'']\<rparr>" Looping 0 "\<lambda>s. s" NewRecords]
  by (simp add: delegate_Start_def NewClusterDelegate_def)

text \<open>
  C37. \<^verbatim>\<open>Stop\<close> returns, for a delegate its manager has started once, in every state it can
  reach: when nothing more arrives, the turns of the worker after the cancellation come to an
  end, after 771 of them at the latest, and whichever they are, no worker is left then.
\<close>

theorem delegate_stop_returns:
  assumes "reachable delegate_init (delegate_step ul queueb getb ord) (d, r)"
  shows "(\<exists>t. (process_turn ul)\<^sup>*\<^sup>* (delegate_Stop d, r) t \<and> stop_returns (fst t)) \<and>
    (\<forall>n t. (process_turn ul ^^ n) (delegate_Stop d, r) t \<longrightarrow>
       n \<le> 3 * 256 + 3 \<and> ((\<forall>u. \<not> process_turn ul t u) \<longrightarrow> stop_returns (fst t)))"
proof -
  have "reachable delegate_init (delegate_step ul queueb getb ord) (delegate_Stop d, r)"
    using assms by (rule reachable_step) (rule call_stop)
  then have inv: "delegate_inv (delegate_Stop d, r)" by (rule dlg.inv_reachable)
  then obtain c where c: "d_ctx (delegate_Stop d) = Some c" "c \<in> set (d_done (delegate_Stop d))"
    by (auto simp: delegate_inv_def one_worker_def delegate_Stop_def cancel_ctx_def split: option.splits)
  have ends: "stop_returns (fst t)" if "(process_turn ul)\<^sup>*\<^sup>* (delegate_Stop d, r) t" "delegate_inv t" "\<forall>u. \<not> process_turn ul t u" for t
    using turns_keep [OF that(1)] stopped_stuck [of "fst t" "snd t" c ul] that(2,3) c by simp
  have work: "delegate_work (delegate_Stop d, r) \<le> 3 * 256 + 3"
    by (rule delegate_work_bound [OF inv])
  have "n \<le> 3 * 256 + 3 \<and> ((\<forall>u. \<not> process_turn ul t u) \<longrightarrow> stop_returns (fst t))"
    if run: "(process_turn ul ^^ n) (delegate_Stop d, r) t" for n t
    using tur.run_bounded [OF run inv] work ends [of t] relpowp_imp_rtranclp [OF run] by auto
  with tur.run_ends [OF inv, of ul] ends show ?thesis by blast
qed

theorem delegate_stop_returns_witness:
  "\<exists>t. (process_turn (\<lambda>s. s))\<^sup>*\<^sup>* (delegate_Stop (NotifyMsg (delegate_Start (NewClusterDelegate ''n1'' ())) ''{}''), NewRecords) t
      \<and> stop_returns (fst t)"
proof -
  let ?step = "delegate_step (\<lambda>s. s) (\<lambda>q b. q) (\<lambda>q ov li. ([], q)) (\<lambda>m. [])" and ?d = "delegate_Start (NewClusterDelegate ''n1'' ())"
  have "reachable delegate_init ?step (?d, NewRecords)" by (rule reachable_init) (auto simp: delegate_init_def)
  then have "reachable delegate_init ?step (NotifyMsg ?d ''{}'', NewRecords)" by (rule reachable_step) (rule call_notify)
  from delegate_stop_returns [OF this] show ?thesis by blast
qed

text \<open>
  A second \<^verbatim>\<open>Start\<close> is not covered, and for a reason: the first worker waits on a context
  that \<^verbatim>\<open>Stop\<close> no longer cancels, and \<^verbatim>\<open>Stop\<close> waits for it for ever.
\<close>

lemma second_start_hangs:
  assumes d0_def: "d0 = (delegate_Start (NewClusterDelegate n q))\<lparr>d_workers := [Selecting 0]\<rparr>"
  shows "process_turn ul (delegate_Start (NewClusterDelegate n q), r) (d0, r) \<and>
    (\<exists>d. (process_turn ul)\<^sup>*\<^sup>* (delegate_Stop (delegate_Start d0), r) (d, r) \<and> \<not> stop_returns d \<and> (\<forall>u. \<not> process_turn ul (d, r) u))"
proof
  have d0: "d0 = \<lparr>d_nodeID = n, d_broadcasts = q, d_msgChan = [], d_ctx = Some 0, d_ctxs = 1, d_done = [], d_workers = [Selecting 0]\<rparr>"
    by (simp add: d0_def delegate_Start_def NewClusterDelegate_def)
  show "process_turn ul (delegate_Start (NewClusterDelegate n q), r) (d0, r)"
    unfolding d0_def by (rule worker_select [of _ "[]" "[]", simplified]) (simp_all add: delegate_Start_def NewClusterDelegate_def)
  let ?d = "delegate_Stop (delegate_Start d0)"
  let ?d1 = "?d\<lparr>d_workers := [Selecting 0, Selecting 1]\<rparr>" and ?d2 = "?d\<lparr>d_workers := [Selecting 0]\<rparr>"
  have s: "d_workers ?d = [Selecting 0] @ Looping # []" "d_ctx ?d = Some 1"
    by (simp_all add: d0 delegate_Stop_def delegate_Start_def cancel_ctx_def)
  have "process_turn ul (?d, r) (?d1, r)" using worker_select [OF s] by simp
  moreover have "process_turn ul (?d1, r) (?d2, r)"
    using worker_done [of ?d1 "[Selecting 0]" 1 "[]" ul r] by (simp add: d0 delegate_Stop_def delegate_Start_def cancel_ctx_def)
  ultimately have "(process_turn ul)\<^sup>*\<^sup>* (?d, r) (?d2, r)" by auto
  moreover have "\<not> process_turn ul (?d2, r) u" for u
    by (auto simp: d0 delegate_Stop_def delegate_Start_def cancel_ctx_def Cons_eq_append_conv elim!: process_turnE)
  ultimately show "\<exists>d. (process_turn ul)\<^sup>*\<^sup>* (?d, r) (d, r) \<and> \<not> stop_returns d \<and> (\<forall>u. \<not> process_turn ul (d, r) u)"
    by (intro exI [of _ ?d2]) (simp add: stop_returns_def)
qed

definition sample_table :: "string \<Rightarrow> string \<Rightarrow> int64 \<Rightarrow> string \<Rightarrow> Records" where
  "sample_table h ip ts n = \<lparr>r_data = [h \<mapsto> ip], r_meta = [h \<mapsto> \<lparr>meta_Timestamp = ts, meta_NodeID = n\<rparr>]\<rparr>"

lemma sample_table_ok:
  "ToLower ul h = h \<Longrightarrow> wf_records ul (sample_table h ip ts n)"
  "is_ascii h \<Longrightarrow> is_ascii ip \<Longrightarrow> is_ascii n \<Longrightarrow> utf8_records (sample_table h ip ts n)"
  by (auto simp: wf_records_def utf8_records_def sample_table_def ascii_valid_utf8
      split: if_splits)

lemma sample_table_sel [simp]:
  "r_data (sample_table h ip ts n) = [h \<mapsto> ip]"
  "r_meta (sample_table h ip ts n) = [h \<mapsto> \<lparr>meta_Timestamp = ts, meta_NodeID = n\<rparr>]"
  by (simp_all add: sample_table_def)

lemma LocalState_Some: "\<exists>buf. LocalState d r j = Some buf"
  by (simp add: LocalState_def EncodeState_def)

lemma exchange_possible: "\<exists>ra' rb'. exchange ul da db (ra, rb) (ra', rb')"
  using LocalState_Some [of da ra False] LocalState_Some [of db rb False] range_order_sorted by (blast intro: push_pull)

text \<open>
  C7. Anti-entropy, name by name: two nodes exchange their full states, each applying what the
  other held before the exchange. A name that each of them holds together with its stamp or not
  at all, and with one address if the stamps are equal, ends with the same address and stamp on
  both, those with the higher stamp, whatever order the runtime iterates the maps in. The
  strings of the tables and the names of the nodes are UTF-8.
\<close>

theorem push_pull_agrees:
  assumes "exchange ul da db (ra, rb) (ra', rb')"
    and a: "wf_records ul ra" "utf8_records ra" "replicated_at ra k" "valid_utf8 (d_nodeID da)"
    and b: "wf_records ul rb" "utf8_records rb" "replicated_at rb k" "valid_utf8 (d_nodeID db)"
    and agree: "r_meta ra k = r_meta rb k \<Longrightarrow> r_data ra k = r_data rb k"
  shows "reg ra' k = reg_join (reg ra k) (reg rb k) \<and> reg rb' k = reg_join (reg ra k) (reg rb k)"
proof -
  have "reg_join (reg ra k) (reg rb k) = reg_join (reg rb k) (reg ra k)"
    using a(3) b(3) agree by (intro reg_join_comm) (auto simp: reg_def replicated_at_def)
  with assms(1) show ?thesis
    by (cases rule: exchange.cases) (simp add: reg_merge_join [OF a(1,2,4) _ _ a(3)] reg_merge_join [OF b(1,2,4) _ _ b(3)])
qed

theorem push_pull_agrees_witness:
  "\<exists>ra rb. exchange (\<lambda>s. s) (NewClusterDelegate ''n1'' ()) (NewClusterDelegate ''n2'' ())
       (sample_table ''a.com'' ''1.1.1.1'' 5 ''n1'', sample_table ''a.com'' ''2.2.2.2'' 7 ''n2'') (ra, rb) \<and>
     reg ra ''a.com'' = (Some ''2.2.2.2'', Some \<lparr>meta_Timestamp = 7, meta_NodeID = ''n2''\<rparr>) \<and>
     reg rb ''a.com'' = (Some ''2.2.2.2'', Some \<lparr>meta_Timestamp = 7, meta_NodeID = ''n2''\<rparr>)"
proof -
  let ?da = "NewClusterDelegate ''n1'' ()" and ?ra = "sample_table ''a.com'' ''1.1.1.1'' 5 ''n1''"
  let ?db = "NewClusterDelegate ''n2'' ()" and ?rb = "sample_table ''a.com'' ''2.2.2.2'' 7 ''n2''"
  obtain ra rb where e: "exchange (\<lambda>s. s) ?da ?db (?ra, ?rb) (ra, rb)" using exchange_possible by blast
  have "reg ra ''a.com'' = reg_join (reg ?ra ''a.com'') (reg ?rb ''a.com'') \<and> reg rb ''a.com'' = reg_join (reg ?ra ''a.com'') (reg ?rb ''a.com'')"
    by (rule push_pull_agrees [OF e])
       (auto simp: sample_table_ok lower_eval NewClusterDelegate_def ascii_valid_utf8 replicated_at_def)
  moreover have "reg_join (reg ?ra ''a.com'') (reg ?rb ''a.com'') = (Some ''2.2.2.2'', Some \<lparr>meta_Timestamp = 7, meta_NodeID = ''n2''\<rparr>)"
    by (simp add: reg_join_def reg_def meta_stamp_def stamp_def)
  ultimately show ?thesis using e by auto
qed

text \<open>
  The condition on the stamps is needed: a tie stays as it is through any number of exchanges.
  A container stop on a clustered node makes one, since \<^verbatim>\<open>Records.Remove\<close> takes the address
  away and leaves the stamp (no address here, the stopped container's at a peer that missed the
  announcement), and so does a local container that overrides a later stamp (\<open>DC_Setup\<close>).
\<close>

lemma tied_exchange:
  assumes "tied ul k m ipa ipb s" "exchange ul da db s t" "lower_ok ul" "valid_utf8 (d_nodeID da)" "valid_utf8 (d_nodeID db)"
  shows "tied ul k m ipa ipb t"
  using assms(2)
proof (cases rule: exchange.cases)
  case (push_pull ra ja bufa rb jb bufb orda ordb)
  have t: "wf_records ul ra" "wf_records ul rb" "utf8_records ra" "utf8_records rb" "reg ra k = (ipa, Some m)" "reg rb k = (ipb, Some m)"
    using assms(1) push_pull(1) by (simp_all add: tied_def)
  note A = reg_merge_local [OF t(1,3) assms(4) push_pull(6,3)] and B = reg_merge_local [OF t(2,4) assms(5) push_pull(5,4)]
  have same: "reg_apply (merge_msg k (entry_of ip (Some m))) (ip', Some m) = (ip', Some m)" for ip ip'
    by (simp add: reg_apply_join reg_join_def)
  have "reg (MergeRemoteState ul orda ra bufb ja) k = (ipa, Some m)" "reg (MergeRemoteState ul ordb rb bufa jb) k = (ipb, Some m)"
    unfolding A B t(5,6) using t(5,6) by (simp_all add: reg_def same split: option.splits)
  with push_pull(2) t assms(3) show ?thesis
    using utf8_merge_local [OF t(1,3) assms(4) push_pull(6,3) t(4)] utf8_merge_local [OF t(2,4) assms(5) push_pull(5,4) t(3)]
    by (simp add: tied_def wf_MergeRemoteState)
qed

interpretation tie: step_invariant "tied ul k m ipa ipb" "exchange ul da db"
    "\<lambda>s. lower_ok ul \<and> valid_utf8 (d_nodeID da) \<and> valid_utf8 (d_nodeID db) \<longrightarrow> tied ul k m ipa ipb s"
  for ul k m ipa ipb da db
  by unfold_locales (use tied_exchange in blast)+

text \<open>
  C31. Nothing remembers a removal: a node that applied a removal and then merges the state
  of a peer that has not heard of it serves the removed record again.
\<close>

theorem removal_undone_by_merge:
  assumes peer: "wf_records ul rp" "utf8_records rp" "valid_utf8 (d_nodeID d)" "range_order ord"
    "LocalState d rp j = Some buf" "r_data rp k = Some ip" "ToLower ul k = k"
    and here: "fst (RemoveWithMeta ul r k ts n)"
  shows "Lookup ul (snd (RemoveWithMeta ul r k ts n)) k = None \<and>
         Lookup ul (MergeRemoteState ul ord (snd (RemoveWithMeta ul r k ts n)) buf j') k = Some ip"
proof -
  have "reg (snd (RemoveWithMeta ul r k ts n)) k = (None, None)"
    using here peer(7) by (auto simp: RemoveWithMeta_def reg_def Let_def split: option.splits if_splits)
  with peer(6,7) show ?thesis
    by (simp add: reg_Lookup reg_merge_local [OF peer(1-5)] reg_apply_def merge_msg_def entry_of_def Let_def)
qed


theorem removal_undone_by_merge_witness:
  "\<exists>buf. LocalState (NewClusterDelegate ''n2'' ()) (sample_table ''a.com'' ''1.1.1.1'' 5 ''n1'') True = Some buf \<and>
     fst (RemoveWithMeta (\<lambda>s. s) (sample_table ''a.com'' ''1.1.1.1'' 5 ''n1'') ''a.com'' 9 ''n1'') \<and>
     Lookup (\<lambda>s. s) (MergeRemoteState (\<lambda>s. s) sorted_order
       (snd (RemoveWithMeta (\<lambda>s. s) (sample_table ''a.com'' ''1.1.1.1'' 5 ''n1'') ''a.com'' 9 ''n1'')) buf True) ''a.com''
       = Some ''1.1.1.1''"
proof -
  let ?r = "sample_table ''a.com'' ''1.1.1.1'' 5 ''n1''" and ?d = "NewClusterDelegate ''n2'' ()"
  obtain buf where b: "LocalState ?d ?r True = Some buf" using LocalState_Some by meson
  have rem: "fst (RemoveWithMeta (\<lambda>s. s) ?r ''a.com'' 9 ''n1'')"
    by (simp add: RemoveWithMeta_def lower_eval meta_stamp_def stamp_def)
  have "Lookup (\<lambda>s. s) (snd (RemoveWithMeta (\<lambda>s. s) ?r ''a.com'' 9 ''n1'')) ''a.com'' = None \<and>
    Lookup (\<lambda>s. s) (MergeRemoteState (\<lambda>s. s) sorted_order (snd (RemoveWithMeta (\<lambda>s. s) ?r ''a.com'' 9 ''n1'')) buf True) ''a.com''
      = Some ''1.1.1.1''"
    by (rule removal_undone_by_merge [OF _ _ _ range_order_sorted b _ _ rem])
       (auto simp: sample_table_ok lower_eval NewClusterDelegate_def ascii_valid_utf8)
  with b rem show ?thesis by blast
qed

end
