(* ===== verification/DC_Cluster_Config.thy ===== *)
theory DC_Cluster_Config
  imports Go_Strconv
begin

text \<open>
  The cluster settings of \<^verbatim>\<open>cluster_config.go\<close> and their validation.
  \<^verbatim>\<open>os.Hostname\<close> is the argument \<open>os_hostname\<close>, \<open>None\<close> when
  the call fails. \<^verbatim>\<open>Validate\<close> changes its receiver, so it returns the
  configuration after the call, or the error.
\<close>

record ClusterConfig =
  cfg_Enabled :: bool
  cfg_Port :: int
  cfg_Seeds :: "string list"
  cfg_NodeName :: string
  cfg_BindAddr :: string
  cfg_SecretKey :: string
  cfg_DiscoveryPort :: int

datatype config_error = BadClusterPort int | BadSecretLength nat | NodeNameRequired

definition NewClusterConfig :: ClusterConfig where
  "NewClusterConfig = \<lparr>cfg_Enabled = False, cfg_Port = 7946, cfg_Seeds = [], cfg_NodeName = [],
     cfg_BindAddr = ''0.0.0.0'', cfg_SecretKey = [], cfg_DiscoveryPort = 8889\<rparr>"

definition Validate :: "string option \<Rightarrow> ClusterConfig \<Rightarrow> config_error + ClusterConfig" where
  "Validate os_hostname c =
     (if cfg_Port c \<le> 0 \<or> cfg_Port c \<ge> 65536 then Inl (BadClusterPort (cfg_Port c))
      else
        let keyLen = length (cfg_SecretKey c)
        in if keyLen > 0 \<and> keyLen \<noteq> 16 \<and> keyLen \<noteq> 24 \<and> keyLen \<noteq> 32 then Inl (BadSecretLength keyLen)
           else if cfg_Enabled c \<and> cfg_NodeName c = [] then
             (case os_hostname of
                None \<Rightarrow> Inl NodeNameRequired
              | Some hostname \<Rightarrow> Inr (c\<lparr>cfg_NodeName := hostname\<rparr>))
           else Inr c)"

definition valid_config :: "ClusterConfig \<Rightarrow> bool" where
  "valid_config c \<longleftrightarrow> 1 \<le> cfg_Port c \<and> cfg_Port c \<le> 65535 \<and> length (cfg_SecretKey c) \<in> {0, 16, 24, 32}"

lemma Validate_Inr_iff:
  "Validate h c = Inr c' \<longleftrightarrow>
     valid_config c \<and>
     (if cfg_Enabled c \<and> cfg_NodeName c = [] then \<exists>n. h = Some n \<and> c' = c\<lparr>cfg_NodeName := n\<rparr> else c' = c)"
  by (auto simp: Validate_def valid_config_def Let_def split: option.splits if_splits)

lemma Validate_Inl_iff:
  "Validate h c = Inl err \<longleftrightarrow>
     err = (if cfg_Port c \<notin> {1..65535} then BadClusterPort (cfg_Port c)
            else if length (cfg_SecretKey c) \<notin> {0, 16, 24, 32} then BadSecretLength (length (cfg_SecretKey c))
            else NodeNameRequired) \<and>
     (valid_config c = (err = NodeNameRequired \<and> cfg_Enabled c \<and> cfg_NodeName c = [] \<and> h = None))"
  by (cases h) (auto simp: Validate_def valid_config_def Let_def)

lemma Validate_valid: "Validate h c = Inr c' \<Longrightarrow> valid_config c'"
  by (auto simp: Validate_Inr_iff valid_config_def split: if_splits)

section \<open>Properties\<close>

text \<open>
  C35. The outcome of validating any configuration, whatever the host calls itself. It fails for
  a port outside 1 to 65535, then for a secret that is not of 0, 16, 24 or 32 bytes, then for a
  missing node name when clustering is enabled and the host has no name to offer, and reports
  the first of these that applies. Otherwise it succeeds and fills in the host's name for a
  missing node name, and nothing else. Validating the result again gives the same result; on
  another host too, unless the name filled in was empty.
\<close>

theorem Validate_spec:
  "case Validate h c of
     Inl err \<Rightarrow>
       err = (if cfg_Port c \<notin> {1..65535} then BadClusterPort (cfg_Port c)
              else if length (cfg_SecretKey c) \<notin> {0, 16, 24, 32} then BadSecretLength (length (cfg_SecretKey c))
              else NodeNameRequired) \<and>
       (valid_config c = (err = NodeNameRequired \<and> cfg_Enabled c \<and> cfg_NodeName c = [] \<and> h = None))
   | Inr c' \<Rightarrow>
       valid_config c' \<and> (\<exists>name. c' = c\<lparr>cfg_NodeName := name\<rparr> \<and>
         name = (if cfg_Enabled c \<and> cfg_NodeName c = [] then the h else cfg_NodeName c)) \<and>
       Validate h c' = Inr c' \<and> Validate (Some host) c' = Inr (if cfg_Enabled c' \<and> cfg_NodeName c' = [] then c'\<lparr>cfg_NodeName := host\<rparr> else c')"
proof (cases "Validate h c")
  case (Inl err)
  show ?thesis unfolding Inl sum.case by (rule iffD1 [OF Validate_Inl_iff Inl])
next
  case (Inr c')
  then have c': "valid_config c" "c' = c\<lparr>cfg_NodeName := if cfg_Enabled c \<and> cfg_NodeName c = [] then the h else cfg_NodeName c\<rparr>"
    and h: "cfg_Enabled c \<and> cfg_NodeName c = [] \<longrightarrow> h = Some (the h)"
    by (auto simp: Validate_Inr_iff split: if_splits)
  have same: "cfg_Enabled c' = cfg_Enabled c" "valid_config c'" using c' by (simp_all add: valid_config_def)
  then have "Validate h c' = Inr c'" using c' h by (auto simp: Validate_Inr_iff)
  moreover have "Validate (Some host) c' = Inr (if cfg_Enabled c' \<and> cfg_NodeName c' = [] then c'\<lparr>cfg_NodeName := host\<rparr> else c')"
    using same(2) by (auto simp: Validate_Inr_iff valid_config_def)
  ultimately show ?thesis unfolding Inr sum.case using same(2) c'(2) by blast
qed

text \<open>
  The cluster secret the README gives as an example, 22 bytes long, is refused, whatever
  the rest of the configuration is (as long as the port is valid).
\<close>

theorem readme_secret_refused:
  assumes "valid_config c"
  shows "Validate h (c\<lparr>cfg_SecretKey := ''your-shared-secret-key''\<rparr>) = Inl (BadSecretLength 22)"
  using assms by (simp add: Validate_def valid_config_def)

theorem readme_secret_refused_witness:
  "Validate None (NewClusterConfig\<lparr>cfg_SecretKey := ''your-shared-secret-key''\<rparr>) = Inl (BadSecretLength 22)"
  by (rule readme_secret_refused) (simp add: valid_config_def NewClusterConfig_def)

end
