(* ===== verification/DC_Discovery.thy ===== *)
theory DC_Discovery
  imports DC_Message
begin

text \<open>
  Peer discovery by UDP broadcast, \<^verbatim>\<open>discovery.go\<close>: the packet a node sends,
  what a node does with a packet it receives, and the turns of the listening goroutine.
  Sockets are the environment: binding the port either works or not, and a read gives a
  packet with its sender's address, a timeout or another error. The kernel cuts a datagram
  to the 1024 bytes of the read buffer.
\<close>

definition DefaultDiscoveryPort :: int where
  "DefaultDiscoveryPort = 8889"

definition discoveryMessage :: string where
  "discoveryMessage = ''COREDNS-CLUSTER''"

record discoveryPacket =
  pkt_Magic :: string
  pkt_NodeID :: string
  pkt_ClusterPort :: int

record PeerDiscovery =
  pd_nodeID :: string
  pd_clusterPort :: int
  pd_discoveryPort :: int
  pd_bound :: bool
  pd_peers :: "string go_map"
  pd_started :: bool
  pd_cancelled :: bool
  pd_workers :: nat

definition NewPeerDiscovery :: "string \<Rightarrow> int \<Rightarrow> int \<Rightarrow> PeerDiscovery" where
  "NewPeerDiscovery nodeID clusterPort discoveryPort =
     (let discoveryPort = (if discoveryPort = 0 then DefaultDiscoveryPort else discoveryPort)
      in \<lparr>pd_nodeID = nodeID, pd_clusterPort = clusterPort, pd_discoveryPort = discoveryPort,
          pd_bound = False, pd_peers = Map.empty, pd_started = False, pd_cancelled = False, pd_workers = 0\<rparr>)"

text \<open>
  \<open>pd_bound\<close> says that the socket is open, \<open>pd_workers\<close> counts the goroutines that
  \<^verbatim>\<open>Stop\<close> waits for. \<^verbatim>\<open>Start\<close>: the flag of the result says whether it returned an error.
\<close>

definition discovery_Start :: "bool \<Rightarrow> PeerDiscovery \<Rightarrow> bool \<times> PeerDiscovery" where
  "discovery_Start bind_ok pd =
     (let pd = pd\<lparr>pd_started := True, pd_cancelled := False\<rparr>
      in if \<not> bind_ok then (True, pd)
         else (False, pd\<lparr>pd_bound := True, pd_workers := pd_workers pd + 2\<rparr>))"

definition discovery_Stop :: "PeerDiscovery \<Rightarrow> PeerDiscovery" where
  "discovery_Stop pd =
     (let pd = (if pd_started pd then pd\<lparr>pd_cancelled := True\<rparr> else pd);
          pd = pd\<lparr>pd_bound := False\<rparr>
      in pd\<lparr>pd_workers := 0\<rparr>)"

definition GetPeers :: "(string go_map \<Rightarrow> string list) \<Rightarrow> PeerDiscovery \<Rightarrow> string list" where
  "GetPeers ord pd = map (\<lambda>n. the (pd_peers pd n)) (ord (pd_peers pd))"

definition packet_json :: "discoveryPacket \<Rightarrow> json" where
  "packet_json p = JObj [(''m'', JStr (pkt_Magic p)), (''n'', JStr (pkt_NodeID p)),
     (''p'', JNum (show_int (pkt_ClusterPort p)))]"

text \<open>The bytes \<^verbatim>\<open>broadcastLoop\<close> sends; marshalling strings and a number cannot fail.\<close>

definition broadcast_data :: "PeerDiscovery \<Rightarrow> string" where
  "broadcast_data pd = show_json (packet_json
     \<lparr>pkt_Magic = discoveryMessage, pkt_NodeID = pd_nodeID pd, pkt_ClusterPort = pd_clusterPort pd\<rparr>)"

text \<open>
  \<^verbatim>\<open>broadcast\<close> opens a socket and writes the packet: the datagrams that leave the node.
\<close>

definition broadcast_send :: "bool \<Rightarrow> bool \<Rightarrow> string \<Rightarrow> string list" where
  "broadcast_send dial_ok write_ok data = (if \<not> dial_ok then [] else if write_ok then [data] else [])"

text \<open>
  What the \<^verbatim>\<open>select\<close> of a loop with a ticker chose: the end of the context, or a
  tick with the outcome of the dial and of the write that follow it.
\<close>

datatype broadcast_turn = BroadcastDone | BroadcastTick bool bool

fun broadcast_turns :: "string \<Rightarrow> broadcast_turn list \<Rightarrow> string list" where
  "broadcast_turns data [] = []"
| "broadcast_turns data (BroadcastDone # ts) = []"
| "broadcast_turns data (BroadcastTick dial_ok write_ok # ts) =
     broadcast_send dial_ok write_ok data @ broadcast_turns data ts"

definition broadcastLoop :: "PeerDiscovery \<Rightarrow> bool \<Rightarrow> bool \<Rightarrow> broadcast_turn list \<Rightarrow> string list" where
  "broadcastLoop pd dial_ok write_ok ts =
     (let data = broadcast_data pd in broadcast_send dial_ok write_ok data @ broadcast_turns data ts)"

definition zero_packet :: discoveryPacket where
  "zero_packet = \<lparr>pkt_Magic = [], pkt_NodeID = [], pkt_ClusterPort = 0\<rparr>"

definition set_packet_field :: "discoveryPacket \<Rightarrow> string \<Rightarrow> json \<Rightarrow> discoveryPacket option" where
  "set_packet_field p k v =
     (case field_for [''m'', ''n'', ''p''] k of
        None \<Rightarrow> Some p
      | Some f \<Rightarrow>
          if f = ''m'' then map_option (\<lambda>x. p\<lparr>pkt_Magic := x\<rparr>) (as_string (pkt_Magic p) v)
          else if f = ''n'' then map_option (\<lambda>x. p\<lparr>pkt_NodeID := x\<rparr>) (as_string (pkt_NodeID p) v)
          else map_option (\<lambda>x. p\<lparr>pkt_ClusterPort := x\<rparr>) (as_int (pkt_ClusterPort p) v))"

definition decode_packet :: "string \<Rightarrow> discoveryPacket option" where
  "decode_packet data =
     (case json_parse data of None \<Rightarrow> None | Some j \<Rightarrow> decode_struct set_packet_field zero_packet j)"

definition handlePacket :: "PeerDiscovery \<Rightarrow> string \<Rightarrow> string \<Rightarrow> PeerDiscovery" where
  "handlePacket pd data remoteIP =
     (case decode_packet data of
        None \<Rightarrow> pd
      | Some packet \<Rightarrow>
          if pkt_Magic packet \<noteq> discoveryMessage then pd
          else if pkt_NodeID packet = pd_nodeID pd then pd
          else
            let peerAddr = remoteIP @ '':'' @ show_int (pkt_ClusterPort packet)
            in pd\<lparr>pd_peers := (pd_peers pd)(pkt_NodeID packet \<mapsto> peerAddr)\<rparr>)"

datatype udp_read = UdpPacket string string | UdpTimeout | UdpError

text \<open>
  One turn of \<^verbatim>\<open>listenLoop\<close>; the flag of the result says whether the loop goes on.
\<close>

fun listen_turn :: "PeerDiscovery \<Rightarrow> udp_read \<Rightarrow> bool \<times> PeerDiscovery" where
  "listen_turn pd rd =
     (if pd_cancelled pd then (False, pd)
      else case rd of
             UdpTimeout \<Rightarrow> (True, pd)
           | UdpError \<Rightarrow> (True, pd)
           | UdpPacket data remoteIP \<Rightarrow> (True, handlePacket pd (take 1024 data) remoteIP))"

fun listenLoop :: "PeerDiscovery \<Rightarrow> udp_read list \<Rightarrow> PeerDiscovery" where
  "listenLoop pd [] = pd"
| "listenLoop pd (rd # rds) =
     (let (go, pd') = listen_turn pd rd in if go then listenLoop pd' rds else pd')"

section \<open>What a node learns\<close>

lemma as_int_show: "- (2 ^ 63) \<le> i \<Longrightarrow> i < 2 ^ 63 \<Longrightarrow> as_int x (JNum (show_int i)) = Some i"
  by (simp add: as_int_def Atoi_show_int)

lemma decode_broadcast:
  assumes "valid_utf8 (pd_nodeID pd)" "- (2 ^ 63) \<le> pd_clusterPort pd" "pd_clusterPort pd < 2 ^ 63"
  shows "decode_packet (broadcast_data pd) =
    Some \<lparr>pkt_Magic = discoveryMessage, pkt_NodeID = pd_nodeID pd, pkt_ClusterPort = pd_clusterPort pd\<rparr>"
proof -
  let ?p = "\<lparr>pkt_Magic = discoveryMessage, pkt_NodeID = pd_nodeID pd, pkt_ClusterPort = pd_clusterPort pd\<rparr>"
  have "json_parse (broadcast_data pd) = Some (packet_json ?p)"
    unfolding broadcast_data_def using assms(1)
    by (intro json_parse_show) (auto simp: packet_json_def maxNestingDepth_def discoveryMessage_def ascii_valid_utf8)
  then show ?thesis
    using assms by (simp add: decode_packet_def decode_struct_def packet_json_def set_packet_field_def
        field_for_exact zero_packet_def as_int_show)
qed

lemma handlePacket_frame [simp]:
  "pd_nodeID (handlePacket pd data ip) = pd_nodeID pd"
  "pd_cancelled (handlePacket pd data ip) = pd_cancelled pd"
  by (simp_all add: handlePacket_def Let_def split: option.splits)

lemma handlePacket_not_self: "pd_peers pd (pd_nodeID pd) = None \<Longrightarrow> pd_peers (handlePacket pd data ip) (pd_nodeID pd) = None"
  by (simp add: handlePacket_def Let_def split: option.splits)

lemma listenLoop_not_self:
  "pd_peers pd (pd_nodeID pd) = None \<Longrightarrow> pd_peers (listenLoop pd rds) (pd_nodeID pd) = None"
proof (induction rds arbitrary: pd)
  case (Cons rd rds)
  then show ?case using Cons.IH [of "handlePacket pd d a" for d a]
    by (auto simp: handlePacket_not_self split: udp_read.splits)
qed simp

lemma listenLoop_frame [simp]:
  "pd_nodeID (listenLoop pd rds) = pd_nodeID pd" "pd_cancelled (listenLoop pd rds) = pd_cancelled pd"
  by (induction rds arbitrary: pd) (auto split: udp_read.splits)

lemma listenLoop_cancelled: "pd_cancelled pd \<Longrightarrow> listenLoop pd rds = pd"
  by (cases rds) simp_all

lemma listenLoop_append: "listenLoop pd (rds @ rds') = listenLoop (listenLoop pd rds) rds'"
proof (induction rds arbitrary: pd)
  case (Cons rd rds)
  show ?case by (cases "pd_cancelled pd") (auto simp: listenLoop_cancelled Cons.IH split: udp_read.splits)
qed simp

lemma listenLoop_finite: "finite (dom (pd_peers pd)) \<Longrightarrow> finite (dom (pd_peers (listenLoop pd rds)))"
proof (induction rds arbitrary: pd)
  case (Cons rd rds)
  have "finite (dom (pd_peers (handlePacket pd d a)))" for d a
    using Cons.prems by (simp add: handlePacket_def Let_def split: option.splits)
  with Cons show ?case by (auto split: udp_read.splits)
qed simp

lemma broadcast_turns_packets: "pkt \<in> set (broadcast_turns data ts) \<Longrightarrow> pkt = data"
  by (induction data ts rule: broadcast_turns.induct) (auto simp: broadcast_send_def split: if_splits)

lemma broadcastLoop_packets: "pkt \<in> set (broadcastLoop pd dial_ok write_ok ts) \<Longrightarrow> pkt = broadcast_data pd"
  by (auto simp: broadcastLoop_def Let_def broadcast_send_def split: if_splits dest: broadcast_turns_packets)

lemma GetPeers_set: "range_order ord \<Longrightarrow> finite (dom (pd_peers pd)) \<Longrightarrow> set (GetPeers ord pd) = ran (pd_peers pd)"
  by (force simp: GetPeers_def range_order_def ran_def)

section \<open>Properties\<close>

text \<open>
  A node never takes itself for a peer: whatever packets, timeouts and errors its
  listener sees, its own name is not among the peers it knows.
\<close>

theorem never_own_peer:
  "pd_peers (listenLoop (NewPeerDiscovery n p dp) rds) n = None"
  using listenLoop_not_self [of "NewPeerDiscovery n p dp" rds] by (simp add: NewPeerDiscovery_def Let_def)

text \<open>
  A node hears its peers: a datagram that another node's broadcast loop sent, if it fits
  the read buffer, makes the listener record that node under its name with the sender's
  address and the cluster port of that node, and no other entry changes. It does not matter
  what the listener read before.
\<close>

theorem broadcast_is_heard:
  assumes sent: "pkt \<in> set (broadcastLoop b dial_ok write_ok ts)" "length pkt \<le> 1024"
    and b: "valid_utf8 (pd_nodeID b)" "- (2 ^ 63) \<le> pd_clusterPort b" "pd_clusterPort b < 2 ^ 63"
    and a: "pd_nodeID a \<noteq> pd_nodeID b" "\<not> pd_cancelled a"
  shows "pd_peers (listenLoop a (rds @ [UdpPacket pkt ip])) =
    (pd_peers (listenLoop a rds))(pd_nodeID b \<mapsto> ip @ '':'' @ show_int (pd_clusterPort b))"
  using a sent(2) decode_broadcast [OF b]
  by (simp add: broadcastLoop_packets [OF sent(1)] listenLoop_append handlePacket_def Let_def)

end
