(* ===== verification/DC_Cluster.thy ===== *)
theory DC_Cluster
  imports DC_Delegate DC_Cluster_Config DC_Discovery
begin

text \<open>
  The cluster manager of \<^verbatim>\<open>cluster.go\<close>: its creation, start, join, stop, and
  the two notifications the Docker watcher's callback makes. The memberlist package is
  outside this repository: \<open>memberlist_api\<close> collects the functions the code calls, on a
  type parameter for the running member list. Calling a method of a nil delegate or a nil
  member list panics. Times are in nanoseconds.
\<close>

section \<open>State\<close>

record ml_config =
  ml_Name :: string
  ml_BindAddr :: string
  ml_BindPort :: int
  ml_AdvertisePort :: int
  ml_SecretKey :: string
  ml_GossipInterval :: int
  ml_ProbeInterval :: int
  ml_ProbeTimeout :: int
  ml_SuspicionMult :: int

record 'ml memberlist_api =
  api_DefaultLANConfig :: ml_config
  api_Create :: "ml_config \<Rightarrow> string + 'ml"
  api_Join :: "'ml \<Rightarrow> string list \<Rightarrow> (string + int) \<times> 'ml"
  api_NumMembers :: "'ml \<Rightarrow> int"
  api_Members :: "'ml \<Rightarrow> string list"
  api_Leave :: "'ml \<Rightarrow> string option \<times> 'ml"
  api_Shutdown :: "'ml \<Rightarrow> string option"

record ('q, 'ml) ClusterManager =
  cm_config :: ClusterConfig
  cm_delegate :: "'q ClusterDelegate option"
  cm_discovery :: "PeerDiscovery option"
  cm_memberlist :: "'ml option"
  cm_cancel :: bool
  cm_ctx_done :: bool

section \<open>Operations\<close>

definition numNodes :: "'ml memberlist_api \<Rightarrow> ('q, 'ml) ClusterManager \<Rightarrow> int" where
  "numNodes api cm = (case cm_memberlist cm of None \<Rightarrow> 1 | Some ml \<Rightarrow> api_NumMembers api ml)"

text \<open>\<open>Inr None\<close> is the pair of a nil manager and a nil error: clustering is off.\<close>

definition NewClusterManager ::
  "string option \<Rightarrow> 'q \<Rightarrow> ClusterConfig option \<Rightarrow> config_error + ('q, 'ml) ClusterManager option" where
  "NewClusterManager os_hostname q config =
     (case config of
        None \<Rightarrow> Inr None
      | Some c \<Rightarrow>
          if \<not> cfg_Enabled c then Inr None
          else case Validate os_hostname c of
                 Inl err \<Rightarrow> Inl err
               | Inr c' \<Rightarrow> Inr (Some \<lparr>cm_config = c',
                    cm_delegate = Some (NewClusterDelegate (cfg_NodeName c') q),
                    cm_discovery = None, cm_memberlist = None, cm_cancel = False, cm_ctx_done = False\<rparr>))"

definition member_config :: "ml_config \<Rightarrow> ClusterConfig \<Rightarrow> ml_config" where
  "member_config base c =
     (let mlConfig = base\<lparr>ml_Name := cfg_NodeName c, ml_BindAddr := cfg_BindAddr c,
            ml_BindPort := cfg_Port c, ml_AdvertisePort := cfg_Port c\<rparr>;
          mlConfig = (if length (cfg_SecretKey c) > 0
                      then mlConfig\<lparr>ml_SecretKey := cfg_SecretKey c\<rparr> else mlConfig)
      in mlConfig\<lparr>ml_GossipInterval := 200000000, ml_ProbeInterval := 1000000000,
           ml_ProbeTimeout := 500000000, ml_SuspicionMult := 4\<rparr>)"

text \<open>\<open>bind_ok\<close>: whether the discovery port can be bound.\<close>

definition Start ::
  "'ml memberlist_api \<Rightarrow> bool \<Rightarrow> ('q, 'ml) ClusterManager \<Rightarrow> (string option \<times> ('q, 'ml) ClusterManager) go_result" where
  "Start api bind_ok cm =
     (let cm = cm\<lparr>cm_cancel := True, cm_ctx_done := False\<rparr>
      in case api_Create api (member_config (api_DefaultLANConfig api) (cm_config cm)) of
           Inl err \<Rightarrow> Returned (Some err, cm)
         | Inr ml \<Rightarrow>
             (let cm = cm\<lparr>cm_memberlist := Some ml\<rparr>
              in case cm_delegate cm of
                   None \<Rightarrow> Panicked
                 | Some d \<Rightarrow>
                     (let cm = cm\<lparr>cm_delegate := Some (delegate_Start d)\<rparr>
                      in if length (cfg_Seeds (cm_config cm)) = 0
                         then let pd = NewPeerDiscovery (cfg_NodeName (cm_config cm)) (cfg_Port (cm_config cm))
                                         (cfg_DiscoveryPort (cm_config cm))
                              in Returned (None, cm\<lparr>cm_discovery := Some (snd (discovery_Start bind_ok pd))\<rparr>)
                         else Returned (None, cm))))"

text \<open>
  \<^verbatim>\<open>Stop\<close> takes the parts out of the manager under the lock and shuts them down
  afterwards. The result holds the error, the manager, and the delegate and the discovery as
  their shutdown leaves them (the manager has no reference to them any more). The wait for the
  delegate's worker is taken to be over, with the channel as it was: that it ends for a manager
  started once is shown in \<open>DC_Delegate\<close>, where the worker may also take messages before it does.
\<close>

definition Stop ::
  "'ml memberlist_api \<Rightarrow> ('q, 'ml) ClusterManager \<Rightarrow>
   string option \<times> ('q, 'ml) ClusterManager \<times> 'q ClusterDelegate option \<times> PeerDiscovery option" where
  "Stop api cm =
     (let cm' = cm\<lparr>cm_cancel := False, cm_discovery := None, cm_delegate := None, cm_memberlist := None,
            cm_ctx_done := cm_ctx_done cm \<or> cm_cancel cm\<rparr>;
          discovery = map_option discovery_Stop (cm_discovery cm);
          delegate = map_option (\<lambda>d. (delegate_Stop d)\<lparr>d_workers := []\<rparr>) (cm_delegate cm);
          err = (case cm_memberlist cm of
                   None \<Rightarrow> None
                 | Some ml \<Rightarrow> (let (_, ml) = api_Leave api ml in api_Shutdown api ml))
      in (err, cm', delegate, discovery))"

datatype join_result = JoinError string | JoinedSeeds int | JoinStandalone | JoinLoopStarted

definition Join ::
  "'ml memberlist_api \<Rightarrow> ('q, 'ml) ClusterManager \<Rightarrow> (join_result \<times> ('q, 'ml) ClusterManager) go_result" where
  "Join api cm =
     (let seeds = cfg_Seeds (cm_config cm)
      in if length seeds > 0 then
           (case cm_memberlist cm of
              None \<Rightarrow> Panicked
            | Some ml \<Rightarrow>
                (case api_Join api ml seeds of
                   (Inl err, ml') \<Rightarrow> Returned (JoinError err, cm\<lparr>cm_memberlist := Some ml'\<rparr>)
                 | (Inr n, ml') \<Rightarrow> Returned (JoinedSeeds n, cm\<lparr>cm_memberlist := Some ml'\<rparr>)))
         else case cm_discovery cm of
                None \<Rightarrow> Returned (JoinStandalone, cm)
              | Some _ \<Rightarrow> Returned (JoinLoopStarted, cm))"

text \<open>
  One turn of \<^verbatim>\<open>discoveryJoinLoop\<close>: its \<^verbatim>\<open>select\<close> takes the end of the
  context or a tick (either, when both are ready); the flag says whether the loop goes on.
\<close>

datatype join_select = JoinDone | JoinTick

fun join_turn ::
  "'ml memberlist_api \<Rightarrow> (string go_map \<Rightarrow> string list) \<Rightarrow> ('q, 'ml) ClusterManager \<Rightarrow> join_select \<Rightarrow>
   bool \<times> ('q, 'ml) ClusterManager" where
  "join_turn api ord cm JoinDone = (False, cm)"
| "join_turn api ord cm JoinTick =
     (case (cm_discovery cm, cm_memberlist cm) of
        (Some discovery, Some ml) \<Rightarrow>
          (let peers = GetPeers ord discovery
           in if length peers = 0 then (True, cm)
              else if api_NumMembers api ml > 1 then (True, cm)
              else (True, cm\<lparr>cm_memberlist := Some (snd (api_Join api ml peers))\<rparr>))
      | _ \<Rightarrow> (False, cm))"

fun discoveryJoinLoop ::
  "'ml memberlist_api \<Rightarrow> (string go_map \<Rightarrow> string list) \<Rightarrow> ('q, 'ml) ClusterManager \<Rightarrow> join_select list \<Rightarrow>
   ('q, 'ml) ClusterManager" where
  "discoveryJoinLoop api ord cm [] = cm"
| "discoveryJoinLoop api ord cm (sel # sels) =
     (let (go, cm') = join_turn api ord cm sel in if go then discoveryJoinLoop api ord cm' sels else cm')"

definition add_msg :: "hostname \<Rightarrow> string \<Rightarrow> int64 \<Rightarrow> string \<Rightarrow> RecordMessage" where
  "add_msg hostname ip timestamp node = \<lparr>msg_Hostname = hostname, msg_IP = ip,
     msg_Action = RecordActionAdd, msg_Timestamp = timestamp, msg_NodeID = node\<rparr>"

definition remove_msg :: "hostname \<Rightarrow> int64 \<Rightarrow> string \<Rightarrow> RecordMessage" where
  "remove_msg hostname timestamp node = \<lparr>msg_Hostname = hostname, msg_IP = [],
     msg_Action = RecordActionRemove, msg_Timestamp = timestamp, msg_NodeID = node\<rparr>"

definition notify ::
  "(string \<Rightarrow> string) \<Rightarrow> ('q \<Rightarrow> broadcast \<Rightarrow> 'q) \<Rightarrow> (string \<Rightarrow> RecordMessage) \<Rightarrow>
   ('q, 'ml) ClusterManager \<times> Records \<Rightarrow> ('q, 'ml) ClusterManager \<times> Records" where
  "notify ul queueb mk s =
     (case s of (cm, r) \<Rightarrow>
        (case cm_delegate cm of
           None \<Rightarrow> (cm, r)
         | Some d \<Rightarrow>
             (let msg = mk (cfg_NodeName (cm_config cm))
              in (cm\<lparr>cm_delegate := Some (BroadcastRecord queueb d msg)\<rparr>, snd (ApplyMessage ul r msg)))))"

definition NotifyRecordAdd ::
  "(string \<Rightarrow> string) \<Rightarrow> ('q \<Rightarrow> broadcast \<Rightarrow> 'q) \<Rightarrow> ('q, 'ml) ClusterManager \<times> Records \<Rightarrow>
   hostname \<Rightarrow> string \<Rightarrow> int64 \<Rightarrow> ('q, 'ml) ClusterManager \<times> Records" where
  "NotifyRecordAdd ul queueb s hostname ip timestamp = notify ul queueb (add_msg hostname ip timestamp) s"

definition NotifyRecordRemove ::
  "(string \<Rightarrow> string) \<Rightarrow> ('q \<Rightarrow> broadcast \<Rightarrow> 'q) \<Rightarrow> ('q, 'ml) ClusterManager \<times> Records \<Rightarrow>
   hostname \<Rightarrow> int64 \<Rightarrow> ('q, 'ml) ClusterManager \<times> Records" where
  "NotifyRecordRemove ul queueb s hostname timestamp = notify ul queueb (remove_msg hostname timestamp) s"

definition Members :: "'ml memberlist_api \<Rightarrow> ('q, 'ml) ClusterManager \<Rightarrow> string list option" where
  "Members api cm = (case cm_memberlist cm of None \<Rightarrow> None | Some ml \<Rightarrow> Some (api_Members api ml))"

definition IsHealthy :: "'ml memberlist_api \<Rightarrow> ('q, 'ml) ClusterManager \<Rightarrow> bool" where
  "IsHealthy api cm = (case cm_memberlist cm of None \<Rightarrow> False | Some ml \<Rightarrow> api_NumMembers api ml > 0)"


section \<open>Announcements\<close>

text \<open>What the node announces: one call of the manager each.\<close>

datatype announcement = AnnounceAdd hostname string int64 | AnnounceRemove hostname int64

fun announce ::
  "(string \<Rightarrow> string) \<Rightarrow> ('q \<Rightarrow> broadcast \<Rightarrow> 'q) \<Rightarrow> ('q, 'ml) ClusterManager \<times> Records \<Rightarrow> announcement \<Rightarrow>
   ('q, 'ml) ClusterManager \<times> Records" where
  "announce ul queueb s (AnnounceAdd h ip ts) = NotifyRecordAdd ul queueb s h ip ts"
| "announce ul queueb s (AnnounceRemove h ts) = NotifyRecordRemove ul queueb s h ts"

fun announced_msg :: "string \<Rightarrow> announcement \<Rightarrow> RecordMessage" where
  "announced_msg node (AnnounceAdd h ip ts) = add_msg h ip ts node"
| "announced_msg node (AnnounceRemove h ts) = remove_msg h ts node"

text \<open>
  The contract of memberlist's queue: queueing a packet drops the packets that it
  invalidates and keeps the others. \<open>contents\<close> is the set of packets in a queue.
\<close>

definition queue_contract :: "('q \<Rightarrow> broadcast \<Rightarrow> 'q) \<Rightarrow> ('q \<Rightarrow> broadcast set) \<Rightarrow> bool" where
  "queue_contract queueb contents \<longleftrightarrow>
     (\<forall>q b. contents (queueb q b) = insert b {x \<in> contents q. \<not> Invalidates b x})"

section \<open>Lemmas\<close>

lemma notify_Some:
  "cm_delegate cm = Some d \<Longrightarrow>
   notify ul queueb mk (cm, r) =
     (cm\<lparr>cm_delegate := Some (BroadcastRecord queueb d (mk (cfg_NodeName (cm_config cm))))\<rparr>,
      apply_msg ul (mk (cfg_NodeName (cm_config cm))) r)"
  by (simp add: notify_def Let_def)

lemma notify_None [simp]: "cm_delegate cm = None \<Longrightarrow> notify ul queueb mk (cm, r) = (cm, r)"
  by (simp add: notify_def)

lemma NotifyMsg_accepts:
  "DecodeRecordMessage data = Some msg \<Longrightarrow> data \<noteq> [] \<Longrightarrow> length (d_msgChan d) < msgChanBufferSize \<Longrightarrow>
   NotifyMsg d data = d\<lparr>d_msgChan := d_msgChan d @ [msg]\<rparr>"
  by (simp add: NotifyMsg_def)

lemma settled_NotifyMsg:
  "DecodeRecordMessage data = Some msg \<Longrightarrow> data \<noteq> [] \<Longrightarrow> length (d_msgChan d) < msgChanBufferSize \<Longrightarrow>
   settled ul (NotifyMsg d data, r) = apply_msg ul msg (settled ul (d, r))"
  by (simp add: NotifyMsg_accepts settled_def)

lemma announce_msg:
  "cm_delegate cm = Some d \<Longrightarrow> announce ul queueb (cm, r) a =
     (cm\<lparr>cm_delegate := Some (BroadcastRecord queueb d (announced_msg (cfg_NodeName (cm_config cm)) a))\<rparr>,
      apply_msg ul (announced_msg (cfg_NodeName (cm_config cm)) a) r)"
  by (cases a) (simp_all add: NotifyRecordAdd_def NotifyRecordRemove_def notify_Some)

lemma BroadcastRecord_contents:
  assumes "queue_contract queueb contents"
  shows "contents (d_broadcasts (BroadcastRecord queueb d msg)) =
    contents (d_broadcasts d) \<union> {b. Encode msg = Some (Message b)}"
proof -
  have *: "contents (queueb q b) = insert b (contents q)" for q b
    using assms by (simp add: queue_contract_def Invalidates_def)
  have "{b. Encode msg = Some (Message b)} = {\<lparr>b_data = the (Encode msg)\<rparr>}"
    by (auto simp: Encode_def Message_def)
  then show ?thesis by (simp add: BroadcastRecord_def Encode_def *)
qed

definition stopped :: "('q, 'ml) ClusterManager \<Rightarrow> bool" where
  "stopped cm \<longleftrightarrow> cm_delegate cm = None \<and> cm_discovery cm = None \<and> cm_memberlist cm = None \<and> \<not> cm_cancel cm"

lemma stopped_Stop: "stopped (fst (snd (Stop api cm)))"
  by (simp add: stopped_def Stop_def Let_def)

lemma Stop_stopped: "stopped cm \<Longrightarrow> Stop api cm = (None, cm, None, None)"
  by (cases cm) (auto simp: stopped_def Stop_def Let_def)

section \<open>Properties\<close>

text \<open>
  Replication end to end: a record the manager announces is applied to the node's own
  table and queued as one packet; any peer with room in its channel that is handed that
  packet ends with the very same message applied after what it had queued.
\<close>

theorem announced_record_reaches_peer:
  assumes mgr: "cm_delegate cm = Some d"
    and ok: "sendable_msg (add_msg h ip ts (cfg_NodeName (cm_config cm)))"
    and room: "length (d_msgChan db) < msgChanBufferSize"
  shows "\<exists>packet.
    NotifyRecordAdd ul queueb (cm, r) h ip ts =
      (cm\<lparr>cm_delegate := Some (d\<lparr>d_broadcasts := queueb (d_broadcasts d) packet\<rparr>)\<rparr>,
       apply_msg ul (add_msg h ip ts (cfg_NodeName (cm_config cm))) r) \<and>
    settled ul (NotifyMsg db (Message packet), rb) =
      apply_msg ul (add_msg h ip ts (cfg_NodeName (cm_config cm))) (settled ul (db, rb))"
proof -
  obtain packet where p: "Encode (add_msg h ip ts (cfg_NodeName (cm_config cm))) = Some packet" "packet \<noteq> []"
      "DecodeRecordMessage packet = Some (add_msg h ip ts (cfg_NodeName (cm_config cm)))"
    by (rule msg_codec.received [OF ok])
  with mgr room show ?thesis
    by (intro exI [of _ "\<lparr>b_data = packet\<rparr>"]) (simp add: Message_def NotifyRecordAdd_def notify_Some BroadcastRecord_def settled_NotifyMsg)
qed

definition sample_manager :: "string \<Rightarrow> (broadcast list, unit) ClusterManager" where
  "sample_manager n = \<lparr>cm_config = NewClusterConfig\<lparr>cfg_Enabled := True, cfg_NodeName := n\<rparr>,
     cm_delegate = Some (NewClusterDelegate n []), cm_discovery = None, cm_memberlist = None,
     cm_cancel = False, cm_ctx_done = False\<rparr>"

theorem announced_record_reaches_peer_witness:
  "\<exists>packet.
    NotifyRecordAdd (\<lambda>s. s) (\<lambda>q b. q @ [b]) (sample_manager ''n1'', NewRecords) ''a.com'' ''1.1.1.1'' 5 =
      ((sample_manager ''n1'')\<lparr>cm_delegate := Some ((NewClusterDelegate ''n1'' [])\<lparr>d_broadcasts := [packet]\<rparr>)\<rparr>,
       apply_msg (\<lambda>s. s) (add_msg ''a.com'' ''1.1.1.1'' 5 ''n1'') NewRecords) \<and>
    settled (\<lambda>s. s) (NotifyMsg (NewClusterDelegate ''n2'' ()) (Message packet), NewRecords) =
      apply_msg (\<lambda>s. s) (add_msg ''a.com'' ''1.1.1.1'' 5 ''n1'') NewRecords"
  using announced_record_reaches_peer [of "sample_manager ''n1''" "NewClusterDelegate ''n1'' []" "''a.com''" "''1.1.1.1''" 5
      "NewClusterDelegate ''n2'' ()" "\<lambda>s. s" "\<lambda>q b. q @ [b]" NewRecords NewRecords]
  by (simp add: sample_manager_def sendable_msg_def add_msg_def ascii_valid_utf8 NewClusterDelegate_def
      msgChanBufferSize_def settled_def)

text \<open>
  C19. No announcement is lost before it is sent: after any sequence of additions and removals
  the node's table is the announced messages applied in order, and the queue holds, besides
  what it held, exactly the encoded packet of every one of them. This rests on the packets
  never invalidating each other, as the queue drops a packet that a later one invalidates.
\<close>

theorem announcements_all_queued:
  assumes "queue_contract queueb contents" "cm_delegate cm = Some d"
    and "foldl (announce ul queueb) (cm, r) as = (cm', r')"
  shows "r' = fold (apply_msg ul) (map (announced_msg (cfg_NodeName (cm_config cm))) as) r \<and>
    (\<exists>d'. cm_delegate cm' = Some d' \<and> contents (d_broadcasts d') = contents (d_broadcasts d) \<union>
       {b. \<exists>a \<in> set as. Encode (announced_msg (cfg_NodeName (cm_config cm)) a) = Some (Message b)})"
  using assms(2,3)
proof (induction as arbitrary: cm r d)
  case (Cons a as)
  let ?d = "BroadcastRecord queueb d (announced_msg (cfg_NodeName (cm_config cm)) a)"
  have "foldl (announce ul queueb) (cm\<lparr>cm_delegate := Some ?d\<rparr>, apply_msg ul (announced_msg (cfg_NodeName (cm_config cm)) a) r) as = (cm', r')"
    using Cons.prems by (simp add: announce_msg)
  from Cons.IH [OF _ this, of ?d] show ?case
    by (auto simp: BroadcastRecord_contents [OF assms(1)])
qed simp

theorem announcements_all_queued_witness:
  "\<exists>d'. cm_delegate (fst (foldl (announce (\<lambda>s. s) (\<lambda>q b. q @ [b])) (sample_manager ''n1'', NewRecords)
       [AnnounceAdd ''a.com'' ''1.1.1.1'' 5, AnnounceRemove ''a.com'' 6])) = Some d' \<and>
     \<lparr>b_data = the (Encode (remove_msg ''a.com'' 6 ''n1''))\<rparr> \<in> set (d_broadcasts d')"
proof -
  let ?as = "[AnnounceAdd ''a.com'' ''1.1.1.1'' 5, AnnounceRemove ''a.com'' 6]"
  have q: "queue_contract (\<lambda>q b. q @ [b]) set" by (simp add: queue_contract_def Invalidates_def)
  have d: "cm_delegate (sample_manager ''n1'') = Some (NewClusterDelegate ''n1'' [])" by (simp add: sample_manager_def)
  obtain cm' r' where f: "foldl (announce (\<lambda>s. s) (\<lambda>q b. q @ [b])) (sample_manager ''n1'', NewRecords) ?as = (cm', r')"
    by (cases "foldl (announce (\<lambda>s. s) (\<lambda>q b. q @ [b])) (sample_manager ''n1'', NewRecords) ?as")
  from announcements_all_queued [OF q d f] show ?thesis unfolding f
    by (auto simp: sample_manager_def Encode_def Message_def)
qed

text \<open>
  After \<^verbatim>\<open>Stop\<close> the manager is inert: it reports one node and no health, it
  announces nothing and changes no table, and stopping again does nothing and succeeds.
\<close>

theorem stop_is_final:
  assumes "(err, cm', dlg, disc) = Stop api cm"
  shows "numNodes api cm' = 1 \<and> \<not> IsHealthy api cm' \<and> Members api cm' = None \<and>
         NotifyRecordAdd ul queueb (cm', r) h ip ts = (cm', r) \<and>
         NotifyRecordRemove ul queueb (cm', r) h ts = (cm', r) \<and>
         Stop api cm' = (None, cm', None, None)"
proof -
  have "stopped cm'" using assms stopped_Stop [of api cm] by (metis fst_conv snd_conv)
  then show ?thesis
    by (simp add: Stop_stopped)
       (simp add: stopped_def numNodes_def IsHealthy_def Members_def NotifyRecordAdd_def NotifyRecordRemove_def)
qed

definition sample_api :: "unit memberlist_api" where
  "sample_api = \<lparr>api_DefaultLANConfig = \<lparr>ml_Name = [], ml_BindAddr = [], ml_BindPort = 0, ml_AdvertisePort = 0,
       ml_SecretKey = [], ml_GossipInterval = 0, ml_ProbeInterval = 0, ml_ProbeTimeout = 0, ml_SuspicionMult = 0\<rparr>,
     api_Create = (\<lambda>_. Inr ()), api_Join = (\<lambda>ml ss. (Inr (int (length ss)), ml)), api_NumMembers = (\<lambda>_. 1),
     api_Members = (\<lambda>_. [''n1'']), api_Leave = (\<lambda>ml. (None, ml)), api_Shutdown = (\<lambda>_. None)\<rparr>"

theorem stop_is_final_witness:
  "numNodes sample_api ((sample_manager ''n1'')\<lparr>cm_delegate := None\<rparr>) = 1 \<and>
   \<not> IsHealthy sample_api ((sample_manager ''n1'')\<lparr>cm_delegate := None\<rparr>) \<and>
   Stop sample_api ((sample_manager ''n1'')\<lparr>cm_delegate := None\<rparr>) = (None, (sample_manager ''n1'')\<lparr>cm_delegate := None\<rparr>, None, None)"
proof -
  have "(None, (sample_manager ''n1'')\<lparr>cm_delegate := None\<rparr>, Some (NewClusterDelegate ''n1'' []), None) =
      Stop sample_api (sample_manager ''n1'')"
    by (simp add: Stop_def sample_manager_def delegate_Stop_def NewClusterDelegate_def)
  from stop_is_final [OF this, of "\<lambda>s. s" "\<lambda>q b. q" NewRecords "[]" "[]" 0] show ?thesis by simp
qed

text \<open>
  \<^verbatim>\<open>Start\<close>: when it returns without an error, the member list was created
  from the validated configuration (name, address, port for binding and for advertising, the
  secret if there is one), the delegate has one more worker and is not cancelled, and
  discovery runs exactly when no seeds are configured; a manager that was stopped cannot be
  started again: the call panics as soon as the member list is created.
\<close>

theorem start_outcomes:
  "case Start api bind_ok cm of
     Panicked \<Rightarrow> cm_delegate cm = None
   | Returned (Some err, cm') \<Rightarrow> cm' = cm\<lparr>cm_cancel := True, cm_ctx_done := False\<rparr> \<and>
       api_Create api (member_config (api_DefaultLANConfig api) (cm_config cm)) = Inl err
   | Returned (None, cm') \<Rightarrow>
       (\<exists>ml d. api_Create api (member_config (api_DefaultLANConfig api) (cm_config cm)) = Inr ml \<and>
          cm_memberlist cm' = Some ml \<and> cm_delegate cm = Some d \<and> cm_delegate cm' = Some (delegate_Start d)) \<and>
       cm_discovery cm' = (if cfg_Seeds (cm_config cm) = []
         then Some (snd (discovery_Start bind_ok (NewPeerDiscovery (cfg_NodeName (cm_config cm))
                (cfg_Port (cm_config cm)) (cfg_DiscoveryPort (cm_config cm)))))
         else cm_discovery cm)"
  by (auto simp: Start_def Let_def split: sum.splits option.splits go_result.splits)

text \<open>
  The discovery loop joins only a node that is alone: with a second member in the list, or
  with no peer heard of, or after \<^verbatim>\<open>Stop\<close>, no number of turns changes the manager.
\<close>

theorem join_loop_idle:
  assumes "stopped cm \<or> (\<exists>ml pd. cm_memberlist cm = Some ml \<and> cm_discovery cm = Some pd \<and>
      (api_NumMembers api ml > 1 \<or> GetPeers ord pd = []))"
  shows "discoveryJoinLoop api ord cm sels = cm"
proof (induction sels)
  case (Cons sel sels)
  then show ?case using assms by (cases sel) (auto simp: stopped_def Let_def)
qed simp

text \<open>
  C33. A peer that broadcasts is joined: when a datagram sent by the broadcast loop of
  another node, started with its own name and port, reaches the listener of a node that is
  alone, whatever the listener read before, the next tick of the join loop contacts exactly
  the peers heard of so far, and the address of that node is among them.
\<close>

theorem heard_peer_is_joined:
  assumes sent: "pkt \<in> set (broadcastLoop (NewPeerDiscovery n port dp) dial_ok write_ok ts)" "length pkt \<le> 1024"
    and other: "valid_utf8 n" "- (2 ^ 63) \<le> port" "port < 2 ^ 63" "pd_nodeID pd \<noteq> n"
    and node: "cm_discovery cm = Some (listenLoop pd (rds @ [UdpPacket pkt ip]))" "\<not> pd_cancelled pd"
      "cm_memberlist cm = Some ml" "api_NumMembers api ml \<le> 1"
    and maps: "range_order ord" "finite (dom (pd_peers pd))"
  shows "\<exists>peers. ip @ '':'' @ show_int port \<in> set peers \<and>
    set peers = ran (pd_peers (listenLoop pd (rds @ [UdpPacket pkt ip]))) \<and>
    discoveryJoinLoop api ord cm [JoinTick] = cm\<lparr>cm_memberlist := Some (snd (api_Join api ml peers))\<rparr>"
proof -
  let ?b = "NewPeerDiscovery n port dp" and ?a = "listenLoop pd (rds @ [UdpPacket pkt ip])"
  let ?peers = "GetPeers ord ?a"
  have b: "pd_nodeID ?b = n" "pd_clusterPort ?b = port" by (simp_all add: NewPeerDiscovery_def Let_def)
  have set: "set ?peers = ran (pd_peers ?a)"
    using maps by (simp add: GetPeers_set listenLoop_finite)
  have "pd_peers ?a n = Some (ip @ '':'' @ show_int port)"
    using broadcast_is_heard [OF sent, where a = pd and rds = rds and ip = ip, unfolded b, OF other node(2)] by simp
  then have "ip @ '':'' @ show_int port \<in> set ?peers" unfolding set by (rule ranI)
  moreover from this have "discoveryJoinLoop api ord cm [JoinTick] = cm\<lparr>cm_memberlist := Some (snd (api_Join api ml ?peers))\<rparr>"
    using node by (auto simp: Let_def)
  ultimately show ?thesis using set by blast
qed

definition sample_join_api :: "string list memberlist_api" where
  "sample_join_api = \<lparr>api_DefaultLANConfig = api_DefaultLANConfig sample_api,
     api_Create = (\<lambda>c. Inr [ml_Name c]), api_Join = (\<lambda>ml ss. (Inr (int (length ss)), ml @ ss)),
     api_NumMembers = (\<lambda>ml. int (length ml)), api_Members = (\<lambda>ml. ml), api_Leave = (\<lambda>ml. (None, ml)),
     api_Shutdown = (\<lambda>_. None)\<rparr>"

definition sample_joining :: "(unit, string list) ClusterManager" where
  "sample_joining = \<lparr>cm_config = NewClusterConfig\<lparr>cfg_Enabled := True, cfg_NodeName := ''n1''\<rparr>, cm_delegate = None,
     cm_discovery = Some (listenLoop (NewPeerDiscovery ''n1'' 7946 0)
       [UdpTimeout, UdpPacket (broadcast_data (NewPeerDiscovery ''n2'' 7946 0)) ''10.0.0.2'']),
     cm_memberlist = Some [''n1''], cm_cancel = True, cm_ctx_done = False\<rparr>"

theorem heard_peer_is_joined_witness:
  "\<exists>ml. cm_memberlist (discoveryJoinLoop sample_join_api sorted_order sample_joining [JoinTick]) = Some ml \<and>
     ''10.0.0.2:7946'' \<in> set ml"
proof -
  let ?pkt = "broadcast_data (NewPeerDiscovery ''n2'' 7946 0)"
  have port: "show_int 7946 = ''7946''" by (simp add: show_eval)
  have len: "length ?pkt \<le> 1024"
    by (simp add: broadcast_data_def packet_json_def NewPeerDiscovery_def port json_string_def discoveryMessage_def
        append_string.simps html_safe_def)
  have sent: "?pkt \<in> set (broadcastLoop (NewPeerDiscovery ''n2'' 7946 0) True True [])"
    by (simp add: broadcastLoop_def broadcast_send_def)
  have "\<exists>peers. ''10.0.0.2'' @ '':'' @ show_int 7946 \<in> set peers \<and>
      set peers = ran (pd_peers (listenLoop (NewPeerDiscovery ''n1'' 7946 0) ([UdpTimeout] @ [UdpPacket ?pkt ''10.0.0.2'']))) \<and>
      discoveryJoinLoop sample_join_api sorted_order sample_joining [JoinTick] =
        sample_joining\<lparr>cm_memberlist := Some (snd (api_Join sample_join_api [''n1''] peers))\<rparr>"
    by (rule heard_peer_is_joined [OF sent len _ _ _ _ _ _ _ _ range_order_sorted])
       (simp_all add: sample_joining_def sample_join_api_def ascii_valid_utf8 NewPeerDiscovery_def)
  then show ?thesis by (auto simp: sample_join_api_def port)
qed

end
