(* ===== verification/Net_IP.thy ===== *)
theory Net_IP
  imports Go_Strconv
begin

text \<open>
  \<^verbatim>\<open>net.ParseIP\<close> and \<^verbatim>\<open>net.IP.To4\<close> of Go's standard library,
  which both query handlers and both setups call on the text of an address. An address is the
  list of its 16 octets; the IPv4 address a.b.c.d is the octets of ::ffff:a.b.c.d.
  \<^verbatim>\<open>ParseIP\<close> refuses an IPv6 address with a zone, so a percent sign is always
  an error.
\<close>

section \<open>Dotted quads\<close>

text \<open>
  \<^verbatim>\<open>parseIPv4Fields\<close>: \<open>val\<close> and \<open>digLen\<close> of the current octet, \<open>dot\<close> whether
  the previous byte is a dot or there is none, and the octets read so far.
\<close>

fun parseIPv4Fields :: "string \<Rightarrow> nat \<Rightarrow> nat \<Rightarrow> bool \<Rightarrow> nat list \<Rightarrow> nat list option" where
  "parseIPv4Fields [] val digLen dot fields = (if length fields < 3 then None else Some (fields @ [val]))"
| "parseIPv4Fields (c # s) val digLen dot fields =
     (if is_digit c then
        if digLen = 1 \<and> val = 0 then None
        else let v = val * 10 + (byte_of c - 48)
             in if v > 255 then None else parseIPv4Fields s v (Suc digLen) False fields
      else if c = CHR ''.'' then
        if dot \<or> s = [] then None
        else if length fields = 3 then None
        else parseIPv4Fields s 0 0 True (fields @ [val])
      else None)"

definition parseIPv4 :: "string \<Rightarrow> nat list option" where
  "parseIPv4 s = (case parseIPv4Fields s 0 0 True [] of
     None \<Rightarrow> None
   | Some fields \<Rightarrow> Some (replicate 10 0 @ [255, 255] @ fields))"

section \<open>IPv6\<close>

definition hex_digit :: "char \<Rightarrow> nat option" where
  "hex_digit c =
     (if is_digit c then Some (byte_of c - 48)
      else if 97 \<le> byte_of c \<and> byte_of c \<le> 102 then Some (byte_of c - 87)
      else if 65 \<le> byte_of c \<and> byte_of c \<le> 70 then Some (byte_of c - 55)
      else None)"

text \<open>A hexadecimal group: how many digits, their value, and what follows; too long a group is an error.\<close>

fun hex_group :: "string \<Rightarrow> nat \<Rightarrow> nat \<Rightarrow> (nat \<times> nat \<times> string) option" where
  "hex_group [] off acc = Some (off, acc, [])"
| "hex_group (c # s) off acc =
     (case hex_digit c of
        None \<Rightarrow> Some (off, acc, c # s)
      | Some d \<Rightarrow>
          if off > 3 then None
          else if acc * 16 + d > 65535 then None
          else hex_group s (Suc off) (acc * 16 + d))"

text \<open>
  The loop of \<^verbatim>\<open>parseIPv6\<close> on the text left, the position of the ellipsis
  (-1 in the Go code when there is none) and the octets read; one turn is an error, leaves the
  loop, or goes on.
\<close>

datatype ipv6_turn =
    V6_Error
  | V6_Break string "nat option" "nat list"
  | V6_Next string "nat option" "nat list"

definition ipv6_group :: "string \<Rightarrow> nat option \<Rightarrow> nat list \<Rightarrow> ipv6_turn" where
  "ipv6_group s ellipsis ip =
     (case hex_group s 0 0 of
        None \<Rightarrow> V6_Error
      | Some (off, acc, rest) \<Rightarrow>
          if off = 0 then V6_Error
          else if rest \<noteq> [] \<and> hd rest = CHR ''.'' then
            if ellipsis = None \<and> length ip \<noteq> 12 then V6_Error
            else if length ip + 4 > 16 then V6_Error
            else (case parseIPv4Fields s 0 0 True [] of
                    None \<Rightarrow> V6_Error
                  | Some fields \<Rightarrow> V6_Break [] ellipsis (ip @ fields))
          else let ip = ip @ [acc div 256, acc mod 256]
            in case rest of
                 [] \<Rightarrow> V6_Break [] ellipsis ip
               | c # rest' \<Rightarrow>
                   if c \<noteq> CHR '':'' then V6_Error
                   else if rest' = [] then V6_Error
                   else if hd rest' = CHR '':'' then
                     if ellipsis \<noteq> None then V6_Error
                     else if tl rest' = [] then V6_Break [] (Some (length ip)) ip
                     else V6_Next (tl rest') (Some (length ip)) ip
                   else V6_Next rest' ellipsis ip)"

lemma ipv6_group_Next: "ipv6_group s e ip = V6_Next s' e' ip' \<Longrightarrow> length ip' = length ip + 2"
  by (auto simp: ipv6_group_def Let_def split: option.splits if_splits list.splits)

function ipv6_loop :: "string \<Rightarrow> nat option \<Rightarrow> nat list \<Rightarrow> (string \<times> nat option \<times> nat list) option" where
  "ipv6_loop s ellipsis ip =
     (if length ip \<ge> 16 then Some (s, ellipsis, ip)
      else case ipv6_group s ellipsis ip of
        V6_Error \<Rightarrow> None
      | V6_Break s' ellipsis' ip' \<Rightarrow> Some (s', ellipsis', ip')
      | V6_Next s' ellipsis' ip' \<Rightarrow> ipv6_loop s' ellipsis' ip')"
  by pat_completeness auto
termination
  by (relation "measure (\<lambda>(s, e, ip). 16 - length ip)") (auto dest: ipv6_group_Next)

declare ipv6_loop.simps [simp del]

definition parseIPv6 :: "string \<Rightarrow> nat list option" where
  "parseIPv6 s =
     (if CHR ''%'' \<in> set s then None
      else let lead = (take 2 s = ''::''); t = (if lead then drop 2 s else s)
        in if lead \<and> t = [] then Some (replicate 16 0)
           else case ipv6_loop t (if lead then Some 0 else None) [] of
             None \<Rightarrow> None
           | Some (rest, ellipsis, ip) \<Rightarrow>
               if rest \<noteq> [] then None
               else if length ip < 16 then
                 (case ellipsis of
                    None \<Rightarrow> None
                  | Some e \<Rightarrow> Some (take e ip @ replicate (16 - length ip) 0 @ drop e ip))
               else if ellipsis \<noteq> None then None
               else Some ip)"

section \<open>ParseIP and To4\<close>

fun first_mark :: "string \<Rightarrow> char option" where
  "first_mark [] = None"
| "first_mark (c # s) =
     (if c = CHR ''.'' \<or> c = CHR '':'' \<or> c = CHR ''%'' then Some c else first_mark s)"

definition ParseIP :: "string \<Rightarrow> nat list option" where
  "ParseIP s =
     (case first_mark s of
        None \<Rightarrow> None
      | Some c \<Rightarrow> if c = CHR ''.'' then parseIPv4 s else if c = CHR '':'' then parseIPv6 s else None)"

definition To4 :: "nat list \<Rightarrow> nat list option" where
  "To4 ip =
     (if length ip = 4 then Some ip
      else if length ip = 16 \<and> list_all (\<lambda>b. b = 0) (take 10 ip) \<and> ip ! 10 = 255 \<and> ip ! 11 = 255
      then Some (drop 12 ip) else None)"

text \<open>The address a query handler can put into an A record.\<close>

definition ipv4_of :: "string \<Rightarrow> nat list option" where
  "ipv4_of s = (case ParseIP s of None \<Rightarrow> None | Some ip \<Rightarrow> To4 ip)"

definition dotted :: "nat \<Rightarrow> nat \<Rightarrow> nat \<Rightarrow> nat \<Rightarrow> string" where
  "dotted a b c d = show_nat a @ ''.'' @ show_nat b @ ''.'' @ show_nat c @ ''.'' @ show_nat d"

section \<open>Facts\<close>

definition octets :: "nat list \<Rightarrow> bool" where
  "octets ip \<longleftrightarrow> (\<forall>b \<in> set ip. b \<le> 255)"

lemma octets_simps [simp]: "octets []" "octets (b # ip) \<longleftrightarrow> b \<le> 255 \<and> octets ip" "octets (xs @ ys) \<longleftrightarrow> octets xs \<and> octets ys"
    "octets (replicate n 0)"
  by (auto simp: octets_def)

lemma octets_take: "octets ip \<Longrightarrow> octets (take n ip)" and octets_drop: "octets ip \<Longrightarrow> octets (drop n ip)"
  by (auto simp: octets_def dest: in_set_takeD in_set_dropD)

lemma octets_IPv4Fields:
  assumes "parseIPv4Fields s val digLen dot fields = Some ip" "val \<le> 255" "octets fields" "length fields \<le> 3"
  shows "length ip = 4 \<and> octets ip"
  using assms
proof (induction s arbitrary: val digLen dot fields)
  case Nil
  then show ?case by (auto split: if_splits)
next
  case (Cons c s)
  show ?case
  proof (cases "is_digit c")
    case True
    let ?v = "val * 10 + (byte_of c - 48)"
    from Cons.prems(1) True have "parseIPv4Fields s ?v (Suc digLen) False fields = Some ip" "?v \<le> 255"
      by (simp_all add: Let_def split: if_splits)
    with Cons.IH Cons.prems(3,4) show ?thesis by blast
  next
    case False
    with Cons.prems(1) have "parseIPv4Fields s 0 0 True (fields @ [val]) = Some ip" "length fields \<noteq> 3"
      by (simp_all split: if_splits)
    with Cons.IH [of 0 0 True "fields @ [val]"] Cons.prems(2-4) show ?thesis by simp
  qed
qed

lemma IPv4Fields_octets: "parseIPv4Fields s 0 0 True [] = Some ip \<Longrightarrow> length ip = 4 \<and> octets ip"
  using octets_IPv4Fields [of s 0 0 True "[]" ip] by simp

lemma octets_parseIPv4:
  assumes "parseIPv4 s = Some ip"
  shows "length ip = 16 \<and> octets ip"
proof -
  obtain f where "parseIPv4Fields s 0 0 True [] = Some f" "ip = replicate 10 0 @ [255, 255] @ f"
    using assms by (auto simp: parseIPv4_def split: option.splits)
  with IPv4Fields_octets [of s f] show ?thesis by simp
qed

lemma hex_group_bound: "hex_group s off acc = Some (off', acc', rest) \<Longrightarrow> acc \<le> 65535 \<Longrightarrow> acc' \<le> 65535"
  by (induction s off acc rule: hex_group.induct) (auto split: option.splits if_splits)

definition v6_ok :: "nat option \<Rightarrow> nat list \<Rightarrow> bool" where
  "v6_ok e ip \<longleftrightarrow> length ip \<le> 16 \<and> octets ip \<and> (\<forall>n. e = Some n \<longrightarrow> n \<le> length ip)"

lemma hex_group_acc: "hex_group s 0 0 = Some (off, acc, rest) \<Longrightarrow> acc div 256 \<le> 255 \<and> acc mod 256 \<le> 255"
  using hex_group_bound [of s 0 0 off acc rest] by auto

lemma ipv6_group_grows:
  assumes "ipv6_group s e ip = V6_Next s' e' ip'"
  shows "\<exists>a b. a \<le> 255 \<and> b \<le> 255 \<and> ip' = ip @ [a, b] \<and> (e' = e \<or> e' = Some (length ip'))"
  using assms
  by (auto simp: ipv6_group_def Let_def dest!: hex_group_acc split: option.splits if_splits list.splits)

lemma ipv6_group_breaks:
  assumes "ipv6_group s e ip = V6_Break s' e' ip'"
  shows "(\<exists>f. parseIPv4Fields s 0 0 True [] = Some f \<and> length ip + 4 \<le> 16 \<and> e' = e \<and> ip' = ip @ f) \<or>
    (\<exists>a b. a \<le> 255 \<and> b \<le> 255 \<and> ip' = ip @ [a, b] \<and> (e' = e \<or> e' = Some (length ip')))"
  using assms
  by (auto simp: ipv6_group_def Let_def dest!: hex_group_acc split: option.splits if_splits list.splits)

lemma v6_ok_grow:
  assumes "v6_ok e ip" "length ip + 2 \<le> 16" "a \<le> 255" "b \<le> 255" "e' = e \<or> e' = Some (length ip + 2)"
  shows "v6_ok e' (ip @ [a, b])"
  using assms by (auto simp: v6_ok_def intro: le_trans)

lemma ipv6_group_ok:
  assumes "v6_ok e ip" "even (length ip)" "length ip < 16"
  shows "case ipv6_group s e ip of V6_Error \<Rightarrow> True | V6_Break s' e' ip' \<Rightarrow> v6_ok e' ip'
    | V6_Next s' e' ip' \<Rightarrow> v6_ok e' ip' \<and> even (length ip')"
proof -
  have len: "length ip + 2 \<le> 16" using assms(2,3) by presburger
  show ?thesis
  proof (cases "ipv6_group s e ip")
    case (V6_Break s' e' ip')
    have "v6_ok e (ip @ f)" if "parseIPv4Fields s 0 0 True [] = Some f" "length ip + 4 \<le> 16" for f
      using IPv4Fields_octets [OF that(1)] that(2) assms(1) by (auto simp: v6_ok_def intro: le_trans)
    with ipv6_group_breaks [OF V6_Break] v6_ok_grow [OF assms(1) len] V6_Break show ?thesis by auto
  next
    case (V6_Next s' e' ip')
    then obtain a b where "a \<le> 255" "b \<le> 255" "ip' = ip @ [a, b]" "e' = e \<or> e' = Some (length ip')"
      using ipv6_group_grows [of s e ip s' e' ip'] by blast
    with v6_ok_grow [OF assms(1) len, of a b e'] assms(2) V6_Next show ?thesis by simp
  qed simp
qed

lemma ipv6_loop_ok:
  assumes "ipv6_loop s e ip = Some (rest, e', ip')" "v6_ok e ip" "even (length ip)"
  shows "v6_ok e' ip'"
  using assms
proof (induction s e ip rule: ipv6_loop.induct)
  case (1 s e ip)
  then show ?case using ipv6_group_ok [OF 1(3,4), of s]
    by (cases "length ip \<ge> 16"; cases "ipv6_group s e ip") (simp_all add: ipv6_loop.simps [of s e ip])
qed

lemma octets_parseIPv6:
  assumes "parseIPv6 s = Some ip"
  shows "length ip = 16 \<and> octets ip"
proof -
  have z: "length (replicate 16 (0::nat)) = 16 \<and> octets (replicate 16 0)" by simp
  define lead t where "lead = (take 2 s = ''::'')" and "t = (if lead then drop 2 s else s)"
  have "ip = replicate 16 0 \<or> (\<exists>e ip'. ipv6_loop t (if lead then Some 0 else None) [] = Some ([], e, ip') \<and>
     (length ip' < 16 \<and> (\<exists>n. e = Some n \<and> ip = take n ip' @ replicate (16 - length ip') 0 @ drop n ip') \<or>
      length ip' \<ge> 16 \<and> ip = ip'))"
    using assms by (auto simp: parseIPv6_def Let_def lead_def t_def split: if_splits option.splits)
  moreover have "v6_ok e ip'" if "ipv6_loop t (if lead then Some 0 else None) [] = Some ([], e, ip')" for e ip'
    using ipv6_loop_ok [OF that] by (simp add: v6_ok_def)
  ultimately show ?thesis using z
    by (elim disjE exE conjE) (auto simp: v6_ok_def intro: octets_take octets_drop)
qed

lemma octets_ParseIP: "ParseIP s = Some ip \<Longrightarrow> length ip = 16 \<and> octets ip"
  using octets_parseIPv4 octets_parseIPv6 by (auto simp: ParseIP_def split: option.splits if_splits)

lemma ipv4_of_octets: "ipv4_of s = Some ip \<Longrightarrow> length ip = 4 \<and> octets ip"
  by (auto simp: ipv4_of_def To4_def octets_drop split: option.splits if_splits dest: octets_ParseIP)

section \<open>Dotted quads are read as written\<close>

lemma fields_digit:
  assumes "d < 10" "\<not> (digLen = 1 \<and> val = 0)" "val * 10 + d \<le> 255"
  shows "parseIPv4Fields (digit_char d # s) val digLen dot fields = parseIPv4Fields s (val * 10 + d) (Suc digLen) False fields"
  using assms by (auto simp: Let_def)

lemma fields_digLen:
  "s = [] \<or> hd s = CHR ''.'' \<Longrightarrow> parseIPv4Fields s val (Suc digLen) dot fields = parseIPv4Fields s val 0 dot fields"
  by (cases s) (auto simp: is_digit_def)

lemma show_nat_octet:
  assumes "n \<le> 255"
  shows "show_nat n = (if n < 10 then [digit_char n]
    else if n < 100 then [digit_char (n div 10), digit_char (n mod 10)]
    else [digit_char (n div 100), digit_char (n div 10 mod 10), digit_char (n mod 10)])"
proof -
  have "n div 10 div 10 = n div 100" "n div 10 < 10 \<longleftrightarrow> n < 100" "n div 100 < 10"
    using assms by (auto simp: div_mult2_eq [symmetric])
  with assms show ?thesis
    by (simp add: show_nat.simps [of n] show_nat.simps [of "n div 10"] show_nat.simps [of "n div 100"])
qed

lemma fields_octet:
  assumes "n \<le> 255" "s = [] \<or> hd s = CHR ''.''"
  shows "parseIPv4Fields (show_nat n @ s) 0 0 dot fields = parseIPv4Fields s n 0 False fields"
proof -
  have three: "n div 100 * 10 + n div 10 mod 10 = n div 10" "n div 10 * 10 + n mod 10 = n"
    using div_mult_mod_eq [of "n div 10" 10] div_mult_mod_eq [of n 10] by (simp_all add: div_mult2_eq [symmetric])
  have "n < 10 \<or> 10 \<le> n \<and> n < 100 \<or> 100 \<le> n" by linarith
  then show ?thesis
  proof (elim disjE conjE)
    assume "n < 10"
    then show ?thesis using assms by (simp add: show_nat_octet fields_digit fields_digLen [OF assms(2)])
  next
    assume n: "10 \<le> n" "n < 100"
    then have "n div 10 < 10" "0 < n div 10" by auto
    then show ?thesis using assms n three by (simp add: show_nat_octet fields_digit fields_digLen [OF assms(2)] del: parseIPv4Fields.simps)
  next
    assume n: "100 \<le> n"
    then have sh: "show_nat n = [digit_char (n div 100), digit_char (n div 10 mod 10), digit_char (n mod 10)]"
      using assms(1) by (simp add: show_nat_octet)
    from n assms(1) have "n div 100 < 10" "0 < n div 100" "n div 10 \<le> 255" by auto
    then show ?thesis using assms three
      by (simp add: sh fields_digit fields_digLen [OF assms(2)] del: parseIPv4Fields.simps)
  qed
qed

lemma fields_dot:
  "s \<noteq> [] \<Longrightarrow> length fields < 3 \<Longrightarrow> parseIPv4Fields (CHR ''.'' # s) val digLen False fields = parseIPv4Fields s 0 0 True (fields @ [val])"
  by (simp add: is_digit_def)

lemma parse_dotted:
  assumes "octets [a, b, c, d]"
  shows "parseIPv4Fields (dotted a b c d) 0 0 True [] = Some [a, b, c, d]"
  using assms fields_octet [of d "[]"] unfolding dotted_def
  by (simp add: fields_octet fields_dot del: parseIPv4Fields.simps(2))

lemma first_mark_digits: "list_all is_digit s \<Longrightarrow> first_mark (s @ CHR ''.'' # t) = Some CHR ''.''"
  by (induction s) (auto simp: is_digit_def)

lemma ipv4_of_dotted:
  assumes "octets [a, b, c, d]"
  shows "ipv4_of (dotted a b c d) = Some [a, b, c, d]"
proof -
  have "first_mark (dotted a b c d) = Some CHR ''.''"
    using first_mark_digits [OF show_nat_digits] by (simp add: dotted_def)
  then show ?thesis
    using parse_dotted [OF assms] by (simp add: ipv4_of_def ParseIP_def parseIPv4_def To4_def nth_append list_all_iff)
qed

end
