(* ===== verification/Dns_Api.thy ===== *)
theory Dns_Api
  imports Net_IP
begin

text \<open>
  What the two query handlers see of CoreDNS and of the package \<^verbatim>\<open>miekg/dns\<close>,
  neither of which is in this repository. A query is given by the three values that
  \<^verbatim>\<open>request.Request\<close> derives from it; a reply is described by what the handler
  sets on the message: made by \<^verbatim>\<open>SetReply\<close> or by \<^verbatim>\<open>SetRcode\<close>, the
  authoritative flag and the answers. \<open>wmsg\<close>, a parameter of the handlers, is the error
  that \<^verbatim>\<open>WriteMsg\<close> returns for a message, if any. A call of
  \<^verbatim>\<open>plugin.NextOrFailure\<close> is the outcome \<open>NextPlugin\<close>: everything after it is
  the next plugin's. The numbers are those of RFC 1035 and RFC 3596.
\<close>

record query =
  q_Name :: string
  q_QName :: string
  q_QType :: nat

definition TypeA :: nat where "TypeA = 1"
definition TypeAAAA :: nat where "TypeAAAA = 28"
definition ClassINET :: nat where "ClassINET = 1"
definition RcodeSuccess :: nat where "RcodeSuccess = 0"
definition RcodeServerFailure :: nat where "RcodeServerFailure = 2"
definition RcodeNameError :: nat where "RcodeNameError = 3"

record a_record =
  rr_Name :: string
  rr_Rrtype :: nat
  rr_Class :: nat
  rr_Ttl :: uint32
  rr_A :: "nat list"

datatype reply_base = SetReply | SetRcode nat

record reply =
  rp_base :: reply_base
  rp_Authoritative :: bool
  rp_Answer :: "a_record list"

definition new_reply :: reply where
  "new_reply = \<lparr>rp_base = SetReply, rp_Authoritative = False, rp_Answer = []\<rparr>"

datatype outcome = Finished nat "string option" | NextPlugin

text \<open>Writing one message and returning: the messages written without an error, and the result.\<close>

definition write_reply :: "(reply \<Rightarrow> string option) \<Rightarrow> reply \<Rightarrow> nat \<Rightarrow> reply list \<times> outcome" where
  "write_reply wmsg m rcode =
     (case wmsg m of
        Some err \<Rightarrow> ([], Finished RcodeServerFailure (Some err))
      | None \<Rightarrow> ([m], Finished rcode None))"

lemmas dns_numbers = TypeA_def TypeAAAA_def RcodeSuccess_def RcodeServerFailure_def RcodeNameError_def

lemma type_A_not_AAAA [simp]: "TypeA \<noteq> TypeAAAA" "TypeAAAA \<noteq> TypeA"
  by (simp_all add: dns_numbers)

text \<open>A reply that carries, as its only answer, the address of one host for the queried name.\<close>

definition a_reply :: "query \<Rightarrow> uint32 \<Rightarrow> nat list \<Rightarrow> reply" where
  "a_reply q ttl bytes = new_reply\<lparr>rp_Authoritative := True, rp_Answer :=
     [\<lparr>rr_Name = q_QName q, rr_Rrtype = TypeA, rr_Class = ClassINET, rr_Ttl = ttl, rr_A = bytes\<rparr>]\<rparr>"

text \<open>The name a handler looks up: lower case, without one trailing dot.\<close>

definition lookup_name :: "(string \<Rightarrow> string) \<Rightarrow> query \<Rightarrow> string" where
  "lookup_name ul q = TrimSuffix (ToLower ul (q_Name q)) ''.''"

lemma ToLower_append_dot: "is_ascii h \<Longrightarrow> ToLower ul (h @ ''.'') = ToLower ul h @ ''.''"
  by (simp add: ToLower_def ascii_lower_other)

lemma lookup_name_fqdn:
  assumes "q_Name q = h @ ''.''" "is_ascii h"
  shows "lookup_name ul q = ToLower ul h"
  using assms by (simp add: lookup_name_def ToLower_append_dot)

section \<open>A handler that answers from a table\<close>

text \<open>
  What both handlers promise of the messages they write, \<open>serve\<close>, when writing does not fail:
  an A query of a name with an IPv4 address gets that address, and nothing else gets an answer.
\<close>

locale answering_table =
  fixes ul :: "string \<Rightarrow> string"
    and lookup :: "'t \<Rightarrow> hostname \<Rightarrow> ip_text option"
    and ttl :: uint32
    and serve :: "'t \<Rightarrow> query \<Rightarrow> reply list"
  assumes lookup_lower: "is_ascii h \<Longrightarrow> lookup t (ToLower ul h) = lookup t h"
    and serve_known: "q_QType q = TypeA \<Longrightarrow> lookup t (lookup_name ul q) = Some ip \<Longrightarrow> ipv4_of ip = Some bytes \<Longrightarrow>
      serve t q = [a_reply q ttl bytes]"
    and serve_other: "q_QType q \<noteq> TypeA \<or> lookup t (lookup_name ul q) = None \<or>
        (\<exists>ip. lookup t (lookup_name ul q) = Some ip \<and> ipv4_of ip = None) \<Longrightarrow>
      msg \<in> set (serve t q) \<Longrightarrow> rp_Answer msg = []"
begin

lemma lookup_fqdn: "q_Name q = h @ ''.'' \<Longrightarrow> is_ascii h \<Longrightarrow> lookup t (lookup_name ul q) = lookup t h"
  by (simp add: lookup_name_fqdn lookup_lower)

lemma fqdn_answered:
  assumes "q_QType q = TypeA" "q_Name q = h @ ''.''" "is_ascii h" "lookup t h = Some (dotted a b c d)" "octets [a, b, c, d]"
  shows "serve t q = [a_reply q ttl [a, b, c, d]]"
  by (rule serve_known [OF assms(1) _ ipv4_of_dotted [OF assms(5)]]) (simp add: lookup_fqdn assms)

lemma answers_from_table:
  assumes "msg \<in> set (serve t q)" "rp_Answer msg \<noteq> []"
  shows "\<exists>ip bytes. q_QType q = TypeA \<and> lookup t (lookup_name ul q) = Some ip \<and> ipv4_of ip = Some bytes \<and> msg = a_reply q ttl bytes"
proof -
  obtain ip bytes where "q_QType q = TypeA" "lookup t (lookup_name ul q) = Some ip" "ipv4_of ip = Some bytes"
    using serve_other [of q t msg] assms by (cases "lookup t (lookup_name ul q)"; cases "ipv4_of (the (lookup t (lookup_name ul q)))") auto
  with serve_known [of q t ip bytes] assms(1) show ?thesis by auto
qed

lemma no_record_no_answer:
  assumes "lookup t (lookup_name ul q) = None" "msg \<in> set (serve t q)"
  shows "rp_Answer msg = []"
  using assms serve_other by blast

end

end
