(* ===== verification/DC_Server.thy ===== *)
theory DC_Server
  imports DC_Watcher DC_Cluster Dns_Api
begin

text \<open>
  The query handler of \<^verbatim>\<open>docker_cluster.go\<close>, what it does with names it does
  not know, and the version endpoint with the build information of
  \<^verbatim>\<open>version/version.go\<close>. \<^verbatim>\<open>fall.F\<close> is CoreDNS's: \<open>through\<close>
  is its method \<^verbatim>\<open>Through\<close>. The record table is shared and passed explicitly.
\<close>

section \<open>The plugin\<close>

datatype UnknownAction = ActionDrop | ActionNXDomain

record ('f, 'q, 'ml) DockerCluster =
  dc_Watcher :: "('q, 'ml) ClusterManager option DockerWatcher"
  dc_TTL :: uint32
  dc_Fall :: 'f
  dc_UnknownAction :: UnknownAction
  dc_ClusterConfig :: "ClusterConfig option"
  dc_ClusterManager :: "('q, 'ml) ClusterManager option"

definition dc_Name :: string where
  "dc_Name = ''docker-cluster''"

definition handleUnknown ::
  "('f \<Rightarrow> string \<Rightarrow> bool) \<Rightarrow> (reply \<Rightarrow> string option) \<Rightarrow> ('f, 'q, 'ml) DockerCluster \<Rightarrow> query \<Rightarrow> reply list \<times> outcome" where
  "handleUnknown through wmsg dc q =
     (if through (dc_Fall dc) (q_Name q) then ([], NextPlugin)
      else case dc_UnknownAction dc of
             ActionNXDomain \<Rightarrow> write_reply wmsg (new_reply\<lparr>rp_base := SetRcode RcodeNameError\<rparr>) RcodeNameError
           | ActionDrop \<Rightarrow> ([], Finished RcodeSuccess None))"

definition ServeDNS ::
  "(string \<Rightarrow> string) \<Rightarrow> ('f \<Rightarrow> string \<Rightarrow> bool) \<Rightarrow> (reply \<Rightarrow> string option) \<Rightarrow> ('f, 'q, 'ml) DockerCluster \<Rightarrow> Records \<Rightarrow>
   query \<Rightarrow> reply list \<times> outcome" where
  "ServeDNS ul through wmsg dc r q =
     (let qname = ToLower ul (q_Name q);
          qname = TrimSuffix qname ''.'';
          found = Lookup ul r qname
      in if q_QType q = TypeAAAA \<and> found \<noteq> None then write_reply wmsg new_reply RcodeSuccess
         else if q_QType q \<noteq> TypeA then handleUnknown through wmsg dc q
         else case found of
           None \<Rightarrow> handleUnknown through wmsg dc q
         | Some ip \<Rightarrow>
             (case ParseIP ip of
                None \<Rightarrow> handleUnknown through wmsg dc q
              | Some parsedIP \<Rightarrow>
                  (case To4 parsedIP of
                     None \<Rightarrow> handleUnknown through wmsg dc q
                   | Some ip4 \<Rightarrow>
                       (let a = \<lparr>rr_Name = q_QName q, rr_Rrtype = TypeA, rr_Class = ClassINET,
                                 rr_Ttl = dc_TTL dc, rr_A = ip4\<rparr>
                        in write_reply wmsg (new_reply\<lparr>rp_Authoritative := True, rp_Answer := [a]\<rparr>) RcodeSuccess))))"

section \<open>The version endpoint\<close>

text \<open>The three variables are set by the linker, so they are parameters with the source's defaults.\<close>

record Info =
  info_Version :: string
  info_GitCommit :: string
  info_BuildTime :: string

definition default_Version :: string where "default_Version = ''dev''"
definition default_GitCommit :: string where "default_GitCommit = ''unknown''"
definition default_BuildTime :: string where "default_BuildTime = ''unknown''"

definition GetInfo :: "string \<Rightarrow> string \<Rightarrow> string \<Rightarrow> Info" where
  "GetInfo version commit built = \<lparr>info_Version = version, info_GitCommit = commit, info_BuildTime = built\<rparr>"

definition info_json :: "Info \<Rightarrow> json" where
  "info_json i = JObj [(''version'', JStr (info_Version i)), (''git_commit'', JStr (info_GitCommit i)),
     (''build_time'', JStr (info_BuildTime i))]"

text \<open>
  The calls the handler makes on the \<^verbatim>\<open>http.ResponseWriter\<close>. \<open>wr\<close> is whether
  writing a body fails; \<^verbatim>\<open>Encode\<close> ends the JSON with a newline.
\<close>

datatype http_call = SetHeader string string | WriteBody string | HttpError string nat

definition versionHandler :: "(string \<Rightarrow> bool) \<Rightarrow> Info \<Rightarrow> string \<Rightarrow> http_call list" where
  "versionHandler wr info method' =
     (if method' \<noteq> ''GET'' then [HttpError ''Method not allowed'' 405]
      else let body = show_json (info_json info) @ [char_of (10 :: nat)]
        in [SetHeader ''Content-Type'' ''application/json'', WriteBody body] @
           (if wr body then [HttpError ''Internal Server Error'' 500] else []))"

text \<open>
  The server of the version endpoint: its settings, with times in nanoseconds, the patterns of
  its multiplexer, and whether it was shut down. Whether it gets to listen only shows in the log.
\<close>

record http_server =
  srv_Addr :: string
  srv_Patterns :: "string list"
  srv_ReadTimeout :: int
  srv_WriteTimeout :: int
  srv_IdleTimeout :: int
  srv_closed :: bool

definition ServeVersionHTTP :: "string \<Rightarrow> http_server" where
  "ServeVersionHTTP addr = \<lparr>srv_Addr = addr, srv_Patterns = [''/version''], srv_ReadTimeout = 5 * 10 ^ 9,
     srv_WriteTimeout = 10 * 10 ^ 9, srv_IdleTimeout = 60 * 10 ^ 9, srv_closed = False\<rparr>"

section \<open>How a query is answered\<close>

lemma ServeDNS_A:
  "q_QType q = TypeA \<Longrightarrow> ServeDNS ul through wmsg dc r q =
     (case Lookup ul r (lookup_name ul q) of
        None \<Rightarrow> handleUnknown through wmsg dc q
      | Some ip \<Rightarrow> (case ipv4_of ip of
          None \<Rightarrow> handleUnknown through wmsg dc q
        | Some bytes \<Rightarrow> write_reply wmsg (a_reply q (dc_TTL dc) bytes) RcodeSuccess))"
  by (auto simp: ServeDNS_def lookup_name_def ipv4_of_def a_reply_def Let_def split: option.splits)

lemma ServeDNS_AAAA:
  "q_QType q = TypeAAAA \<Longrightarrow> ServeDNS ul through wmsg dc r q =
     (case Lookup ul r (lookup_name ul q) of
        None \<Rightarrow> handleUnknown through wmsg dc q
      | Some ip \<Rightarrow> write_reply wmsg new_reply RcodeSuccess)"
  by (auto simp: ServeDNS_def lookup_name_def Let_def split: option.splits)

lemma ServeDNS_other:
  "q_QType q \<noteq> TypeA \<Longrightarrow> q_QType q \<noteq> TypeAAAA \<Longrightarrow> ServeDNS ul through wmsg dc r q = handleUnknown through wmsg dc q"
  by (simp add: ServeDNS_def Let_def)

lemma write_reply_cases:
  "write_reply wmsg m rc = (ms, out) \<Longrightarrow> ms = [] \<and> (\<exists>e. wmsg m = Some e \<and> out = Finished RcodeServerFailure (Some e)) \<or>
     ms = [m] \<and> wmsg m = None \<and> out = Finished rc None"
  by (auto simp: write_reply_def split: option.splits)

lemma handleUnknown_cases:
  "handleUnknown through wmsg dc q = (ms, out) \<Longrightarrow>
     ms = [] \<and> out = NextPlugin \<and> through (dc_Fall dc) (q_Name q) \<or>
     (\<not> through (dc_Fall dc) (q_Name q) \<and> out \<noteq> NextPlugin \<and>
      (ms = [] \<or> ms = [new_reply\<lparr>rp_base := SetRcode RcodeNameError\<rparr>] \<and> dc_UnknownAction dc = ActionNXDomain))"
  by (auto simp: handleUnknown_def split: if_splits UnknownAction.splits dest!: write_reply_cases)

interpretation dcs: answering_table ul "Lookup ul" "dc_TTL dc" "\<lambda>r q. fst (ServeDNS ul through (\<lambda>_. None) dc r q)" for ul through dc
proof
  show "Lookup ul t (ToLower ul h) = Lookup ul t h" if "is_ascii h" for t h
    using that by (simp add: Lookup_def ToLower_ascii_idem)
  show "fst (ServeDNS ul through (\<lambda>_. None) dc t q) = [a_reply q (dc_TTL dc) bytes]"
    if "q_QType q = TypeA" "Lookup ul t (lookup_name ul q) = Some ip" "ipv4_of ip = Some bytes" for q t ip bytes
    using that by (simp add: ServeDNS_A write_reply_def)
  have u: "rp_Answer msg = []" if "msg \<in> set (fst (handleUnknown through (\<lambda>_. None) dc q))" for q msg
    using that by (auto simp: handleUnknown_def write_reply_def new_reply_def split: if_splits UnknownAction.splits)
  show "rp_Answer msg = []"
    if "q_QType q \<noteq> TypeA \<or> Lookup ul t (lookup_name ul q) = None \<or> (\<exists>ip. Lookup ul t (lookup_name ul q) = Some ip \<and> ipv4_of ip = None)"
      "msg \<in> set (fst (ServeDNS ul through (\<lambda>_. None) dc t q))" for q t msg
    using that by (cases "q_QType q = TypeA"; cases "q_QType q = TypeAAAA")
      (auto simp: ServeDNS_A ServeDNS_AAAA ServeDNS_other write_reply_def new_reply_def u split: option.splits)
qed

section \<open>Properties\<close>

text \<open>
  A name that resolves is answered: an A query for it, in any letter case and with the
  final dot, gets one authoritative reply with exactly one A record, under the queried name,
  with the configured time to live and the four octets of the stored address; an AAAA query
  gets one empty reply, so that a dual-stack client does not wait.
\<close>

theorem known_name_answered:
  assumes "q_Name q = h @ ''.''" "is_ascii h" "Lookup ul r h = Some (dotted a b c d)" "octets [a, b, c, d]"
    and "\<forall>m. wmsg m = None"
  shows "(q_QType q = TypeA \<longrightarrow> ServeDNS ul through wmsg dc r q =
            ([a_reply q (dc_TTL dc) [a, b, c, d]], Finished RcodeSuccess None)) \<and>
         (q_QType q = TypeAAAA \<longrightarrow> ServeDNS ul through wmsg dc r q = ([new_reply], Finished RcodeSuccess None))"
proof -
  have "Lookup ul r (lookup_name ul q) = Lookup ul r h"
    using assms(1,2) by (simp add: lookup_name_fqdn Lookup_def ToLower_ascii_idem)
  then show ?thesis using assms(3-)
    by (simp add: ServeDNS_A ServeDNS_AAAA ipv4_of_dotted write_reply_def)
qed

definition sample_dc :: "UnknownAction \<Rightarrow> (bool, unit, unit) DockerCluster" where
  "sample_dc act = \<lparr>dc_Watcher = NewDockerWatcher [] ''10.0.0.1'' [], dc_TTL = 60, dc_Fall = False, dc_UnknownAction = act,
     dc_ClusterConfig = None, dc_ClusterManager = None\<rparr>"

lemma dotted_10: "dotted 10 0 0 1 = ''10.0.0.1''"
  by (simp add: dotted_def show_eval)

theorem known_name_answered_witness:
  "ServeDNS (\<lambda>s. s) (\<lambda>f _. f) (\<lambda>_. None) (sample_dc ActionDrop) (Add (\<lambda>s. s) NewRecords ''App.lan'' ''10.0.0.1'')
     \<lparr>q_Name = ''app.lan.'', q_QName = ''aPP.lan.'', q_QType = TypeA\<rparr> =
   ([a_reply \<lparr>q_Name = ''app.lan.'', q_QName = ''aPP.lan.'', q_QType = TypeA\<rparr> 60 [10, 0, 0, 1]], Finished RcodeSuccess None)"
proof -
  have l: "Lookup (\<lambda>s. s) (Add (\<lambda>s. s) NewRecords ''App.lan'' ''10.0.0.1'') ''app.lan'' = Some (dotted 10 0 0 1)"
    unfolding dotted_10 by code_simp
  show ?thesis
    using known_name_answered [OF _ _ l, of "\<lparr>q_Name = ''app.lan.'', q_QName = ''aPP.lan.'', q_QType = TypeA\<rparr>" "\<lambda>_. None"
        "\<lambda>f _. f" "sample_dc ActionDrop"]
    by (simp add: sample_dc_def)
qed

text \<open>
  C13. Nothing else is ever answered: at most one message is written; one with answers holds a
  single A record with the address, four octets, that the table has for the name; a query
  goes to the next plugin only when fallthrough covers its name, and then nothing was
  written; a name error is sent only when it is configured.
\<close>

theorem only_table_answers:
  "case ServeDNS ul through wmsg dc r q of (ms, out) \<Rightarrow>
     length ms \<le> 1 \<and>
     (case out of NextPlugin \<Rightarrow> ms = [] \<and> through (dc_Fall dc) (q_Name q) | Finished rc err \<Rightarrow> True) \<and>
     list_all (\<lambda>m. m = new_reply \<or>
       m = new_reply\<lparr>rp_base := SetRcode RcodeNameError\<rparr> \<and> dc_UnknownAction dc = ActionNXDomain \<or>
       (\<exists>ip bytes. Lookup ul r (lookup_name ul q) = Some ip \<and> ipv4_of ip = Some bytes \<and> length bytes = 4 \<and> octets bytes \<and>
          q_QType q = TypeA \<and> m = a_reply q (dc_TTL dc) bytes)) ms"
proof -
  obtain ms out where s: "ServeDNS ul through wmsg dc r q = (ms, out)" by (cases "ServeDNS ul through wmsg dc r q")
  have "handleUnknown through wmsg dc q = (ms, out) \<or> write_reply wmsg new_reply RcodeSuccess = (ms, out) \<or>
    (\<exists>ip bytes. Lookup ul r (lookup_name ul q) = Some ip \<and> ipv4_of ip = Some bytes \<and> q_QType q = TypeA \<and>
       write_reply wmsg (a_reply q (dc_TTL dc) bytes) RcodeSuccess = (ms, out))"
    using s ServeDNS_A [of q ul through wmsg dc r] ServeDNS_AAAA [of q ul through wmsg dc r] ServeDNS_other [of q ul through wmsg dc r]
    by (cases "q_QType q = TypeA"; cases "q_QType q = TypeAAAA") (auto split: option.splits)
  then show ?thesis unfolding s prod.case
    by (elim disjE exE conjE) (auto dest!: handleUnknown_cases write_reply_cases dest: ipv4_of_octets split: outcome.splits)
qed

text \<open>
  A label with a final dot is accepted and stored but never served: the record exists in
  the table, yet the query for that very name looks up the name without the dot, which the
  record does not match, so the query is treated as unknown.
\<close>

theorem final_dot_label_unserved:
  assumes "is_ascii h" "q_Name q = h @ ''.''" "Lookup ul r h = None"
    and "isValidHostname isdom (h @ ''.'')"
  shows "Lookup ul (Add ul r (h @ ''.'') ip) (h @ ''.'') = Some ip \<and>
         ServeDNS ul through wmsg dc (Add ul r (h @ ''.'') ip) q = handleUnknown through wmsg dc q"
proof -
  have "Lookup ul (Add ul r (h @ ''.'') ip) (lookup_name ul q) = None"
    using assms(1-3) by (simp add: lookup_name_fqdn store_simps ToLower_append_dot ToLower_ascii_idem)
       (simp add: Lookup_def ToLower_ascii_idem)
  then have "q_QType q = TypeA \<Longrightarrow> ?thesis" "q_QType q = TypeAAAA \<Longrightarrow> ?thesis"
    by (simp_all add: ServeDNS_A ServeDNS_AAAA store_simps)
  moreover have "q_QType q \<noteq> TypeA \<Longrightarrow> q_QType q \<noteq> TypeAAAA \<Longrightarrow> ?thesis" by (simp add: ServeDNS_other store_simps)
  ultimately show ?thesis by blast
qed

theorem final_dot_label_unserved_witness:
  "extractHostnames (\<lambda>_. True) sample_watcher [''coredns.host.name'' \<mapsto> ''a.lan.''] = [''a.lan.''] \<and>
   ServeDNS (\<lambda>s. s) (\<lambda>f _. f) (\<lambda>_. None) (sample_dc ActionDrop) (Add (\<lambda>s. s) NewRecords ''a.lan.'' ''10.0.0.1'')
     \<lparr>q_Name = ''a.lan.'', q_QName = ''a.lan.'', q_QType = TypeA\<rparr> = ([], Finished RcodeSuccess None)"
proof -
  have n: "extractHostnames (\<lambda>_. True) sample_watcher [''coredns.host.name'' \<mapsto> ''a.lan.''] = [''a.lan.'']"
    by code_simp
  have v: "isValidHostname (\<lambda>_. True) (''a.lan'' @ ''.'')" by code_simp
  show ?thesis
    using n final_dot_label_unserved [OF _ _ _ v, of "\<lparr>q_Name = ''a.lan.'', q_QName = ''a.lan.'', q_QType = TypeA\<rparr>" "\<lambda>s. s"
        NewRecords "''10.0.0.1''" "\<lambda>f _. f" "\<lambda>_. None" "sample_dc ActionDrop"]
    by (simp add: handleUnknown_def sample_dc_def)
qed

text \<open>
  The version endpoint: a GET gets a JSON body from which the three build values can be
  read back; any other method gets status 405 and no body.
\<close>

theorem version_endpoint:
  assumes "valid_utf8 v" "valid_utf8 g" "valid_utf8 b" "\<not> wr (show_json (info_json (GetInfo v g b)) @ [char_of (10 :: nat)])"
  shows "versionHandler wr (GetInfo v g b) m = (if m = ''GET''
      then [SetHeader ''Content-Type'' ''application/json'', WriteBody (show_json (info_json (GetInfo v g b)) @ [char_of (10 :: nat)])]
      else [HttpError ''Method not allowed'' 405]) \<and>
    json_parse (show_json (info_json (GetInfo v g b))) =
      Some (JObj [(''version'', JStr v), (''git_commit'', JStr g), (''build_time'', JStr b)])"
proof -
  have "json_parse (show_json (info_json (GetInfo v g b))) = Some (info_json (GetInfo v g b))"
    using assms(1-3) by (intro json_parse_show) (simp_all add: info_json_def GetInfo_def maxNestingDepth_def ascii_valid_utf8)
  then show ?thesis using assms(4) by (simp add: versionHandler_def info_json_def GetInfo_def)
qed

theorem version_endpoint_witness:
  "versionHandler (\<lambda>_. False) (GetInfo default_Version default_GitCommit default_BuildTime) ''POST'' = [HttpError ''Method not allowed'' 405]"
  using version_endpoint [of default_Version default_GitCommit default_BuildTime "\<lambda>_. False" "''POST''"]
  by (simp add: default_Version_def default_GitCommit_def default_BuildTime_def ascii_valid_utf8)

end
