(* ===== verification/Caddy.thy ===== *)
theory Caddy
  imports Go_Prelude
begin

text \<open>
  The Corefile controller of Caddy, a package outside this repository, as the two
  \<^verbatim>\<open>parseConfig\<close> functions use it: its five methods on a type parameter for the
  controller's state, and the loops \<^verbatim>\<open>for c.Next()\<close> and
  \<^verbatim>\<open>for c.NextBlock()\<close> over them. A loop that never ends is the value
  \<open>None\<close>; \<open>advances\<close> is what makes the loops end: a method that reports success has
  consumed a token. The token controller at the end is a concrete instance with that law.
\<close>

section \<open>The controller\<close>

record 's controller =
  c_Next :: "'s \<Rightarrow> bool \<times> 's"
  c_NextArg :: "'s \<Rightarrow> bool \<times> 's"
  c_NextBlock :: "'s \<Rightarrow> bool \<times> 's"
  c_Val :: "'s \<Rightarrow> string"
  c_RemainingArgs :: "'s \<Rightarrow> string list \<times> 's"

definition advances :: "'s controller \<Rightarrow> ('s \<Rightarrow> nat) \<Rightarrow> bool" where
  "advances c left \<longleftrightarrow>
     (\<forall>s. (fst (c_Next c s) \<longrightarrow> left (snd (c_Next c s)) < left s) \<and>
          (fst (c_NextBlock c s) \<longrightarrow> left (snd (c_NextBlock c s)) < left s) \<and>
          left (snd (c_Next c s)) \<le> left s \<and> left (snd (c_NextBlock c s)) \<le> left s \<and>
          left (snd (c_NextArg c s)) \<le> left s \<and> left (snd (c_RemainingArgs c s)) \<le> left s)"

section \<open>Loops over a controller\<close>

partial_function (option) for_loop ::
  "('s \<Rightarrow> bool \<times> 's) \<Rightarrow> ('s \<Rightarrow> 'a \<Rightarrow> ('e + 's \<times> 'a) option) \<Rightarrow> 's \<Rightarrow> 'a \<Rightarrow> ('e + 's \<times> 'a) option" where
  "for_loop nxt body s a =
     (case nxt s of (ok, s1) \<Rightarrow>
        if \<not> ok then Some (Inr (s1, a))
        else case body s1 a of
          None \<Rightarrow> None
        | Some (Inl e) \<Rightarrow> Some (Inl e)
        | Some (Inr (s2, a2)) \<Rightarrow> for_loop nxt body s2 a2)"

declare for_loop.simps [code]

lemma for_loop_stop: "nxt s = (False, s1) \<Longrightarrow> for_loop nxt body s a = Some (Inr (s1, a))"
  by (simp add: for_loop.simps [of nxt body s a])

lemma for_loop_go: "nxt s = (True, s1) \<Longrightarrow> body s1 a = Some (Inr (s2, a2)) \<Longrightarrow> for_loop nxt body s a = for_loop nxt body s2 a2"
  by (simp add: for_loop.simps [of nxt body s a])

lemma for_loop_returns:
  fixes left :: "'s \<Rightarrow> nat"
  assumes nxt: "\<And>s. fst (nxt s) \<Longrightarrow> left (snd (nxt s)) < left s"
    and body: "\<And>s a. \<exists>y. body s a = Some y" "\<And>s a s' a'. body s a = Some (Inr (s', a')) \<Longrightarrow> left s' \<le> left s"
  shows "\<exists>y. for_loop nxt body s a = Some y"
proof (induction "left s" arbitrary: s a rule: less_induct)
  case less
  obtain ok s1 where n: "nxt s = (ok, s1)" by (cases "nxt s")
  obtain y where y: "body s1 a = Some y" using body(1) by blast
  show ?case
  proof (cases ok)
    case True
    show ?thesis
    proof (cases y)
      case (Inr q)
      obtain s2 a2 where q: "q = (s2, a2)" by (cases q)
      have "left s2 < left s" using nxt [of s] body(2) [of s1 a s2 a2] n True y Inr q by simp
      from less [OF this, of a2] show ?thesis using n True y Inr q by (simp add: for_loop.simps [of nxt body s a])
    qed (use n True y in \<open>simp add: for_loop.simps [of nxt body s a]\<close>)
  qed (use n in \<open>simp add: for_loop.simps [of nxt body s a]\<close>)
qed

text \<open>What holds before a loop and is kept by its steps holds when it ends without an error.\<close>

lemma for_loop_invariant:
  assumes "for_loop nxt body s a = Some (Inr (s', a'))" "P s a"
    and nxt: "\<And>s a. P s a \<Longrightarrow> P (snd (nxt s)) a"
    and body: "\<And>s a s' a'. P s a \<Longrightarrow> body s a = Some (Inr (s', a')) \<Longrightarrow> P s' a'"
  shows "P s' a'"
proof -
  let ?keeps = "\<lambda>nxt' body' s a y. nxt' = nxt \<longrightarrow> body' = body \<longrightarrow> P s a \<longrightarrow> (\<forall>s' a'. y = Inr (s', a') \<longrightarrow> P s' a')"
  have "?keeps nxt' body' s a y" if "for_loop nxt' body' s a = Some y" for nxt' body' s a y
  proof (rule for_loop.raw_induct [OF _ that, where P = ?keeps])
    fix loop nxt' body' s a y
    assume 1: "\<And>nxt' body' s a y. loop nxt' body' s a = Some y \<Longrightarrow> ?keeps nxt' body' s a y"
      "(case nxt' s of (ok, s1) \<Rightarrow> if \<not> ok then Some (Inr (s1, a))
        else case body' s1 a of None \<Rightarrow> None | Some (Inl e) \<Rightarrow> Some (Inl e) | Some (Inr (s2, a2)) \<Rightarrow> loop nxt' body' s2 a2) = Some y"
    show "?keeps nxt' body' s a y"
    proof (intro impI allI)
      fix s' a' assume eq: "nxt' = nxt" "body' = body" "y = Inr (s', a')" and P: "P s a"
      obtain ok s1 where n: "nxt s = (ok, s1)" by (cases "nxt s")
      with nxt [OF P] have P1: "P s1 a" by simp
      show "P s' a'"
      proof (cases ok)
        case True
        with 1(2) eq n obtain s2 a2 where b: "body s1 a = Some (Inr (s2, a2))" and l: "loop nxt body s2 a2 = Some y"
          by (auto split: option.splits sum.splits)
        with 1(1) [OF l] eq body [OF P1 b] show ?thesis by simp
      qed (use 1(2) eq n P1 in simp)
    qed
  qed
  with assms(1,2) show ?thesis by blast
qed

lemma for_loop_bound:
  fixes left :: "'s \<Rightarrow> nat"
  assumes "for_loop nxt body s a = Some (Inr (s', a'))"
    and "\<And>s. left (snd (nxt s)) \<le> left s" "\<And>s a s' a'. body s a = Some (Inr (s', a')) \<Longrightarrow> left s' \<le> left s"
  shows "left s' \<le> left s"
  using assms(1) by (rule for_loop_invariant [where P = "\<lambda>t _. left t \<le> left s"])
    (use assms(2,3) le_trans in blast)+

section \<open>Reading a plugin's blocks\<close>

text \<open>
  The two nested loops both \<^verbatim>\<open>parseConfig\<close> functions have: the arguments of each
  occurrence of the plugin are skipped, and \<open>directive\<close>, the switch of the inner loop, is
  applied to every line of its block.
\<close>

definition corefile_block ::
  "'s controller \<Rightarrow> ('s \<Rightarrow> 'a \<Rightarrow> 'e + 's \<times> 'a) \<Rightarrow> 's \<Rightarrow> 'a \<Rightarrow> ('e + 's \<times> 'a) option" where
  "corefile_block c directive s a =
     (case c_RemainingArgs c s of (_, s1) \<Rightarrow> for_loop (c_NextBlock c) (\<lambda>s a. Some (directive s a)) s1 a)"

definition corefile ::
  "'s controller \<Rightarrow> ('s \<Rightarrow> 'a \<Rightarrow> 'e + 's \<times> 'a) \<Rightarrow> 's \<Rightarrow> 'a \<Rightarrow> ('e + 's \<times> 'a) option" where
  "corefile c directive s a = for_loop (c_Next c) (corefile_block c directive) s a"

lemma corefile_block_returns:
  assumes "advances c left" "\<And>s a s' a'. directive s a = Inr (s', a') \<Longrightarrow> left s' \<le> left s"
  shows "\<exists>y. corefile_block c directive s a = Some y"
proof -
  have "\<exists>y. for_loop (c_NextBlock c) (\<lambda>s a. Some (directive s a)) s1 a = Some y" for s1
    by (rule for_loop_returns [of _ left]) (use assms in \<open>auto simp: advances_def\<close>)
  then show ?thesis by (simp add: corefile_block_def split: prod.split)
qed

lemma corefile_block_bound:
  assumes "advances c left" "\<And>s a s' a'. directive s a = Inr (s', a') \<Longrightarrow> left s' \<le> left s"
    and "corefile_block c directive s a = Some (Inr (s', a'))"
  shows "left s' \<le> left s"
proof -
  obtain args s1 where r: "c_RemainingArgs c s = (args, s1)" by (cases "c_RemainingArgs c s")
  with assms(1) have s1: "left s1 \<le> left s" unfolding advances_def by (metis snd_conv)
  have "for_loop (c_NextBlock c) (\<lambda>s a. Some (directive s a)) s1 a = Some (Inr (s', a'))"
    using assms(3) r by (simp add: corefile_block_def)
  then have "left s' \<le> left s1"
    by (rule for_loop_bound) (use assms(1) in \<open>simp add: advances_def\<close>, use assms(2) in blast)
  with s1 show ?thesis by simp
qed

lemma corefile_returns:
  assumes "advances c left" "\<And>s a s' a'. directive s a = Inr (s', a') \<Longrightarrow> left s' \<le> left s"
  shows "\<exists>y. corefile c directive s a = Some y"
proof -
  have "\<exists>y. corefile_block c directive s a = Some y" for s a
    using assms by (rule corefile_block_returns)
  moreover have "left s' \<le> left s" if "corefile_block c directive s a = Some (Inr (s', a'))" for s a s' a'
    using assms that by (rule corefile_block_bound)
  ultimately show ?thesis unfolding corefile_def
    by (intro for_loop_returns [of _ left]) (use assms(1) in \<open>auto simp: advances_def\<close>)
qed

lemma corefile_invariant:
  assumes "corefile c directive s a = Some (Inr (s', a'))" "P s a"
    and nxt: "\<And>s a. P s a \<Longrightarrow> P (snd (c_Next c s)) a" "\<And>s a. P s a \<Longrightarrow> P (snd (c_NextBlock c s)) a"
      "\<And>s a. P s a \<Longrightarrow> P (snd (c_RemainingArgs c s)) a"
    and directive: "\<And>s a s' a'. P s a \<Longrightarrow> directive s a = Inr (s', a') \<Longrightarrow> P s' a'"
  shows "P s' a'"
proof -
  have block: "P s' a'" if Pa: "P s a" and b: "corefile_block c directive s a = Some (Inr (s', a'))" for s a s' a'
  proof -
    have "for_loop (c_NextBlock c) (\<lambda>s a. Some (directive s a)) (snd (c_RemainingArgs c s)) a = Some (Inr (s', a'))"
      using b by (simp add: corefile_block_def case_prod_beta)
    then show ?thesis by (rule for_loop_invariant [where P = P]) (use Pa nxt directive in auto)
  qed
  from assms(1,2) nxt(1) block show ?thesis unfolding corefile_def by (rule for_loop_invariant)
qed

text \<open>
  A Corefile without a given word: whichever methods are called from the state \<open>s\<close> on, the
  controller never shows it.
\<close>

coinductive never_shows :: "'s controller \<Rightarrow> string \<Rightarrow> 's \<Rightarrow> bool" for c d where
  never_shows: "c_Val c s \<noteq> d \<Longrightarrow> never_shows c d (snd (c_Next c s)) \<Longrightarrow> never_shows c d (snd (c_NextArg c s)) \<Longrightarrow>
     never_shows c d (snd (c_NextBlock c s)) \<Longrightarrow> never_shows c d (snd (c_RemainingArgs c s)) \<Longrightarrow> never_shows c d s"

inductive_simps never_shows_unfold: "never_shows c d s"

section \<open>A token controller\<close>

text \<open>
  An instance on which the law can be seen to hold. The state: the current token, the tokens left
  and the depth of blocks. A token is its line and its text. It is for Corefiles whose braces
  match, the only ones Caddy's parser hands to a plugin: where the input ends inside a block, it
  reports the end of the block, where Caddy's own \<^verbatim>\<open>NextBlock\<close> reports another token.
\<close>

type_synonym tokens = "(nat \<times> string) \<times> (nat \<times> string) list \<times> nat"

fun tok_Next :: "tokens \<Rightarrow> bool \<times> tokens" where
  "tok_Next (cur, [], n) = (False, cur, [], n)"
| "tok_Next (cur, t # ts, n) = (True, t, ts, n)"

fun tok_NextArg :: "tokens \<Rightarrow> bool \<times> tokens" where
  "tok_NextArg (cur, [], n) = (False, cur, [], n)"
| "tok_NextArg (cur, t # ts, n) = (if fst t = fst cur then (True, t, ts, n) else (False, cur, t # ts, n))"

fun tok_NextBlock :: "tokens \<Rightarrow> bool \<times> tokens" where
  "tok_NextBlock (cur, [], n) = (False, cur, [], n)"
| "tok_NextBlock (cur, t # ts, n) =
     (if n > 0 then if snd t = ''}'' then (False, t, ts, n - 1) else (True, t, ts, n)
      else if fst t = fst cur \<and> snd t = ''{'' then
        (case ts of
           [] \<Rightarrow> (False, t, [], n)
         | t2 # ts2 \<Rightarrow> if snd t2 = ''}'' then (False, t2, ts2, n) else (True, t2, ts2, Suc n))
      else (False, cur, t # ts, n))"

function tok_RemainingArgs :: "tokens \<Rightarrow> string list \<times> tokens" where
  "tok_RemainingArgs (cur, [], n) = ([], cur, [], n)"
| "tok_RemainingArgs (cur, t # ts, n) =
     (if fst t = fst cur \<and> snd t \<noteq> ''{''
      then case tok_RemainingArgs (t, ts, n) of (args, s) \<Rightarrow> (snd t # args, s)
      else ([], cur, t # ts, n))"
  by pat_completeness auto
termination by (relation "measure (\<lambda>(cur, ts, n). length ts)") auto

definition tok_controller :: "tokens controller" where
  "tok_controller = \<lparr>c_Next = tok_Next, c_NextArg = tok_NextArg, c_NextBlock = tok_NextBlock,
     c_Val = (\<lambda>(cur, ts, n). snd cur), c_RemainingArgs = tok_RemainingArgs\<rparr>"

definition tok_left :: "tokens \<Rightarrow> nat" where
  "tok_left s = length (fst (snd s))"

lemma tok_RemainingArgs_left: "tok_left (snd (tok_RemainingArgs s)) \<le> tok_left s"
  by (induction s rule: tok_RemainingArgs.induct) (auto simp: tok_left_def split: prod.splits)

lemma tok_left_steps:
  "fst (tok_Next s) \<Longrightarrow> tok_left (snd (tok_Next s)) < tok_left s"
  "tok_left (snd (tok_Next s)) \<le> tok_left s"
  "tok_left (snd (tok_NextArg s)) \<le> tok_left s"
  "fst (tok_NextBlock s) \<Longrightarrow> tok_left (snd (tok_NextBlock s)) < tok_left s"
  "tok_left (snd (tok_NextBlock s)) \<le> tok_left s"
proof -
  obtain cur ts n where s: "s = (cur, ts, n)" by (cases s)
  show "fst (tok_Next s) \<Longrightarrow> tok_left (snd (tok_Next s)) < tok_left s" "tok_left (snd (tok_Next s)) \<le> tok_left s"
    "tok_left (snd (tok_NextArg s)) \<le> tok_left s"
    by (cases ts; simp add: s tok_left_def)+
  show "fst (tok_NextBlock s) \<Longrightarrow> tok_left (snd (tok_NextBlock s)) < tok_left s" "tok_left (snd (tok_NextBlock s)) \<le> tok_left s"
    by (cases ts; auto simp: s tok_left_def split: if_splits list.splits)+
qed

lemma tok_advances: "advances tok_controller tok_left"
  by (auto simp: advances_def tok_controller_def tok_left_steps tok_RemainingArgs_left)

lemma tok_tokens_kept:
  assumes "\<forall>t \<in> set (fst s # fst (snd s)). snd t \<noteq> d"
  shows "\<forall>t \<in> set (fst (snd (tok_Next s)) # fst (snd (snd (tok_Next s)))). snd t \<noteq> d"
    "\<forall>t \<in> set (fst (snd (tok_NextArg s)) # fst (snd (snd (tok_NextArg s)))). snd t \<noteq> d"
    "\<forall>t \<in> set (fst (snd (tok_NextBlock s)) # fst (snd (snd (tok_NextBlock s)))). snd t \<noteq> d"
    "\<forall>t \<in> set (fst (snd (tok_RemainingArgs s)) # fst (snd (snd (tok_RemainingArgs s)))). snd t \<noteq> d"
proof -
  obtain cur ts n where s: "s = (cur, ts, n)" by (cases s)
  show "\<forall>t \<in> set (fst (snd (tok_Next s)) # fst (snd (snd (tok_Next s)))). snd t \<noteq> d"
    "\<forall>t \<in> set (fst (snd (tok_NextArg s)) # fst (snd (snd (tok_NextArg s)))). snd t \<noteq> d"
    "\<forall>t \<in> set (fst (snd (tok_NextBlock s)) # fst (snd (snd (tok_NextBlock s)))). snd t \<noteq> d"
    using assms by (cases ts; auto simp: s split: list.splits)+
  show "\<forall>t \<in> set (fst (snd (tok_RemainingArgs s)) # fst (snd (snd (tok_RemainingArgs s)))). snd t \<noteq> d"
    using assms by (induction s rule: tok_RemainingArgs.induct) (auto split: prod.splits)
qed

lemma tok_never_shows:
  assumes "\<forall>t \<in> set (fst s # fst (snd s)). snd t \<noteq> d"
  shows "never_shows tok_controller d s"
  using assms
proof (coinduction arbitrary: s rule: never_shows.coinduct)
  case never_shows
  then show ?case using tok_tokens_kept [OF never_shows] by (auto simp: tok_controller_def case_prod_beta)
qed

end
