(* ===== verification/DC_Setup.thy ===== *)
theory DC_Setup
  imports DC_Server Caddy
begin

text \<open>
  The setup of \<^verbatim>\<open>docker-cluster/setup.go\<close>: reading the Corefile block, the
  environment, the checks, and the wiring of watcher, cluster manager and record table. The
  environment is the function \<open>getenv\<close> (empty for an unset variable), the host name is the
  parameter \<open>os_hostname\<close>; the zones of \<^verbatim>\<open>fallthrough\<close> are CoreDNS's:
  \<open>f0\<close> is the zero value of \<^verbatim>\<open>fall.F\<close> and \<open>setzones\<close> its method
  \<^verbatim>\<open>SetZonesFromArgs\<close>.
\<close>

section \<open>Reading the Corefile\<close>

datatype dc_setup_error =
    DcArgErr
  | DcInvalidTTL string
  | DcInvalidUnknownAction string
  | DcInvalidClusterPort string
  | DcSecretInCorefile
  | DcInvalidDiscoveryPort string
  | DcUnknownProperty string
  | DcInvalidEnv string string
  | DcHostIPRequired
  | DcClusterConfig config_error

record 'f dc_vars =
  v_dockerSocket :: string
  v_hostIP :: string
  v_labels :: "string list"
  v_ttl :: uint32
  v_fall :: 'f
  v_unknownAction :: UnknownAction
  v_clusterConfig :: ClusterConfig

definition dc_defaults :: "'f \<Rightarrow> 'f dc_vars" where
  "dc_defaults f0 = \<lparr>v_dockerSocket = ''unix:///var/run/docker.sock'', v_hostIP = [], v_labels = [], v_ttl = 60,
     v_fall = f0, v_unknownAction = ActionDrop, v_clusterConfig = NewClusterConfig\<rparr>"

definition parseUnknownAction :: "(string \<Rightarrow> string) \<Rightarrow> string \<Rightarrow> UnknownAction option" where
  "parseUnknownAction ul s =
     (if ToLower ul s \<in> {''drop'', ''timeout'', ''none''} then Some ActionDrop
      else if ToLower ul s = ''nxdomain'' then Some ActionNXDomain
      else None)"

definition is_yes :: "(string \<Rightarrow> string) \<Rightarrow> string \<Rightarrow> bool" where
  "is_yes ul s = (let val = ToLower ul s in val = ''true'' \<or> val = ''1'' \<or> val = ''yes'')"

definition split_seeds :: "string \<Rightarrow> string list" where
  "split_seeds s = map TrimSpace (split_on CHR '','' s)"

text \<open>The arms that take one argument: an error without one, else the continuation on its value.\<close>

definition one_arg :: "'s controller \<Rightarrow> 's \<Rightarrow> (string \<Rightarrow> dc_setup_error + 'a) \<Rightarrow> dc_setup_error + 's \<times> 'a" where
  "one_arg c s k =
     (case c_NextArg c s of (ok, s) \<Rightarrow>
        if \<not> ok then Inl DcArgErr
        else case k (c_Val c s) of Inl err \<Rightarrow> Inl err | Inr a \<Rightarrow> Inr (s, a))"

text \<open>The body of the inner loop: the switch on the directive.\<close>

definition dc_directive ::
  "(string \<Rightarrow> string) \<Rightarrow> ('f \<Rightarrow> string list \<Rightarrow> 'f) \<Rightarrow> 's controller \<Rightarrow> 's \<Rightarrow> 'f dc_vars \<Rightarrow> dc_setup_error + 's \<times> 'f dc_vars" where
  "dc_directive ul setzones c s v =
     (let cc = v_clusterConfig v; d = c_Val c s
      in if d = ''docker_socket'' then one_arg c s (\<lambda>x. Inr (v\<lparr>v_dockerSocket := x\<rparr>))
         else if d = ''host_ip'' then one_arg c s (\<lambda>x. Inr (v\<lparr>v_hostIP := x\<rparr>))
         else if d = ''label'' then
           (case c_RemainingArgs c s of (args, s) \<Rightarrow>
              if length args = 0 then Inl DcArgErr else Inr (s, v\<lparr>v_labels := v_labels v @ args\<rparr>))
         else if d = ''ttl'' then
           one_arg c s (\<lambda>x. case ParseUint x 32 of None \<Rightarrow> Inl (DcInvalidTTL x) | Some n \<Rightarrow> Inr (v\<lparr>v_ttl := of_nat n\<rparr>))
         else if d = ''fallthrough'' then
           (case c_RemainingArgs c s of (args, s) \<Rightarrow> Inr (s, v\<lparr>v_fall := setzones (v_fall v) args\<rparr>))
         else if d = ''unknown_action'' then
           one_arg c s (\<lambda>x. case parseUnknownAction ul x of None \<Rightarrow> Inl (DcInvalidUnknownAction x)
             | Some a \<Rightarrow> Inr (v\<lparr>v_unknownAction := a\<rparr>))
         else if d = ''cluster_enabled'' then
           one_arg c s (\<lambda>x. Inr (v\<lparr>v_clusterConfig := cc\<lparr>cfg_Enabled := is_yes ul x\<rparr>\<rparr>))
         else if d = ''cluster_port'' then
           one_arg c s (\<lambda>x. case Atoi x of None \<Rightarrow> Inl (DcInvalidClusterPort x)
             | Some p \<Rightarrow> Inr (v\<lparr>v_clusterConfig := cc\<lparr>cfg_Port := p\<rparr>\<rparr>))
         else if d = ''cluster_seeds'' then
           one_arg c s (\<lambda>x. Inr (v\<lparr>v_clusterConfig := cc\<lparr>cfg_Seeds := split_seeds x\<rparr>\<rparr>))
         else if d = ''node_name'' then
           one_arg c s (\<lambda>x. Inr (v\<lparr>v_clusterConfig := cc\<lparr>cfg_NodeName := x\<rparr>\<rparr>))
         else if d = ''cluster_bind_addr'' then
           one_arg c s (\<lambda>x. Inr (v\<lparr>v_clusterConfig := cc\<lparr>cfg_BindAddr := x\<rparr>\<rparr>))
         else if d = ''cluster_secret'' then Inl DcSecretInCorefile
         else if d = ''discovery_port'' then
           one_arg c s (\<lambda>x. case Atoi x of None \<Rightarrow> Inl (DcInvalidDiscoveryPort x)
             | Some p \<Rightarrow> Inr (v\<lparr>v_clusterConfig := cc\<lparr>cfg_DiscoveryPort := p\<rparr>\<rparr>))
         else Inl (DcUnknownProperty d))"

section \<open>The environment\<close>

text \<open>Each override is a variable and what its value does; an empty variable does nothing.\<close>

definition upd_cluster :: "(ClusterConfig \<Rightarrow> ClusterConfig) \<Rightarrow> 'f dc_vars \<Rightarrow> 'f dc_vars" where
  "upd_cluster f v = v\<lparr>v_clusterConfig := f (v_clusterConfig v)\<rparr>"

definition env_int :: "string \<Rightarrow> (int \<Rightarrow> ClusterConfig \<Rightarrow> ClusterConfig) \<Rightarrow> string \<Rightarrow> 'f dc_vars \<Rightarrow> dc_setup_error + 'f dc_vars" where
  "env_int name f x v = (case Atoi x of None \<Rightarrow> Inl (DcInvalidEnv name x) | Some p \<Rightarrow> Inr (upd_cluster (f p) v))"

text \<open>The overrides in the order of the code: first the legacy names, then the others.\<close>

definition legacy_steps :: "(string \<Rightarrow> string) \<Rightarrow> (string \<times> (string \<Rightarrow> 'f dc_vars \<Rightarrow> dc_setup_error + 'f dc_vars)) list" where
  "legacy_steps ul =
     [(''JOYRIDE_ENABLE_SERF'', \<lambda>x v. Inr (upd_cluster (\<lambda>cc. cc\<lparr>cfg_Enabled := is_yes ul x\<rparr>) v)),
      (''JOYRIDE_NXDOMAIN_ENABLED'', \<lambda>x v. Inr (if is_yes ul x then v\<lparr>v_unknownAction := ActionNXDomain\<rparr> else v))]"

definition env_steps :: "(string \<Rightarrow> string) \<Rightarrow> (string \<times> (string \<Rightarrow> 'f dc_vars \<Rightarrow> dc_setup_error + 'f dc_vars)) list" where
  "env_steps ul =
     [(''HOSTIP'', \<lambda>x v. Inr (v\<lparr>v_hostIP := x\<rparr>)),
      (''DOCKER_SOCKET'', \<lambda>x v. Inr (v\<lparr>v_dockerSocket := x\<rparr>)),
      (''DNS_UNKNOWN_ACTION'', \<lambda>x v. case parseUnknownAction ul x of
         None \<Rightarrow> Inl (DcInvalidEnv ''DNS_UNKNOWN_ACTION'' x) | Some a \<Rightarrow> Inr (v\<lparr>v_unknownAction := a\<rparr>)),
      (''CLUSTER_ENABLED'', \<lambda>x v. Inr (upd_cluster (\<lambda>cc. cc\<lparr>cfg_Enabled := is_yes ul x\<rparr>) v)),
      (''CLUSTER_PORT'', env_int ''CLUSTER_PORT'' (\<lambda>p cc. cc\<lparr>cfg_Port := p\<rparr>)),
      (''CLUSTER_SEEDS'', \<lambda>x v. Inr (upd_cluster (\<lambda>cc. cc\<lparr>cfg_Seeds := split_seeds x\<rparr>) v)),
      (''NODE_NAME'', \<lambda>x v. Inr (upd_cluster (\<lambda>cc. cc\<lparr>cfg_NodeName := x\<rparr>) v)),
      (''CLUSTER_BIND_ADDR'', \<lambda>x v. Inr (upd_cluster (\<lambda>cc. cc\<lparr>cfg_BindAddr := x\<rparr>) v)),
      (''CLUSTER_SECRET'', \<lambda>x v. Inr (upd_cluster (\<lambda>cc. cc\<lparr>cfg_SecretKey := x\<rparr>) v)),
      (''DISCOVERY_PORT'', env_int ''DISCOVERY_PORT'' (\<lambda>p cc. cc\<lparr>cfg_DiscoveryPort := p\<rparr>))]"

fun run_steps ::
  "(string \<Rightarrow> string) \<Rightarrow> (string \<times> (string \<Rightarrow> 'v \<Rightarrow> dc_setup_error + 'v)) list \<Rightarrow> 'v \<Rightarrow> dc_setup_error + 'v" where
  "run_steps getenv [] v = Inr v"
| "run_steps getenv ((name, f) # steps) v =
     (if getenv name \<noteq> []
      then case f (getenv name) v of Inl err \<Rightarrow> Inl err | Inr v' \<Rightarrow> run_steps getenv steps v'
      else run_steps getenv steps v)"

definition dc_env :: "(string \<Rightarrow> string) \<Rightarrow> (string \<Rightarrow> string) \<Rightarrow> 'f dc_vars \<Rightarrow> dc_setup_error + 'f dc_vars" where
  "dc_env ul getenv v = run_steps getenv (legacy_steps ul @ env_steps ul) v"

section \<open>The configuration\<close>

definition dc_finish ::
  "string option \<Rightarrow> 'f dc_vars \<Rightarrow> dc_setup_error + ('f, 'q, 'ml) DockerCluster" where
  "dc_finish os_hostname v =
     (if v_hostIP v = [] then Inl DcHostIPRequired
      else case Validate os_hostname (v_clusterConfig v) of
        Inl err \<Rightarrow> Inl (DcClusterConfig err)
      | Inr cc \<Rightarrow>
          (let labels = (if length (v_labels v) = 0 then [''coredns.host.name'', ''joyride.host.name''] else v_labels v)
           in Inr \<lparr>dc_Watcher = NewDockerWatcher (v_dockerSocket v) (v_hostIP v) labels, dc_TTL = v_ttl v,
                dc_Fall = v_fall v, dc_UnknownAction = v_unknownAction v, dc_ClusterConfig = Some cc,
                dc_ClusterManager = None\<rparr>))"

definition parseConfig ::
  "(string \<Rightarrow> string) \<Rightarrow> 'f \<Rightarrow> ('f \<Rightarrow> string list \<Rightarrow> 'f) \<Rightarrow> (string \<Rightarrow> string) \<Rightarrow> string option \<Rightarrow> 's controller \<Rightarrow> 's \<Rightarrow>
   (dc_setup_error + ('f, 'q, 'ml) DockerCluster) option" where
  "parseConfig ul f0 setzones getenv os_hostname c s =
     (case corefile c (dc_directive ul setzones c) s (dc_defaults f0) of
        None \<Rightarrow> None
      | Some (Inl err) \<Rightarrow> Some (Inl err)
      | Some (Inr (_, v)) \<Rightarrow>
          Some (case dc_env ul getenv v of Inl err \<Rightarrow> Inl err | Inr v \<Rightarrow> dc_finish os_hostname v))"

section \<open>Wiring\<close>

text \<open>The callback that announces the watcher's changes to the cluster manager.\<close>

definition cluster_callback ::
  "(string \<Rightarrow> string) \<Rightarrow> ('q \<Rightarrow> broadcast \<Rightarrow> 'q) \<Rightarrow> ('q, 'ml) ClusterManager option RecordChangeCallback" where
  "cluster_callback ul queueb hostname ip added timestamp s =
     (case s of
        (None, r) \<Rightarrow> (None, r)
      | (Some cm, r) \<Rightarrow>
          (case (if added then NotifyRecordAdd ul queueb (cm, r) hostname ip timestamp
                 else NotifyRecordRemove ul queueb (cm, r) hostname timestamp) of
             (cm, r) \<Rightarrow> (Some cm, r)))"

datatype ('f, 'q, 'ml) dc_setup_result =
    DcSetupPanic
  | DcConfigError dc_setup_error
  | DcManagerError config_error
  | DcStartError string
  | DcRunning "('f, 'q, 'ml) DockerCluster" http_server

text \<open>
  \<^verbatim>\<open>setup\<close> after the configuration was read, up to the registration of the handler:
  the cluster manager if clustering is on, the watcher, and the server of the version endpoint.
  Joining runs in a goroutine of its own.
\<close>

definition version_addr :: "(string \<Rightarrow> string) \<Rightarrow> string" where
  "version_addr getenv = (if getenv ''COREDNS_VERSION_PORT'' = [] then '':8081'' else getenv ''COREDNS_VERSION_PORT'')"

definition dc_setup ::
  "(string \<Rightarrow> string) \<Rightarrow> (string \<Rightarrow> string) \<Rightarrow> ('q \<Rightarrow> broadcast \<Rightarrow> 'q) \<Rightarrow> 'ml memberlist_api \<Rightarrow> string option \<Rightarrow> 'q \<Rightarrow> bool \<Rightarrow>
   dc_setup_error + ('f, 'q, 'ml) DockerCluster \<Rightarrow> ('f, 'q, 'ml) dc_setup_result" where
  "dc_setup ul getenv queueb api os_hostname q bind_ok parsed =
     (case parsed of
        Inl err \<Rightarrow> DcConfigError err
      | Inr dc \<Rightarrow>
          (let run = (\<lambda>dc. DcRunning (dc\<lparr>dc_Watcher := watcher_Start (dc_Watcher dc)\<rparr>) (ServeVersionHTTP (version_addr getenv)))
           in if (case dc_ClusterConfig dc of None \<Rightarrow> False | Some cc \<Rightarrow> cfg_Enabled cc) then
                (case NewClusterManager os_hostname q (dc_ClusterConfig dc) of
                   Inl err \<Rightarrow> DcManagerError err
                 | Inr None \<Rightarrow> DcSetupPanic
                 | Inr (Some cm) \<Rightarrow>
                     (let dc = dc\<lparr>dc_Watcher := SetCallback (Some (cluster_callback ul queueb)) (dc_Watcher dc)\<rparr>
                      in case Start api bind_ok cm of
                           Panicked \<Rightarrow> DcSetupPanic
                         | Returned (Some err, cm) \<Rightarrow> DcStartError err
                         | Returned (None, cm) \<Rightarrow> run (dc\<lparr>dc_ClusterManager := Some cm\<rparr>)))
              else run dc))"

text \<open>The whole function: reading the configuration first.\<close>

definition plugin_setup ::
  "(string \<Rightarrow> string) \<Rightarrow> 'f \<Rightarrow> ('f \<Rightarrow> string list \<Rightarrow> 'f) \<Rightarrow> (string \<Rightarrow> string) \<Rightarrow> ('q \<Rightarrow> broadcast \<Rightarrow> 'q) \<Rightarrow> 'ml memberlist_api \<Rightarrow>
   string option \<Rightarrow> 'q \<Rightarrow> bool \<Rightarrow> 's controller \<Rightarrow> 's \<Rightarrow> ('f, 'q, 'ml) dc_setup_result option" where
  "plugin_setup ul f0 setzones getenv queueb api os_hostname q bind_ok c s =
     (case parseConfig ul f0 setzones getenv os_hostname c s of
        None \<Rightarrow> None
      | Some parsed \<Rightarrow> Some (dc_setup ul getenv queueb api os_hostname q bind_ok parsed))"

text \<open>The shutdown handler: the watcher first, then the manager, then the server.\<close>

definition dc_shutdown ::
  "'ml memberlist_api \<Rightarrow> ('f, 'q, 'ml) DockerCluster \<times> http_server \<Rightarrow> ('f, 'q, 'ml) DockerCluster \<times> http_server" where
  "dc_shutdown api s =
     (case s of (dc, srv) \<Rightarrow>
        let dc = dc\<lparr>dc_Watcher := watcher_Stop (dc_Watcher dc)\<rparr>;
            dc = (case dc_ClusterManager dc of
                    None \<Rightarrow> dc
                  | Some cm \<Rightarrow> dc\<lparr>dc_ClusterManager := Some (fst (snd (Stop api cm)))\<rparr>)
        in (dc, srv\<lparr>srv_closed := True\<rparr>))"

section \<open>What reading a configuration ensures\<close>

lemma run_steps_append:
  "run_steps getenv (xs @ ys) v = (case run_steps getenv xs v of Inl err \<Rightarrow> Inl err | Inr v' \<Rightarrow> run_steps getenv ys v')"
  by (induction xs arbitrary: v) (auto split: sum.splits)

lemma run_steps_keeps:
  assumes "run_steps getenv steps v = Inr v'" "P v"
    and "\<And>name f v v'. (name, f) \<in> set steps \<Longrightarrow> getenv name \<noteq> [] \<Longrightarrow> P v \<Longrightarrow> f (getenv name) v = Inr v' \<Longrightarrow> P v'"
  shows "P v'"
  using assms
proof (induction steps arbitrary: v)
  case (Cons st steps)
  obtain name f where st: "st = (name, f)" by (cases st)
  have rest: "P w'" if "(n, g) \<in> set steps" "getenv n \<noteq> []" "P w" "g (getenv n) w = Inr w'" for n g w w'
    using Cons.prems(3) [of n g w w'] that by simp
  show ?case
  proof (cases "getenv name = []")
    case True
    with Cons.prems(1) st have "run_steps getenv steps v = Inr v'" by simp
    then show ?thesis using Cons.prems(2) rest by (rule Cons.IH)
  next
    case False
    then obtain w where w: "f (getenv name) v = Inr w" "run_steps getenv steps w = Inr v'"
      using Cons.prems(1) st by (auto split: sum.splits)
    have "P w" using Cons.prems(3) [of name f v w] False Cons.prems(2) w(1) st by simp
    with w(2) show ?thesis using rest by (rule Cons.IH)
  qed
qed simp

text \<open>A step that assigns one field from its variable, with no later step touching the field.\<close>

lemma run_steps_assigns:
  assumes "run_steps getenv (xs @ (name, \<lambda>x v. Inr (upd x v)) # ys) v = Inr v'" "getenv name \<noteq> []"
    and "\<And>x v. get (upd x v) = x"
    and "\<And>n f v v'. (n, f) \<in> set ys \<Longrightarrow> f (getenv n) v = Inr v' \<Longrightarrow> get v' = get v"
  shows "get v' = getenv name"
proof -
  obtain w where "run_steps getenv ys (upd (getenv name) w) = Inr v'"
    using assms(1,2) by (auto simp: run_steps_append split: sum.splits)
  then show ?thesis by (rule run_steps_keeps) (use assms(3,4) in auto)
qed

lemma upd_cluster_simps [simp]:
  "v_clusterConfig (upd_cluster f v) = f (v_clusterConfig v)" "v_hostIP (upd_cluster f v) = v_hostIP v"
  "v_unknownAction (upd_cluster f v) = v_unknownAction v"
  by (simp_all add: upd_cluster_def)

lemmas env_defs = legacy_steps_def env_steps_def env_int_def

lemma env_hostIP:
  assumes "dc_env ul getenv v = Inr v'" "getenv ''HOSTIP'' \<noteq> []"
  shows "v_hostIP v' = getenv ''HOSTIP''"
  using assms(1) unfolding dc_env_def env_steps_def
  by (rule run_steps_assigns [where name = "''HOSTIP''"]) (use assms(2) in \<open>auto simp: env_int_def split: option.splits\<close>)

lemma env_secret:
  assumes "dc_env ul getenv v = Inr v'"
  shows "cfg_SecretKey (v_clusterConfig v') = (if getenv ''CLUSTER_SECRET'' \<noteq> [] then getenv ''CLUSTER_SECRET'' else cfg_SecretKey (v_clusterConfig v))"
proof (cases "getenv ''CLUSTER_SECRET'' = []")
  case True
  have "cfg_SecretKey (v_clusterConfig v') = cfg_SecretKey (v_clusterConfig v)"
    using assms unfolding dc_env_def
    by (rule run_steps_keeps) (use True in \<open>auto simp: env_defs split: option.splits if_splits\<close>)
  with True show ?thesis by simp
next
  case False
  let ?xs = "legacy_steps ul @ take 8 (env_steps ul)"
  have "run_steps getenv (?xs @ (''CLUSTER_SECRET'', \<lambda>x v. Inr (upd_cluster (\<lambda>cc. cc\<lparr>cfg_SecretKey := x\<rparr>) v)) # drop 9 (env_steps ul)) v = Inr v'"
    using assms unfolding dc_env_def by (simp add: env_steps_def)
  then have "cfg_SecretKey (v_clusterConfig v') = getenv ''CLUSTER_SECRET''"
    by (rule run_steps_assigns) (use False in \<open>auto simp: env_steps_def env_int_def split: option.splits\<close>)
  with False show ?thesis by simp
qed

lemma directive_secret:
  "dc_directive ul setzones c s v = Inr (s', v') \<Longrightarrow> cfg_SecretKey (v_clusterConfig v') = cfg_SecretKey (v_clusterConfig v)"
  by (auto simp: dc_directive_def one_arg_def Let_def split: if_splits prod.splits sum.splits option.splits)

lemma dc_directive_bound:
  assumes "advances c left" "dc_directive ul setzones c s v = Inr (s', v')"
  shows "left s' \<le> left s"
proof -
  have arg: "left (snd (c_NextArg c s)) \<le> left s" "left (snd (c_RemainingArgs c s)) \<le> left s"
    using assms(1) by (simp_all add: advances_def)
  have "s' = snd (c_NextArg c s) \<or> s' = snd (c_RemainingArgs c s)"
    using assms(2) by (auto simp: dc_directive_def one_arg_def Let_def split: if_splits prod.splits sum.splits)
  with arg show ?thesis by auto
qed

lemma corefile_secret:
  assumes "corefile c (dc_directive ul setzones c) s (dc_defaults f0) = Some (Inr (s', v))"
  shows "cfg_SecretKey (v_clusterConfig v) = []"
  using assms
  by (rule corefile_invariant [where P = "\<lambda>_ v. cfg_SecretKey (v_clusterConfig v) = []"])
     (simp_all add: dc_defaults_def NewClusterConfig_def directive_secret)

lemma dc_finish_valid:
  assumes "dc_finish h v = Inr dc"
  shows "v_hostIP v \<noteq> [] \<and> dw_hostIP (dc_Watcher dc) = v_hostIP v \<and> dw_labels (dc_Watcher dc) \<noteq> [] \<and>
    (\<exists>cc. dc_ClusterConfig dc = Some cc \<and> Validate h (v_clusterConfig v) = Inr cc)"
  using assms by (auto simp: dc_finish_def NewDockerWatcher_def Let_def split: if_splits sum.splits)

lemma Validate_secret: "Validate h c = Inr c' \<Longrightarrow> cfg_SecretKey c' = cfg_SecretKey c"
  by (auto simp: Validate_def Let_def split: if_splits option.splits)

section \<open>What setup leaves behind\<close>

lemma dc_setup_clustered:
  assumes "dc_ClusterConfig dc = Some cc" "cfg_Enabled cc"
    and "dc_setup ul getenv queueb api os_hostname q bind_ok (Inr dc) = DcRunning dc' srv"
  shows "dw_callback (dc_Watcher dc') = Some (cluster_callback ul queueb) \<and>
    (\<exists>cm. dc_ClusterManager dc' = Some cm \<and> Validate os_hostname cc = Inr (cm_config cm) \<and>
       cm_delegate cm = Some (delegate_Start (NewClusterDelegate (cfg_NodeName (cm_config cm)) q)))"
proof (cases "Validate os_hostname cc")
  case (Inr c')
  with assms show ?thesis
    by (auto simp: dc_setup_def NewClusterManager_def Start_def SetCallback_def watcher_Start_def Let_def
        split: sum.splits if_splits)
qed (use assms in \<open>simp add: dc_setup_def NewClusterManager_def\<close>)

lemma dc_setup_alone:
  assumes "dc_ClusterConfig dc = Some cc" "\<not> cfg_Enabled cc"
  shows "dc_setup ul getenv queueb api os_hostname q bind_ok (Inr dc) =
    DcRunning (dc\<lparr>dc_Watcher := watcher_Start (dc_Watcher dc)\<rparr>) (ServeVersionHTTP (version_addr getenv))"
  using assms by (simp add: dc_setup_def)

lemma dc_setup_frame:
  assumes "dc_setup ul getenv queueb api os_hostname q bind_ok (Inr dc) = DcRunning dc' srv"
  shows "dw_running (dc_Watcher dc') \<and> dw_hostIP (dc_Watcher dc') = dw_hostIP (dc_Watcher dc) \<and>
    dw_labels (dc_Watcher dc') = dw_labels (dc_Watcher dc) \<and> dc_ClusterConfig dc' = dc_ClusterConfig dc \<and>
    dc_TTL dc' = dc_TTL dc \<and> dc_Fall dc' = dc_Fall dc \<and> dc_UnknownAction dc' = dc_UnknownAction dc \<and>
    srv = ServeVersionHTTP (version_addr getenv)"
  using assms
  by (auto simp: dc_setup_def SetCallback_def watcher_Start_def Let_def
      split: sum.splits if_splits option.splits go_result.splits prod.splits)

lemma dc_setup_no_panic: "dc_setup ul getenv queueb api os_hostname q bind_ok parsed \<noteq> DcSetupPanic"
  by (auto simp: dc_setup_def NewClusterManager_def Start_def Let_def split: sum.splits option.splits go_result.splits prod.splits if_splits)


definition parsed_ok :: "(string \<Rightarrow> string) \<Rightarrow> ('f, 'q, 'ml) DockerCluster \<Rightarrow> bool" where
  "parsed_ok getenv dc \<longleftrightarrow> dw_hostIP (dc_Watcher dc) \<noteq> [] \<and>
     (getenv ''HOSTIP'' \<noteq> [] \<longrightarrow> dw_hostIP (dc_Watcher dc) = getenv ''HOSTIP'') \<and> dw_labels (dc_Watcher dc) \<noteq> [] \<and>
     dw_callback (dc_Watcher dc) = None \<and> dc_ClusterManager dc = None \<and>
     (\<exists>cc. dc_ClusterConfig dc = Some cc \<and> valid_config cc \<and> cfg_SecretKey cc = getenv ''CLUSTER_SECRET'')"

definition running_ok ::
  "(string \<Rightarrow> string) \<Rightarrow> ('q \<Rightarrow> broadcast \<Rightarrow> 'q) \<Rightarrow> 'q \<Rightarrow> (string \<Rightarrow> string) \<Rightarrow> ('f, 'q, 'ml) DockerCluster \<Rightarrow> bool" where
  "running_ok ul queueb q getenv dc \<longleftrightarrow> dw_running (dc_Watcher dc) \<and> dw_hostIP (dc_Watcher dc) \<noteq> [] \<and>
     (getenv ''HOSTIP'' \<noteq> [] \<longrightarrow> dw_hostIP (dc_Watcher dc) = getenv ''HOSTIP'') \<and> dw_labels (dc_Watcher dc) \<noteq> [] \<and>
     (\<exists>cc. dc_ClusterConfig dc = Some cc \<and> valid_config cc \<and> cfg_SecretKey cc = getenv ''CLUSTER_SECRET'' \<and>
        (if cfg_Enabled cc
         then dw_callback (dc_Watcher dc) = Some (cluster_callback ul queueb) \<and>
              (\<exists>cm. dc_ClusterManager dc = Some cm \<and> valid_config (cm_config cm) \<and>
                 cm_delegate cm = Some (delegate_Start (NewClusterDelegate (cfg_NodeName (cm_config cm)) q)))
         else dw_callback (dc_Watcher dc) = None \<and> dc_ClusterManager dc = None))"

lemma parse_steps_ok:
  assumes "corefile c (dc_directive ul setzones c) s (dc_defaults f0) = Some (Inr (s', v))"
    and "dc_env ul getenv v = Inr v'" "dc_finish os_hostname v' = Inr dc"
  shows "parsed_ok getenv dc"
proof -
  have "dw_callback (dc_Watcher dc) = None" "dc_ClusterManager dc = None"
    using assms(3) by (auto simp: dc_finish_def NewDockerWatcher_def Let_def split: if_splits sum.splits)
  then show ?thesis unfolding parsed_ok_def
    using corefile_secret [OF assms(1)] env_secret [OF assms(2)] env_hostIP [OF assms(2)]
      dc_finish_valid [OF assms(3)] Validate_valid Validate_secret by force
qed

lemma parseConfig_returns:
  assumes "advances c left"
  shows "\<exists>res. parseConfig ul f0 setzones getenv os_hostname c s = Some res"
proof -
  obtain y where "corefile c (dc_directive ul setzones c) s (dc_defaults f0) = Some y"
    using corefile_returns [OF assms, of "dc_directive ul setzones c"] dc_directive_bound [OF assms] by blast
  then show ?thesis by (simp add: parseConfig_def split: sum.splits)
qed

lemma parseConfig_checked:
  "parseConfig ul f0 setzones getenv os_hostname c s = Some (Inr dc) \<Longrightarrow> parsed_ok getenv dc"
  by (auto simp: parseConfig_def split: option.splits sum.splits dest: parse_steps_ok)

lemma dc_setup_running:
  assumes "parsed_ok getenv dc" "dc_setup ul getenv queueb api os_hostname q bind_ok (Inr dc) = DcRunning dc' srv"
  shows "running_ok ul queueb q getenv dc'"
proof -
  obtain cc where cc: "dc_ClusterConfig dc = Some cc" "valid_config cc" "cfg_SecretKey cc = getenv ''CLUSTER_SECRET''"
    using assms(1) by (auto simp: parsed_ok_def)
  note frame = dc_setup_frame [OF assms(2)]
  show ?thesis
  proof (cases "cfg_Enabled cc")
    case True
    from dc_setup_clustered [OF cc(1) True assms(2)] Validate_valid cc frame assms(1) True
    show ?thesis unfolding running_ok_def parsed_ok_def by fastforce
  next
    case False
    with dc_setup_alone [OF cc(1) False, of ul getenv queueb api os_hostname q bind_ok] assms cc frame
    show ?thesis by (auto simp: running_ok_def parsed_ok_def watcher_Start_def)
  qed
qed

section \<open>A watcher wired to the cluster\<close>

text \<open>What a container with one new name does to a clustered node.\<close>

lemma update_announces:
  assumes "dw_callback dw = Some (cluster_callback ul queueb)" "dw_containers dw cid = None" "cm_delegate cm = Some d"
  shows "updateContainer ul ts cid [h] (dw, Some cm, r) =
    (dw\<lparr>dw_containers := (dw_containers dw)(cid \<mapsto> [h])\<rparr>,
     Some (cm\<lparr>cm_delegate := Some (BroadcastRecord queueb d (add_msg h (dw_hostIP dw) ts (cfg_NodeName (cm_config cm))))\<rparr>),
     apply_msg ul (add_msg h (dw_hostIP dw) ts (cfg_NodeName (cm_config cm))) (Add ul r h (dw_hostIP dw)))"
  using assms
  by (simp add: updateContainer_def Let_def call_each_def cluster_callback_def NotifyRecordAdd_def notify_def)

section \<open>Properties\<close>

definition sample_tokens :: tokens where
  "sample_tokens = ((0, []), [(1, ''docker-cluster''), (1, ''{''), (2, ''host_ip''), (2, ''10.0.0.1''),
     (3, ''cluster_enabled''), (3, ''true''), (4, ''node_name''), (4, ''n1''), (5, ''}'')], 0)"

text \<open>
  C11. Setting the plugin up: with a controller that consumes its tokens, reading the Corefile
  ends, and setup never panics. When the plugin runs, its watcher runs, it has a host address
  (the environment's if that is set) and at least one label; its cluster configuration is
  valid and the cluster secret is exactly the environment's, as nothing in the Corefile can
  set it. With clustering enabled the watcher's changes go to a manager whose delegate was
  started under the node's name; without it there is no callback and no manager. The version
  endpoint has the address of \<^verbatim>\<open>COREDNS_VERSION_PORT\<close>, or the default one.
\<close>

theorem setup_outcome:
  assumes "advances c left"
  shows "\<exists>res :: ('f, 'q, 'ml) dc_setup_result.
    plugin_setup ul f0 setzones getenv queueb api os_hostname q bind_ok c s = Some res \<and> res \<noteq> DcSetupPanic \<and>
    (\<forall>dc srv. res = DcRunning dc srv \<longrightarrow> srv = ServeVersionHTTP (version_addr getenv) \<and> dw_running (dc_Watcher dc) \<and> dw_hostIP (dc_Watcher dc) \<noteq> [] \<and>
       (getenv ''HOSTIP'' \<noteq> [] \<longrightarrow> dw_hostIP (dc_Watcher dc) = getenv ''HOSTIP'') \<and> dw_labels (dc_Watcher dc) \<noteq> [] \<and>
       (\<exists>cc. dc_ClusterConfig dc = Some cc \<and> valid_config cc \<and> cfg_SecretKey cc = getenv ''CLUSTER_SECRET'' \<and>
          (if cfg_Enabled cc
           then dw_callback (dc_Watcher dc) = Some (cluster_callback ul queueb) \<and>
                (\<exists>cm. dc_ClusterManager dc = Some cm \<and> valid_config (cm_config cm) \<and>
                   cm_delegate cm = Some (delegate_Start (NewClusterDelegate (cfg_NodeName (cm_config cm)) q)))
           else dw_callback (dc_Watcher dc) = None \<and> dc_ClusterManager dc = None)))"
proof -
  let ?res = "plugin_setup ul f0 setzones getenv queueb api os_hostname q bind_ok c s :: ('f, 'q, 'ml) dc_setup_result option"
  obtain p :: "dc_setup_error + ('f, 'q, 'ml) DockerCluster"
    where p: "parseConfig ul f0 setzones getenv os_hostname c s = Some p"
    by (rule exE [OF parseConfig_returns [OF assms]])
  then have res: "?res = Some (dc_setup ul getenv queueb api os_hostname q bind_ok p)" by (simp add: plugin_setup_def)
  have run: "running_ok ul queueb q getenv dc \<and> srv = ServeVersionHTTP (version_addr getenv)"
    if "dc_setup ul getenv queueb api os_hostname q bind_ok p = DcRunning dc srv" for dc srv
  proof (cases p)
    case (Inl e)
    with that show ?thesis by (simp add: dc_setup_def)
  next
    case (Inr dc0)
    with that have "dc_setup ul getenv queueb api os_hostname q bind_ok (Inr dc0) = DcRunning dc srv" by simp
    from dc_setup_running [OF parseConfig_checked this] dc_setup_frame [OF this] p Inr show ?thesis by simp
  qed
  show ?thesis
    by (rule exI, rule conjI, rule res, rule conjI, rule dc_setup_no_panic)
       (use run in \<open>simp add: running_ok_def\<close>)
qed

lemma sample_vars:
  "corefile tok_controller (dc_directive (\<lambda>s. s) (\<lambda>f args. args) tok_controller) sample_tokens (dc_defaults []) =
     Some (Inr (((5, ''}''), [], 0), (dc_defaults [])\<lparr>v_hostIP := ''10.0.0.1'',
       v_clusterConfig := NewClusterConfig\<lparr>cfg_Enabled := True, cfg_NodeName := ''n1''\<rparr>\<rparr>))"
  by (simp add: corefile_def corefile_block_def sample_tokens_def tok_controller_def dc_directive_def one_arg_def Let_def
      for_loop_stop for_loop_go dc_defaults_def is_yes_def lower_eval NewClusterConfig_def)

lemma sample_runs:
  "\<exists>dc srv cc. plugin_setup (\<lambda>s. s) [] (\<lambda>f args. args) (\<lambda>_. []) (\<lambda>q b. q @ [b]) sample_api None [] True tok_controller sample_tokens =
     Some (DcRunning dc srv :: (string list, broadcast list, unit) dc_setup_result) \<and> dc_ClusterConfig dc = Some cc \<and> cfg_Enabled cc"
  unfolding plugin_setup_def parseConfig_def sample_vars
  by (simp add: dc_env_def env_defs dc_finish_def Validate_def NewClusterConfig_def dc_defaults_def dc_setup_def
      NewClusterManager_def Start_def sample_api_def Let_def)

theorem setup_outcome_witness:
  "\<exists>dc srv cm. plugin_setup (\<lambda>s. s) [] (\<lambda>f args. args) (\<lambda>_. []) (\<lambda>q b. q @ [b]) sample_api None [] True tok_controller sample_tokens =
     Some (DcRunning dc srv :: (string list, broadcast list, unit) dc_setup_result) \<and> srv_Addr srv = '':8081'' \<and>
     dw_callback (dc_Watcher dc) = Some (cluster_callback (\<lambda>s. s) (\<lambda>q b. q @ [b])) \<and> dc_ClusterManager dc = Some cm \<and>
     cm_delegate cm = Some (delegate_Start (NewClusterDelegate (cfg_NodeName (cm_config cm)) []))"
proof -
  obtain dc srv cc where run: "plugin_setup (\<lambda>s. s) [] (\<lambda>f args. args) (\<lambda>_. []) (\<lambda>q b. q @ [b]) sample_api None [] True tok_controller
      sample_tokens = Some (DcRunning dc srv :: (string list, broadcast list, unit) dc_setup_result)"
    and cc: "dc_ClusterConfig dc = Some cc" "cfg_Enabled cc"
    using sample_runs by blast
  from setup_outcome [OF tok_advances, of "\<lambda>s. s" "[]" "\<lambda>f args. args" "\<lambda>_. []" "\<lambda>q b. q @ [b]" sample_api None "[]" True sample_tokens]
  show ?thesis unfolding run using cc by (auto simp: ServeVersionHTTP_def version_addr_def)
qed

text \<open>
  Shutting down stops everything setup started: the watcher, the manager, which then announces
  nothing more, and the server.
\<close>

theorem shutdown_is_complete:
  fixes dc :: "('f, 'q, 'ml) DockerCluster"
  assumes "dc_shutdown api (dc, srv) = (dc', srv')"
  shows "\<not> dw_running (dc_Watcher dc') \<and> srv_closed srv' \<and>
    (case dc_ClusterManager dc' of None \<Rightarrow> dc_ClusterManager dc = None
     | Some cm \<Rightarrow> stopped cm \<and> cluster_callback ul queueb h ip added ts (Some cm, r) = (Some cm, r))"
proof -
  have w: "\<not> dw_running (watcher_Stop (dc_Watcher dc))"
    by (simp add: watcher_Stop_def closeClient_def watcher_cancel_def)
  have cb: "cluster_callback ul queueb h ip added ts (Some cm, r) = (Some cm, r)" if "stopped cm" for cm :: "('q, 'ml) ClusterManager"
    using that by (simp add: cluster_callback_def NotifyRecordAdd_def NotifyRecordRemove_def stopped_def)
  from assms w show ?thesis by (auto simp: dc_shutdown_def Let_def cb stopped_Stop split: option.splits)
qed

text \<open>
  The legacy variable \<^verbatim>\<open>JOYRIDE_NXDOMAIN_ENABLED\<close> set to a value other than yes
  leaves the action of the Corefile in place: a Corefile with \<^verbatim>\<open>nxdomain\<close> keeps it.
\<close>

theorem legacy_false_keeps_action:
  assumes "\<not> is_yes ul (getenv ''JOYRIDE_NXDOMAIN_ENABLED'')" "getenv ''DNS_UNKNOWN_ACTION'' = []"
    and "dc_env ul getenv v = Inr v'"
  shows "v_unknownAction v' = v_unknownAction v"
  using assms(3) unfolding dc_env_def
  by (rule run_steps_keeps) (use assms(1,2) in \<open>auto simp: env_defs split: option.splits if_splits\<close>)

theorem legacy_false_keeps_action_witness:
  "\<exists>v'. dc_env (\<lambda>s. s) (\<lambda>n. if n = ''JOYRIDE_NXDOMAIN_ENABLED'' then ''false'' else [])
     ((dc_defaults ())\<lparr>v_unknownAction := ActionNXDomain\<rparr>) = Inr v' \<and> v_unknownAction v' = ActionNXDomain"
proof -
  let ?g = "\<lambda>n. if n = ''JOYRIDE_NXDOMAIN_ENABLED'' then ''false'' else []" and ?v = "(dc_defaults ())\<lparr>v_unknownAction := ActionNXDomain\<rparr>"
  have n: "\<not> is_yes (\<lambda>s. s) (?g ''JOYRIDE_NXDOMAIN_ENABLED'')" by (simp add: is_yes_def lower_eval)
  have e: "dc_env (\<lambda>s. s) ?g ?v = Inr ?v" using n by (simp add: dc_env_def env_defs)
  from legacy_false_keeps_action [OF n _ e] e show ?thesis by simp
qed

text \<open>
  The host address is not checked: any nonempty text is accepted, and when it is not an
  IPv4 address every A query of a known container name is treated as unknown.
\<close>

theorem bad_host_ip_accepted:
  assumes "v_hostIP v \<noteq> []" "ipv4_of (v_hostIP v) = None" "Validate h (v_clusterConfig v) = Inr cc"
    and "q_QType q = TypeA" "Lookup ul r (lookup_name ul q) = Some (v_hostIP v)"
  shows "\<exists>dc. dc_finish h v = Inr dc \<and> dw_hostIP (dc_Watcher dc) = v_hostIP v \<and>
    ServeDNS ul through wmsg dc r q = handleUnknown through wmsg dc q"
  using assms by (simp add: dc_finish_def NewDockerWatcher_def Let_def ServeDNS_A)

theorem bad_host_ip_accepted_witness:
  "\<exists>dc :: (bool, unit, unit) DockerCluster. dc_finish None ((dc_defaults False)\<lparr>v_hostIP := ''localhost''\<rparr>) = Inr dc \<and>
     ServeDNS (\<lambda>s. s) (\<lambda>f _. f) (\<lambda>_. None) dc (Add (\<lambda>s. s) NewRecords ''a.lan'' ''localhost'')
       \<lparr>q_Name = ''a.lan.'', q_QName = ''a.lan.'', q_QType = TypeA\<rparr> =
     handleUnknown (\<lambda>f _. f) (\<lambda>_. None) dc \<lparr>q_Name = ''a.lan.'', q_QName = ''a.lan.'', q_QType = TypeA\<rparr>"
proof -
  let ?v = "(dc_defaults False)\<lparr>v_hostIP := ''localhost''\<rparr>" and ?q = "\<lparr>q_Name = ''a.lan.'', q_QName = ''a.lan.'', q_QType = TypeA\<rparr>"
  have ip: "ipv4_of (v_hostIP ?v) = None" by (simp add: ipv4_of_def ParseIP_def)
  have val: "Validate None (v_clusterConfig ?v) = Inr NewClusterConfig" by (simp add: Validate_def NewClusterConfig_def dc_defaults_def)
  have l: "Lookup (\<lambda>s. s) (Add (\<lambda>s. s) NewRecords ''a.lan'' ''localhost'') (lookup_name (\<lambda>s. s) ?q) = Some (v_hostIP ?v)"
    by (simp add: lookup_name_def Lookup_def Add_def TrimSuffix_def HasSuffix_def lower_eval)
  have "\<exists>dc :: (bool, unit, unit) DockerCluster. dc_finish None ?v = Inr dc \<and> dw_hostIP (dc_Watcher dc) = v_hostIP ?v \<and>
     ServeDNS (\<lambda>s. s) (\<lambda>f _. f) (\<lambda>_. None) dc (Add (\<lambda>s. s) NewRecords ''a.lan'' ''localhost'') ?q = handleUnknown (\<lambda>f _. f) (\<lambda>_. None) dc ?q"
    by (rule bad_host_ip_accepted [OF _ ip val _ l]) simp_all
  then show ?thesis by blast
qed

text \<open>
  A container of a clustered node is announced: starting a container with one new name, on
  a node whose table has no later stamp for it, makes the name resolve to the node's address
  under the node's own stamp and queues the very message that its peers apply.
\<close>

theorem container_is_announced:
  assumes "dw_callback dw = Some (cluster_callback ul queueb)" "dw_containers dw cid = None" "cm_delegate cm = Some d"
    and "\<forall>m. GetMeta ul r h = Some m \<longrightarrow> meta_stamp m < stamp ts (cfg_NodeName (cm_config cm))"
    and "updateContainer ul ts cid [h] (dw, Some cm, r) = (dw', cmo, r')"
  shows "Lookup ul r' h = Some (dw_hostIP dw) \<and>
    GetMeta ul r' h = Some \<lparr>meta_Timestamp = ts, meta_NodeID = cfg_NodeName (cm_config cm)\<rparr> \<and>
    cmo = Some (cm\<lparr>cm_delegate := Some (BroadcastRecord queueb d (add_msg h (dw_hostIP dw) ts (cfg_NodeName (cm_config cm))))\<rparr>)"
proof -
  have "\<not> lww_rejects (r_meta r (ToLower ul h)) ts (cfg_NodeName (cm_config cm))"
    using assms(4) by (cases "r_meta r (ToLower ul h)") (auto simp: GetMeta_def)
  with assms(5) update_announces [OF assms(1-3), of ts h r] show ?thesis
    by (auto simp: add_msg_def ApplyMessage_def AddWithMeta_def Lookup_def GetMeta_def Let_def)
qed

definition clustered_watcher :: "(broadcast list, unit) ClusterManager option DockerWatcher" where
  "clustered_watcher = SetCallback (Some (cluster_callback (\<lambda>s. s) (\<lambda>q b. q @ [b]))) (NewDockerWatcher [] ''10.0.0.1'' [])"

lemma clustered_watcher_sel:
  "dw_callback clustered_watcher = Some (cluster_callback (\<lambda>s. s) (\<lambda>q b. q @ [b]))"
  "dw_containers clustered_watcher = Map.empty" "dw_hostIP clustered_watcher = ''10.0.0.1''"
  by (simp_all add: clustered_watcher_def SetCallback_def NewDockerWatcher_def)

theorem container_is_announced_witness:
  "Lookup (\<lambda>s. s) (snd (snd (updateContainer (\<lambda>s. s) 5 ''c1'' [''a.lan'']
     (clustered_watcher,
      Some (sample_manager ''n1''), NewRecords)))) ''a.lan'' = Some ''10.0.0.1''"
proof -
  let ?dw = clustered_watcher
  obtain dw' cmo r' where u: "updateContainer (\<lambda>s. s) 5 ''c1'' [''a.lan''] (?dw, Some (sample_manager ''n1''), NewRecords) = (dw', cmo, r')"
    by (cases "updateContainer (\<lambda>s. s) 5 ''c1'' [''a.lan''] (?dw, Some (sample_manager ''n1''), NewRecords)")
  have "Lookup (\<lambda>s. s) r' ''a.lan'' = Some (dw_hostIP ?dw)"
    by (rule container_is_announced [OF _ _ _ _ u, THEN conjunct1])
       (simp_all add: clustered_watcher_sel sample_manager_def GetMeta_def NewRecords_def)
  then show ?thesis by (simp add: u clustered_watcher_sel)
qed

text \<open>
  C39. A local container overrides a later stamp without taking it: when the table already holds
  the name with a stamp that is not older (another node's clock may be ahead), the node answers
  with its own address but keeps the other node's stamp. A peer that holds the name with that
  stamp and another address refuses the announcement, and full state exchanges do not settle it
  either, however many of them follow: both keep answering differently.
\<close>

theorem local_add_diverges:
  assumes "dw_callback dw = Some (cluster_callback ul queueb)" "dw_containers dw cid = None" "cm_delegate cm = Some d"
    and "lower_ok ul" "GetMeta ul r h = Some m" "stamp ts (cfg_NodeName (cm_config cm)) \<le> meta_stamp m"
    and "updateContainer ul ts cid [h] (dw, Some cm, r) = (dw', cmo, r')"
    and peer: "Lookup ul rb h = Some ip" "GetMeta ul rb h = Some m" "ip \<noteq> dw_hostIP dw"
    and clean: "wf_records ul r" "wf_records ul rb" "utf8_records r" "utf8_records rb" "valid_utf8 (dw_hostIP dw)"
      "valid_utf8 (d_nodeID d)" "valid_utf8 (d_nodeID db)"
    and "(exchange ul d db)\<^sup>*\<^sup>* (r', rb) (r'', rb'')"
  shows "apply_msg ul (add_msg h (dw_hostIP dw) ts (cfg_NodeName (cm_config cm))) rb = rb \<and>
    Lookup ul r' h = Some (dw_hostIP dw) \<and>
    Lookup ul r'' h = Some (dw_hostIP dw) \<and> Lookup ul rb'' h = Some ip \<and> Lookup ul r'' h \<noteq> Lookup ul rb'' h"
proof -
  let ?k = "ToLower ul h"
  have rej: "lww_rejects (r_meta r ?k) ts (cfg_NodeName (cm_config cm))" "lww_rejects (r_meta rb ?k) ts (cfg_NodeName (cm_config cm))"
    using assms(5,6) peer(2) by (simp_all add: GetMeta_def)
  have r': "r' = Add ul r h (dw_hostIP dw)"
    using assms(7) rej(1) update_announces [OF assms(1-3), of ts h r]
    by (simp add: add_msg_def ApplyMessage_def AddWithMeta_def Add_def)
  have "valid_utf8 ?k" using peer(1) clean(4) by (auto simp: utf8_records_def Lookup_def)
  then have "utf8_records r'" using clean(3,5) by (auto simp: r' utf8_records_def Add_def split: if_splits)
  moreover have "reg r' ?k = (Some (dw_hostIP dw), Some m)" "reg rb ?k = (Some ip, Some m)"
    using assms(5) peer(1,2) by (simp_all add: r' reg_def Add_def GetMeta_def Lookup_def)
  ultimately have "tied ul ?k m (Some (dw_hostIP dw)) (Some ip) (r', rb)"
    using clean(1,2,4) assms(4) by (simp add: tied_def r' wf_Add)
  then have "tied ul ?k m (Some (dw_hostIP dw)) (Some ip) (r'', rb'')"
    using tie.inv_run [OF assms(18)] assms(4) clean(6,7) by blast
  then have "Lookup ul r'' h = Some (dw_hostIP dw)" "Lookup ul rb'' h = Some ip" by (simp_all add: tied_def reg_Lookup)
  with rej(2) peer(3) show ?thesis
    by (simp add: r' store_simps add_msg_def ApplyMessage_def AddWithMeta_def)
qed

theorem local_add_diverges_witness:
  "\<exists>dw' cmo r' r'' rb''. updateContainer (\<lambda>s. s) 5 ''c1'' [''a.com'']
      (clustered_watcher, Some (sample_manager ''n1''), sample_table ''a.com'' ''2.2.2.2'' 9 ''n2'') = (dw', cmo, r') \<and>
    exchange (\<lambda>s. s) (NewClusterDelegate ''n1'' [] :: broadcast list ClusterDelegate) (NewClusterDelegate ''n2'' ())
      (r', sample_table ''a.com'' ''2.2.2.2'' 9 ''n2'') (r'', rb'') \<and>
    Lookup (\<lambda>s. s) r'' ''a.com'' = Some ''10.0.0.1'' \<and> Lookup (\<lambda>s. s) rb'' ''a.com'' = Some ''2.2.2.2''"
proof -
  let ?dw = clustered_watcher and ?cm = "sample_manager ''n1''" and ?d = "NewClusterDelegate ''n1'' [] :: broadcast list ClusterDelegate"
  let ?r = "sample_table ''a.com'' ''2.2.2.2'' 9 ''n2''" and ?db = "NewClusterDelegate ''n2'' ()"
  obtain dw' cmo r' where u: "updateContainer (\<lambda>s. s) 5 ''c1'' [''a.com''] (?dw, Some ?cm, ?r) = (dw', cmo, r')"
    by (cases "updateContainer (\<lambda>s. s) 5 ''c1'' [''a.com''] (?dw, Some ?cm, ?r)")
  obtain r'' rb'' where e: "exchange (\<lambda>s. s) ?d ?db (r', ?r) (r'', rb'')" using exchange_possible by blast
  then have es: "(exchange (\<lambda>s. s) ?d ?db)\<^sup>*\<^sup>* (r', ?r) (r'', rb'')" by blast
  have m: "GetMeta (\<lambda>s. s) ?r ''a.com'' = Some \<lparr>meta_Timestamp = 9, meta_NodeID = ''n2''\<rparr>" by (simp add: GetMeta_def lower_eval)
  have "apply_msg (\<lambda>s. s) (add_msg ''a.com'' (dw_hostIP ?dw) 5 (cfg_NodeName (cm_config ?cm))) ?r = ?r \<and>
      Lookup (\<lambda>s. s) r' ''a.com'' = Some (dw_hostIP ?dw) \<and>
      Lookup (\<lambda>s. s) r'' ''a.com'' = Some (dw_hostIP ?dw) \<and> Lookup (\<lambda>s. s) rb'' ''a.com'' = Some ''2.2.2.2'' \<and>
      Lookup (\<lambda>s. s) r'' ''a.com'' \<noteq> Lookup (\<lambda>s. s) rb'' ''a.com''"
    by (rule local_add_diverges [where d = ?d and db = ?db and cm = ?cm, OF _ _ _ lower_ok_id m _ u _ m _ _ _ _ _ _ _ _ es])
       (simp_all add: clustered_watcher_sel sample_manager_def lower_eval stamp_def meta_stamp_def Lookup_def sample_table_ok
          NewClusterDelegate_def ascii_valid_utf8)
  with u e show ?thesis unfolding clustered_watcher_sel by blast
qed

end
