(* ===== verification/TE_Records.thy ===== *)
theory TE_Records
  imports Interfaces
begin

text \<open>
  The record table of \<^verbatim>\<open>traefik-externals/records.go\<close>: one map from lower-case
  host names to addresses. An operation stores a new map in the atomic value, so the table is
  that map. \<^verbatim>\<open>ReplaceAll\<close> iterates over the new map in the order \<open>ord\<close> the
  runtime picks; two keys that differ only in letter case would make the order matter.
\<close>

section \<open>Operations\<close>

type_synonym te_Records = "string go_map"

definition te_NewRecords :: te_Records where
  "te_NewRecords = Map.empty"

definition te_Add :: "(string \<Rightarrow> string) \<Rightarrow> te_Records \<Rightarrow> hostname \<Rightarrow> string \<Rightarrow> te_Records" where
  "te_Add ul current hostname ip = current(ToLower ul hostname \<mapsto> ip)"

definition te_Remove :: "(string \<Rightarrow> string) \<Rightarrow> te_Records \<Rightarrow> hostname \<Rightarrow> te_Records" where
  "te_Remove ul current hostname =
     (let hostname = ToLower ul hostname
      in case current hostname of
           None \<Rightarrow> current
         | Some _ \<Rightarrow> current |` (- {hostname}))"

definition te_Lookup :: "(string \<Rightarrow> string) \<Rightarrow> te_Records \<Rightarrow> hostname \<Rightarrow> string option" where
  "te_Lookup ul current hostname = current (ToLower ul hostname)"

definition te_GetAll :: "te_Records \<Rightarrow> string go_map" where
  "te_GetAll current = current"

definition te_Count :: "te_Records \<Rightarrow> nat" where
  "te_Count current = card (dom current)"

definition te_ReplaceAll ::
  "(string \<Rightarrow> string) \<Rightarrow> (string go_map \<Rightarrow> string list) \<Rightarrow> string go_map \<Rightarrow> te_Records \<Rightarrow> te_Records" where
  "te_ReplaceAll ul ord newRecords current =
     foldl (\<lambda>normalized k. case newRecords k of None \<Rightarrow> normalized | Some v \<Rightarrow> normalized(ToLower ul k \<mapsto> v))
       Map.empty (ord newRecords)"

section \<open>The contract of a record store\<close>

lemma te_Lookup_Add [store_simps]:
  "te_Lookup ul (te_Add ul r h ip) h' = (if ToLower ul h' = ToLower ul h then Some ip else te_Lookup ul r h')"
  by (simp add: te_Lookup_def te_Add_def)

lemma te_Lookup_Remove [store_simps]:
  "te_Lookup ul (te_Remove ul r h) h' = (if ToLower ul h' = ToLower ul h then None else te_Lookup ul r h')"
  by (auto simp: te_Lookup_def te_Remove_def Let_def restrict_map_def split: option.splits)

interpretation tes: record_store te_NewRecords "te_Add ul" "te_Remove ul" "te_Lookup ul" "ToLower ul" for ul
  by unfold_locales (simp_all add: store_simps, simp add: te_Lookup_def te_NewRecords_def)

section \<open>Replacing all records\<close>

lemma ReplaceAll_fold:
  assumes "\<forall>k \<in> set ks. ToLower ul k = k"
  shows "foldl (\<lambda>n k. case new k of None \<Rightarrow> n | Some v \<Rightarrow> n(ToLower ul k \<mapsto> v)) m ks = m ++ (new |` set ks)"
  using assms
proof (induction ks arbitrary: m)
  case (Cons k ks)
  then show ?case
    by (cases "new k") (auto simp: fun_eq_iff restrict_map_def map_add_def split: option.splits)
qed simp

text \<open>With lower-case keys the new table is the given map, whatever was stored and whatever the order.\<close>

lemma ReplaceAll_lower:
  assumes "range_order ord" "finite (dom new)" "\<forall>k \<in> dom new. ToLower ul k = k"
  shows "te_ReplaceAll ul ord new r = new"
proof -
  have s: "set (ord new) = dom new" using assms(1,2) by (simp add: range_order_def)
  have "\<forall>k \<in> set (ord new). ToLower ul k = k" using assms(3) s by simp
  from ReplaceAll_fold [OF this, of new Map.empty] show ?thesis
    unfolding te_ReplaceAll_def s by (simp add: restrict_map_def fun_eq_iff domIff)
qed

section \<open>Properties\<close>

text \<open>
  A reload replaces the whole table: when the host names of the new map are in lower
  case, a lookup afterwards gives what the new map has for the lowered name, nothing of the
  old table is left and the count is the size of the new map.
\<close>

theorem reload_replaces_table:
  assumes "range_order ord" "finite (dom new)" "\<forall>k \<in> dom new. ToLower ul k = k"
  shows "te_Lookup ul (te_ReplaceAll ul ord new r) h = new (ToLower ul h) \<and>
         te_Count (te_ReplaceAll ul ord new r) = card (dom new)"
  using ReplaceAll_lower [OF assms] by (simp add: te_Lookup_def te_Count_def)

theorem reload_replaces_table_witness:
  "te_Lookup (\<lambda>s. s) (te_ReplaceAll (\<lambda>s. s) sorted_order [''a.lan'' \<mapsto> ''10.0.0.1'']
     (te_Add (\<lambda>s. s) te_NewRecords ''old.lan'' ''10.0.0.9'')) ''old.lan'' = None"
  using reload_replaces_table [OF range_order_sorted, of "[''a.lan'' \<mapsto> ''10.0.0.1'']" "\<lambda>s. s"
      "te_Add (\<lambda>s. s) te_NewRecords ''old.lan'' ''10.0.0.9''" "''old.lan''"]
  by (simp add: lower_eval)

end
