(* ===== verification/TE_Parser.thy ===== *)
theory TE_Parser
  imports Go_Prelude
begin

text \<open>
  The parser of \<^verbatim>\<open>traefik-externals/parser.go\<close>: it strips YAML comments, finds
  the arguments of \<^verbatim>\<open>Host(...)\<close> and \<^verbatim>\<open>HostSNI(...)\<close> rules and
  resolves environment templates. Go's \<^verbatim>\<open>regexp\<close> finds leftmost matches, one
  after the other. The patterns are written out as matchers at the start of a text: each has
  at most one match there, since the repeated classes exclude the byte that has to follow
  them. All delimiters are ASCII, so matching runes and matching bytes is the same.
\<close>

section \<open>Leftmost matches\<close>

text \<open>A matcher gives the length of the match at the start of a text and its capture group.\<close>

type_synonym matcher = "string \<Rightarrow> (nat \<times> string) option"

function find_all :: "matcher \<Rightarrow> string \<Rightarrow> (string \<times> string) list" where
  "find_all m [] = []"
| "find_all m (c # s) =
     (case m (c # s) of
        None \<Rightarrow> find_all m s
      | Some (n, grp) \<Rightarrow> (take n (c # s), grp) # find_all m (drop (n - 1) s))"
  by pat_completeness auto
termination by (relation "measure (\<lambda>(m, s). length s)") auto

definition has_prefix :: "string \<Rightarrow> string \<Rightarrow> bool" where
  "has_prefix p s \<longleftrightarrow> take (length p) s = p"

text \<open>\<open>between p c\<close>: the literal \<open>p\<close>, one or more bytes other than \<open>c\<close> (the group), then \<open>c\<close>.\<close>

definition between :: "string \<Rightarrow> char \<Rightarrow> matcher" where
  "between p close s =
     (if has_prefix p s then
        let rest = drop (length p) s; inner = takeWhile (\<lambda>c. c \<noteq> close) rest
        in if inner \<noteq> [] \<and> length inner < length rest then Some (length p + length inner + 1, inner) else None
      else None)"

definition hostPattern :: matcher where
  "hostPattern = between ''Host('' CHR '')''"

definition hostSNIPattern :: matcher where
  "hostSNIPattern = between ''HostSNI('' CHR '')''"

definition hostRegexpPattern :: "string \<Rightarrow> bool" where
  "hostRegexpPattern content \<longleftrightarrow> (\<exists>i < length content. has_prefix ''HostRegexp('' (drop i content))"

definition backtickPattern :: matcher where
  "backtickPattern = between ''`'' CHR ''`''"

text \<open>The class \<^verbatim>\<open>\s\<close> of RE2: tab, newline, form feed, carriage return, space.\<close>

definition re_space :: "char \<Rightarrow> bool" where
  "re_space c \<longleftrightarrow> byte_of c \<in> {9, 10, 12, 13, 32}"

definition envPattern :: matcher where
  "envPattern s =
     (if has_prefix ''{{env'' s then
        let rest = drop 5 s; ws = takeWhile re_space rest; rest = drop (length ws) rest
        in if ws = [] \<or> \<not> has_prefix [CHR 0x22] rest then None
           else let rest = drop 1 rest; inner = takeWhile (\<lambda>c. c \<noteq> CHR 0x22) rest; rest = drop (length inner) rest
             in if inner \<noteq> [] \<and> has_prefix (CHR 0x22 # ''}}'') rest
                then Some (5 + length ws + 1 + length inner + 3, inner) else None
      else None)"

section \<open>The parser\<close>

text \<open>The patterns are fixed; a parser is its copy of the environment.\<close>

record Parser =
  p_envVars :: "string go_map"

definition maxFileSize :: nat where
  "maxFileSize = 2 ^ 20"

definition NewParserWithEnv :: "string go_map \<Rightarrow> Parser" where
  "NewParserWithEnv envVars = \<lparr>p_envVars = envVars\<rparr>"

text \<open>\<^verbatim>\<open>strings.SplitN(env, "=", 2)\<close>, and the loop over \<^verbatim>\<open>os.Environ()\<close>.\<close>

definition split2 :: "char \<Rightarrow> string \<Rightarrow> string list" where
  "split2 sep s =
     (let a = takeWhile (\<lambda>c. c \<noteq> sep) s
      in if length a < length s then [a, drop (length a + 1) s] else [s])"

definition loadEnvVars :: "string list \<Rightarrow> string go_map" where
  "loadEnvVars environ =
     foldl (\<lambda>vars env. case split2 CHR ''='' env of [k, v] \<Rightarrow> vars(k \<mapsto> v) | _ \<Rightarrow> vars) Map.empty environ"

definition NewParser :: "string list \<Rightarrow> Parser" where
  "NewParser environ = NewParserWithEnv (loadEnvVars environ)"

definition GetEnvVar :: "Parser \<Rightarrow> string \<Rightarrow> string option" where
  "GetEnvVar p key = p_envVars p key"

definition IsMiddlewareOnly :: "string \<Rightarrow> bool" where
  "IsMiddlewareOnly filename \<longleftrightarrow> filename \<in> {''middleware.yml'', ''authentik_middleware.yml'',
     ''authelia_middlewares.yml'', ''crowdsec-bouncer.yml''}"

fun strip_line :: "bool \<Rightarrow> string \<Rightarrow> string" where
  "strip_line inBacktick [] = []"
| "strip_line inBacktick (c # s) =
     (if c = CHR ''`'' then c # strip_line (\<not> inBacktick) s
      else if c = CHR ''#'' \<and> \<not> inBacktick then []
      else c # strip_line inBacktick s)"

definition newline :: char where
  "newline = CHR 0x0A"

definition stripComments :: "string \<Rightarrow> string" where
  "stripComments content = join_with [newline] (map (strip_line False) (split_on newline content))"

text \<open>\<^verbatim>\<open>strings.Replace(s, old, new, 1)\<close> for a nonempty \<open>old\<close>.\<close>

fun replace_first :: "string \<Rightarrow> string \<Rightarrow> string \<Rightarrow> string" where
  "replace_first old new [] = []"
| "replace_first old new (c # s) =
     (if has_prefix old (c # s) then new @ drop (length old) (c # s) else c # replace_first old new s)"

fun resolve_matches :: "string go_map \<Rightarrow> (string \<times> string) list \<Rightarrow> string \<Rightarrow> string" where
  "resolve_matches env [] result = result"
| "resolve_matches env ((varName, envKey) # matches) result =
     (case env envKey of
        None \<Rightarrow> []
      | Some envValue \<Rightarrow>
          if envValue = [] then [] else resolve_matches env matches (replace_first varName envValue result))"

definition resolveEnvTemplate :: "Parser \<Rightarrow> string \<Rightarrow> string" where
  "resolveEnvTemplate p template = resolve_matches (p_envVars p) (find_all envPattern template) template"

definition add_host :: "(string \<Rightarrow> string) \<Rightarrow> Parser \<Rightarrow> string \<Rightarrow> string list \<Rightarrow> string list" where
  "add_host ul p hostTemplate hosts =
     (let resolved = resolveEnvTemplate p hostTemplate
      in if resolved = [] then hosts
         else let resolved = ToLower ul resolved
           in if resolved \<in> set hosts then hosts else hosts @ [resolved])"

definition extractHostsFromMatches ::
  "(string \<Rightarrow> string) \<Rightarrow> Parser \<Rightarrow> (string \<times> string) list \<Rightarrow> string list \<Rightarrow> string list" where
  "extractHostsFromMatches ul p matches hosts =
     foldl (\<lambda>hosts (full, innerContent).
              foldl (\<lambda>hosts (full, hostTemplate). add_host ul p hostTemplate hosts) hosts
                (find_all backtickPattern innerContent))
       hosts matches"

definition ParseContent :: "(string \<Rightarrow> string) \<Rightarrow> Parser \<Rightarrow> string \<Rightarrow> string list" where
  "ParseContent ul p content =
     (let content = stripComments content;
          hosts = extractHostsFromMatches ul p (find_all hostPattern content) []
      in extractHostsFromMatches ul p (find_all hostSNIPattern content) hosts)"

text \<open>Reading a file: the error of opening or reading it, or all its bytes, of which one more than the limit is read.\<close>

datatype parse_error = ReadError string | FileTooLarge

definition ParseFile :: "(string \<Rightarrow> string) \<Rightarrow> Parser \<Rightarrow> string + string \<Rightarrow> parse_error + string list" where
  "ParseFile ul p file =
     (case file of
        Inl err \<Rightarrow> Inl (ReadError err)
      | Inr bytes \<Rightarrow>
          (let content = take (maxFileSize + 1) bytes
           in if length content > maxFileSize then Inl FileTooLarge
              else Inr (ParseContent ul p content)))"

section \<open>What the matchers find\<close>

lemma takeWhile_mark: "c \<notin> set s \<Longrightarrow> takeWhile (\<lambda>d. d \<noteq> c) (s @ c # r) = s"
  by (induction s) auto

lemma has_prefix_append [simp]: "has_prefix p (p @ s)"
  by (simp add: has_prefix_def)

lemma has_prefix_iff: "has_prefix p s \<longleftrightarrow> (\<exists>r. s = p @ r)"
  unfolding has_prefix_def by (metis append_take_drop_id append_eq_conv_conj)

lemma prefix_at_mark:
  assumes "x \<notin> set w" "x \<notin> set z"
  shows "has_prefix (w @ [x]) (z @ x # t) \<longleftrightarrow> w = z"
proof
  assume "has_prefix (w @ [x]) (z @ x # t)"
  then obtain r where "z @ x # t = w @ x # r" by (auto simp: has_prefix_iff)
  with assms show "w = z" by (metis takeWhile_mark)
qed (simp add: has_prefix_def)

lemma no_prefix_without: "x \<in> set p \<Longrightarrow> x \<notin> set s \<Longrightarrow> \<not> has_prefix p s"
  by (auto simp: has_prefix_iff)

lemma find_all_none: "(\<forall>n. m (drop n s) = None) \<Longrightarrow> find_all m s = []"
proof (induction s)
  case (Cons c s)
  from Cons.prems have "\<forall>n. m (drop n s) = None" by (metis drop_Suc_Cons)
  with Cons.IH Cons.prems [rule_format, of 0] show ?case by simp
qed simp

lemma find_all_without: "x \<in> set p \<Longrightarrow> x \<notin> set s \<Longrightarrow> find_all (between p c) s = []"
  by (rule find_all_none) (auto simp: between_def dest: no_prefix_without in_set_dropD)

lemma between_match:
  assumes "inner \<noteq> []" "c \<notin> set inner"
  shows "between p c (p @ inner @ c # rest) = Some (length p + length inner + 1, inner)"
proof -
  have "takeWhile (\<lambda>d. d \<noteq> c) (inner @ c # rest) = inner"
    using assms(2) by (rule takeWhile_mark)
  with assms(1) show ?thesis by (simp add: between_def)
qed

lemma find_all_match:
  assumes "m (s @ rest) = Some (length s, g)" "s \<noteq> []"
  shows "find_all m (s @ rest) = (s, g) # find_all m rest"
  using assms by (cases s) simp_all

text \<open>
  A keyword followed by an opening parenthesis: over a text without one, the keyword is found
  exactly when the text before the parenthesis ends with it.
\<close>

lemma find_all_call:
  assumes "x \<notin> set w" "x \<notin> set z" "w \<noteq> []" "inner \<noteq> []" "c \<notin> set inner"
  shows "map snd (find_all (between (w @ [x]) c) (z @ x # inner @ c # rest)) =
    (if HasSuffix z w then inner # map snd (find_all (between (w @ [x]) c) rest)
     else map snd (find_all (between (w @ [x]) c) (inner @ c # rest)))"
  using assms(2)
proof (induction z)
  case Nil
  have "between (w @ [x]) c (x # inner @ c # rest) = None"
    using prefix_at_mark [of x w "[]"] assms(1,3) by (simp add: between_def)
  then show ?case using assms(3) by (simp add: HasSuffix_def)
next
  case (Cons d z)
  show ?case
  proof (cases "w = d # z")
    case True
    have "find_all (between (w @ [x]) c) ((w @ x # inner @ [c]) @ rest) =
        (w @ x # inner @ [c], inner) # find_all (between (w @ [x]) c) rest"
      using between_match [OF assms(4,5), of "w @ [x]" rest] by (intro find_all_match) simp_all
    then show ?thesis using True by (simp add: HasSuffix_def)
  next
    case False
    then have "between (w @ [x]) c (d # z @ x # inner @ c # rest) = None"
      using prefix_at_mark [of x w "d # z"] assms(1) Cons.prems by (simp add: between_def)
    moreover have "HasSuffix (d # z) w \<longleftrightarrow> HasSuffix z w"
      using False by (auto simp: HasSuffix_def Suc_diff_le le_Suc_eq)
    ultimately show ?thesis using Cons by simp
  qed
qed

section \<open>Documents\<close>

text \<open>
  A line of a configuration as it is written: some text, possibly a rule (\<open>True\<close> for
  \<^verbatim>\<open>HostSNI\<close>) with its quoted hosts, more text, and possibly a comment.
\<close>

datatype cfg_line = CfgLine string "(bool \<times> string list) option" string "string option"

definition keyword :: "bool \<Rightarrow> string" where
  "keyword sni = (if sni then ''HostSNI'' else ''Host'')"

definition quoted :: "string \<Rightarrow> string" where
  "quoted h = ''`'' @ h @ ''`''"

definition rule_args :: "string list \<Rightarrow> string" where
  "rule_args hs = join_with '', '' (map quoted hs)"

fun rule_text :: "(bool \<times> string list) option \<Rightarrow> string" where
  "rule_text None = []"
| "rule_text (Some (sni, hs)) = keyword sni @ ''('' @ rule_args hs @ '')''"

fun bare_line :: "cfg_line \<Rightarrow> string" where
  "bare_line (CfgLine pre rule post comment) = pre @ rule_text rule @ post"

fun render_line :: "cfg_line \<Rightarrow> string" where
  "render_line (CfgLine pre rule post comment) =
     pre @ rule_text rule @ post @ (case comment of None \<Rightarrow> [] | Some t \<Rightarrow> ''#'' @ t)"

definition render_doc :: "cfg_line list \<Rightarrow> string" where
  "render_doc ls = join_with [newline] (map render_line ls)"

definition plain_text :: "string \<Rightarrow> bool" where
  "plain_text s \<longleftrightarrow> CHR ''#'' \<notin> set s \<and> CHR ''`'' \<notin> set s \<and> CHR ''('' \<notin> set s \<and> newline \<notin> set s"

definition host_text :: "string \<Rightarrow> bool" where
  "host_text h \<longleftrightarrow> h \<noteq> [] \<and> CHR ''`'' \<notin> set h \<and> CHR ''('' \<notin> set h \<and> CHR '')'' \<notin> set h \<and>
     CHR ''{'' \<notin> set h \<and> newline \<notin> set h"

fun line_ok :: "cfg_line \<Rightarrow> bool" where
  "line_ok (CfgLine pre rule post comment) \<longleftrightarrow> plain_text pre \<and> plain_text post \<and>
     (case rule of None \<Rightarrow> True | Some (sni, hs) \<Rightarrow> hs \<noteq> [] \<and> list_all host_text hs) \<and>
     (case comment of None \<Rightarrow> True | Some t \<Rightarrow> newline \<notin> set t)"

fun line_hosts :: "bool \<Rightarrow> cfg_line \<Rightarrow> string list" where
  "line_hosts sni (CfgLine pre rule post comment) =
     (case rule of Some (sni', hs) \<Rightarrow> if sni' = sni then hs else [] | None \<Rightarrow> [])"

fun line_args :: "bool \<Rightarrow> cfg_line \<Rightarrow> string list" where
  "line_args sni (CfgLine pre rule post comment) =
     (case rule of Some (sni', hs) \<Rightarrow> if sni' = sni then [rule_args hs] else [] | None \<Rightarrow> [])"

lemma set_quoted [simp]: "set (quoted h) = insert CHR ''`'' (set h)"
  by (simp add: quoted_def)

lemma rule_args_Cons: "rule_args (h # hs) = quoted h @ (if hs = [] then [] else '', '' @ rule_args hs)"
  by (simp add: rule_args_def join_with_Cons)

lemma rule_args_chars:
  "set (rule_args hs) \<subseteq> (\<Union>h \<in> set hs. set h) \<union> set ''`, ''"
  by (induction hs) (auto simp: rule_args_Cons, simp add: rule_args_def)

lemma rule_args_free:
  assumes "list_all host_text hs" "c \<in> {CHR ''('', CHR '')'', newline}"
  shows "c \<notin> set (rule_args hs)"
  using subsetD [OF rule_args_chars, of c hs] assms by (auto simp: list_all_iff host_text_def newline_def)

lemma rule_args_nonempty [simp]: "hs \<noteq> [] \<Longrightarrow> rule_args hs \<noteq> []"
  by (cases hs) (simp_all add: rule_args_Cons quoted_def)

lemma strip_plain: "CHR ''#'' \<notin> set a \<Longrightarrow> CHR ''`'' \<notin> set a \<Longrightarrow> strip_line b (a @ s) = a @ strip_line b s"
  by (induction a) auto

lemma strip_quoted_rest: "CHR ''`'' \<notin> set h \<Longrightarrow> strip_line True (h @ CHR ''`'' # s) = h @ CHR ''`'' # strip_line False s"
  by (induction h) auto

lemma strip_quoted: "CHR ''`'' \<notin> set h \<Longrightarrow> strip_line False (quoted h @ s) = quoted h @ strip_line False s"
  by (simp add: quoted_def strip_quoted_rest)

lemma strip_args: "list_all host_text hs \<Longrightarrow> strip_line False (rule_args hs @ s) = rule_args hs @ strip_line False s"
proof (induction hs)
  case (Cons h hs)
  then show ?case by (auto simp: rule_args_Cons strip_quoted host_text_def)
qed (simp add: rule_args_def)

lemma strip_rule:
  assumes "case rule of None \<Rightarrow> True | Some (sni, hs) \<Rightarrow> hs \<noteq> [] \<and> list_all host_text hs"
  shows "strip_line False (rule_text rule @ s) = rule_text rule @ strip_line False s"
proof (cases rule)
  case (Some r)
  obtain sni hs where "r = (sni, hs)" by (cases r)
  moreover have "strip_line False ((keyword sni @ ''('') @ t) = (keyword sni @ ''('') @ strip_line False t" for t
    by (rule strip_plain) (simp_all add: keyword_def)
  ultimately show ?thesis using Some assms by (simp add: strip_args)
qed simp

lemma strip_render: "line_ok l \<Longrightarrow> strip_line False (render_line l) = bare_line l"
proof (cases l)
  case (CfgLine pre rule post comment)
  assume "line_ok l"
  then show ?thesis unfolding CfgLine
    by (cases comment) (simp_all add: strip_plain plain_text_def strip_rule strip_plain [of post _ "[]", simplified])
qed

lemma newline_keyword: "newline \<notin> set (keyword sni)" "CHR ''('' \<notin> set (keyword sni)"
  by (simp_all add: keyword_def newline_def)

lemma render_no_newline: "line_ok l \<Longrightarrow> newline \<notin> set (render_line l)"
proof (cases l)
  case (CfgLine pre rule post comment)
  assume ok: "line_ok l"
  have "newline \<notin> set (rule_text rule)"
  proof (cases rule)
    case (Some r)
    then show ?thesis using ok CfgLine rule_args_free [of "snd r" newline] newline_keyword
      by (cases r) (auto simp: newline_def)
  qed simp
  with ok show ?thesis unfolding CfgLine by (cases comment) (auto simp: plain_text_def newline_def)
qed

lemma strip_doc:
  assumes "\<forall>l \<in> set ls. line_ok l"
  shows "stripComments (render_doc ls) = join_with [newline] (map bare_line ls)"
proof (cases "ls = []")
  case False
  have "split_on newline (render_doc ls) = map render_line ls"
    unfolding render_doc_def using assms False by (intro split_join) (auto simp: render_no_newline)
  moreover have "map (strip_line False) (map render_line ls) = map bare_line ls"
    using assms by (simp add: strip_render)
  ultimately show ?thesis by (simp only: stripComments_def)
qed (simp add: stripComments_def render_doc_def)

section \<open>The rules of a document are found\<close>

lemma suffix_keyword: "HasSuffix (z @ keyword a) (keyword b) \<longleftrightarrow> a = b"
proof (cases "a = b")
  case True
  then show ?thesis by (simp add: HasSuffix_def)
next
  case False
  have "HasSuffix s t \<Longrightarrow> t \<noteq> [] \<Longrightarrow> last s = last t" for s t :: string
    unfolding HasSuffix_def by (metis drop_eq_Nil last_drop linorder_not_le)
  from this [of "z @ keyword a" "keyword b"] False show ?thesis by (auto simp: keyword_def)
qed

lemma find_rule:
  fixes sni :: bool
  assumes "CHR ''('' \<notin> set z" "hs \<noteq> []" "list_all host_text hs"
  defines "args \<equiv> \<lambda>s. map snd (find_all (between (keyword sni @ ''('') CHR '')'') s)"
  shows "args (z @ rule_text (Some (k, hs)) @ rest) =
    (if k = sni then rule_args hs # args rest else args (rule_args hs @ CHR '')'' # rest))"
proof -
  have "args ((z @ keyword k) @ CHR ''('' # rule_args hs @ CHR '')'' # rest) =
      (if HasSuffix (z @ keyword k) (keyword sni) then rule_args hs # args rest
       else args (rule_args hs @ CHR '')'' # rest))"
    unfolding args_def using assms(1-3) newline_keyword rule_args_free [OF assms(3)]
    by (intro find_all_call) (auto simp: keyword_def)
  then show ?thesis by (simp add: suffix_keyword)
qed

lemma find_rules:
  assumes "\<forall>l \<in> set ls. line_ok l" "CHR ''('' \<notin> set carry"
  shows "map snd (find_all (between (keyword sni @ ''('') CHR '')'') (carry @ join_with [newline] (map bare_line ls))) =
    concat (map (line_args sni) ls)"
  using assms
proof (induction ls arbitrary: carry)
  case Nil
  have "find_all (between (keyword sni @ ''('') CHR '')'') carry = []"
    by (rule find_all_without [of "CHR ''(''"]) (use Nil in simp_all)
  then show ?case by simp
next
  case (Cons l ls)
  obtain pre rule post comment where l: "l = CfgLine pre rule post comment" by (cases l)
  define rest where "rest = (if ls = [] then [] else [newline])"
  let ?ls = "join_with [newline] (map bare_line ls)"
  have join: "join_with [newline] (map bare_line (l # ls)) = pre @ rule_text rule @ post @ rest @ ?ls"
    by (simp add: join_with_Cons rest_def l)
  have free: "CHR ''('' \<notin> set (pre @ post @ rest)" using Cons.prems(1) l by (auto simp: plain_text_def rest_def newline_def)
  note IH = Cons.IH [OF _ , simplified append_assoc]
  show ?case
  proof (cases rule)
    case None
    then show ?thesis using IH [of "carry @ pre @ post @ rest"] free Cons.prems join l by simp
  next
    case (Some r)
    obtain k hs where r: "r = (k, hs)" by (cases r)
    have hs: "hs \<noteq> []" "list_all host_text hs" using Cons.prems(1) l Some r by simp_all
    have z: "CHR ''('' \<notin> set (carry @ pre)" using free Cons.prems(2) by simp
    show ?thesis unfolding join Some r
      using find_rule [OF z hs, of sni k "post @ rest @ ?ls"] IH [of "post @ rest"]
        IH [of "rule_args hs @ CHR '')'' # post @ rest"] rule_args_free [OF hs(2)] free Cons.prems(1) l Some r by simp
  qed
qed

lemma backtick_skip: "c \<noteq> CHR ''`'' \<Longrightarrow> find_all backtickPattern (c # s) = find_all backtickPattern s"
  by (simp add: backtickPattern_def between_def has_prefix_def)

lemma find_hosts:
  assumes "list_all host_text hs"
  shows "map snd (find_all backtickPattern (rule_args hs)) = hs"
  using assms
proof (induction hs)
  case (Cons h hs)
  define rest where "rest = (if hs = [] then [] else '', '' @ rule_args hs)"
  have "find_all backtickPattern (quoted h @ rest) = (quoted h, h) # find_all backtickPattern rest"
    using between_match [of h "CHR ''`''" "''`''" rest] Cons.prems
    by (intro find_all_match) (simp_all add: backtickPattern_def quoted_def host_text_def)
  moreover have "map snd (find_all backtickPattern rest) = hs"
    using Cons by (simp add: rest_def backtick_skip del: find_all.simps(2))
  ultimately show ?case by (simp add: rule_args_Cons rest_def)
qed (simp add: rule_args_def)

lemma resolve_plain:
  assumes "CHR ''{'' \<notin> set s"
  shows "resolveEnvTemplate p s = s"
proof -
  have "\<not> has_prefix ''{{env'' (drop n s)" for n
    by (rule no_prefix_without [of "CHR ''{''"]) (use assms in \<open>auto dest: in_set_dropD\<close>)
  then have "find_all envPattern s = []" by (intro find_all_none) (simp add: envPattern_def)
  then show ?thesis by (simp add: resolveEnvTemplate_def)
qed

lemma add_host_plain: "host_text h \<Longrightarrow> add_host ul p h hosts = keep_new (ToLower ul h) hosts"
  by (simp add: add_host_def resolve_plain host_text_def keep_new_def Let_def)

lemma foldl_snd: "foldl (\<lambda>a (x, y). f y a) a xs = fold f (map snd xs) a"
  by (induction xs arbitrary: a) auto

lemma add_hosts_plain:
  "list_all host_text hs \<Longrightarrow> fold (add_host ul p) hs hosts = fold keep_new (map (ToLower ul) hs) hosts"
  by (induction hs arbitrary: hosts) (simp_all add: add_host_plain)

lemma extract_doc:
  assumes "\<forall>l \<in> set ls. line_ok l" "map snd matches = concat (map (line_args sni) ls)"
  shows "extractHostsFromMatches ul p matches hosts = fold keep_new (map (ToLower ul) (concat (map (line_hosts sni) ls))) hosts"
proof -
  have "fold (\<lambda>inner hosts. fold (add_host ul p) (map snd (find_all backtickPattern inner)) hosts) (concat (map (line_args sni) ls)) hosts =
    fold keep_new (map (ToLower ul) (concat (map (line_hosts sni) ls))) hosts"
    using assms(1)
  proof (induction ls arbitrary: hosts)
    case (Cons l ls)
    then show ?case by (cases l) (auto simp: find_hosts add_hosts_plain split: option.splits)
  qed simp
  then show ?thesis
    unfolding extractHostsFromMatches_def foldl_snd [of "\<lambda>t hosts. add_host ul p t hosts"] foldl_snd [of "\<lambda>i h. fold (add_host ul p) (map snd (find_all backtickPattern i)) h"]
    by (simp add: assms(2))
qed

lemma ParseContent_doc:
  assumes "\<forall>l \<in> set ls. line_ok l"
  shows "ParseContent ul p (render_doc ls) =
    fold keep_new (map (ToLower ul) (concat (map (line_hosts False) ls) @ concat (map (line_hosts True) ls))) []"
proof -
  have "map snd (find_all hostPattern (stripComments (render_doc ls))) = concat (map (line_args False) ls)"
    using find_rules [OF assms, of "[]" False] by (simp add: strip_doc [OF assms] hostPattern_def keyword_def)
  moreover have "map snd (find_all hostSNIPattern (stripComments (render_doc ls))) = concat (map (line_args True) ls)"
    using find_rules [OF assms, of "[]" True] by (simp add: strip_doc [OF assms] hostSNIPattern_def keyword_def)
  ultimately show ?thesis by (simp add: ParseContent_def Let_def extract_doc [OF assms])
qed

lemma extract_invariant:
  assumes "distinct hosts \<and> list_all (\<lambda>h. ToLower ul h = h) hosts" "lower_ok ul"
  shows "distinct (extractHostsFromMatches ul p ms hosts) \<and> list_all (\<lambda>h. ToLower ul h = h) (extractHostsFromMatches ul p ms hosts)"
proof -
  let ?I = "\<lambda>hosts. distinct hosts \<and> list_all (\<lambda>h. ToLower ul h = h) hosts"
  have add: "?I (add_host ul p t hosts)" if "?I hosts" for t hosts
    using that assms(2) by (simp add: add_host_def Let_def list_all_append)
  have "?I (fold (add_host ul p) ts hosts)" if "?I hosts" for ts hosts
    using that by (induction ts arbitrary: hosts) (simp_all add: add)
  then have "?I (fold (\<lambda>i. fold (add_host ul p) (map snd (find_all backtickPattern i))) is hosts)" if "?I hosts" for "is" hosts
    using that by (induction "is" arbitrary: hosts) simp_all
  then show ?thesis using assms(1) unfolding extractHostsFromMatches_def foldl_snd by blast
qed

section \<open>Environment templates\<close>

text \<open>A template as it is written: literal text, and references with the white space before the name.\<close>

datatype piece = Lit string | EnvRef string string

fun piece_text :: "piece \<Rightarrow> string" where
  "piece_text (Lit s) = s"
| "piece_text (EnvRef ws k) = ''{{env'' @ ws @ [CHR 0x22] @ k @ [CHR 0x22] @ ''}}''"

fun piece_ok :: "piece \<Rightarrow> bool" where
  "piece_ok (Lit s) \<longleftrightarrow> CHR ''{'' \<notin> set s"
| "piece_ok (EnvRef ws k) \<longleftrightarrow> ws \<noteq> [] \<and> list_all re_space ws \<and> k \<noteq> [] \<and> CHR 0x22 \<notin> set k"

fun piece_value :: "string go_map \<Rightarrow> piece \<Rightarrow> string option" where
  "piece_value env (Lit s) = Some s"
| "piece_value env (EnvRef ws k) = (case env k of None \<Rightarrow> None | Some v \<Rightarrow> if v = [] then None else Some v)"

fun piece_match :: "piece \<Rightarrow> (string \<times> string) list" where
  "piece_match (Lit s) = []"
| "piece_match (EnvRef ws k) = [(piece_text (EnvRef ws k), k)]"

text \<open>The reference: every piece by its value; nothing when a value is missing.\<close>

fun pieces_value :: "string go_map \<Rightarrow> piece list \<Rightarrow> string option" where
  "pieces_value env [] = Some []"
| "pieces_value env (p # ps) =
     (case (piece_value env p, pieces_value env ps) of (Some v, Some vs) \<Rightarrow> Some (v @ vs) | _ \<Rightarrow> None)"

lemma takeWhile_stop: "list_all P xs \<Longrightarrow> \<not> P y \<Longrightarrow> takeWhile P (xs @ y # zs) = xs"
  by (induction xs) auto

lemma env_match:
  assumes "piece_ok (EnvRef ws k)"
  shows "envPattern (piece_text (EnvRef ws k) @ rest) = Some (length (piece_text (EnvRef ws k)), k)"
proof -
  have q: "\<not> re_space CHR 0x22" by (simp add: re_space_def)
  have "takeWhile re_space (ws @ CHR 0x22 # k @ CHR 0x22 # ''}}'' @ rest) = ws"
    using assms q by (intro takeWhile_stop) simp_all
  moreover have "takeWhile (\<lambda>c. c \<noteq> CHR 0x22) (k @ CHR 0x22 # ''}}'' @ rest) = k"
    using assms by (intro takeWhile_mark) simp
  ultimately show ?thesis using assms by (simp add: envPattern_def has_prefix_def Let_def)
qed

lemma env_skip: "CHR ''{'' \<notin> set s \<Longrightarrow> find_all envPattern (s @ t) = find_all envPattern t"
  by (induction s) (auto simp: envPattern_def has_prefix_def)

lemma find_refs:
  assumes "\<forall>p \<in> set ps. piece_ok p"
  shows "find_all envPattern (concat (map piece_text ps)) = concat (map piece_match ps)"
  using assms
proof (induction ps)
  case (Cons p ps)
  show ?case
  proof (cases p)
    case (Lit s)
    then show ?thesis using Cons by (simp add: env_skip)
  next
    case (EnvRef ws k)
    have "find_all envPattern (piece_text p @ concat (map piece_text ps)) = (piece_text p, k) # find_all envPattern (concat (map piece_text ps))"
      using env_match [of ws k] Cons.prems EnvRef by (intro find_all_match) simp_all
    then show ?thesis using Cons EnvRef by simp
  qed
qed simp

lemma replace_first_here:
  assumes "x \<notin> set s" "old = x # old'"
  shows "replace_first old new (s @ old @ rest) = s @ new @ rest"
  using assms(1)
proof (induction s)
  case Nil
  then show ?case using assms(2) by (simp add: has_prefix_def)
next
  case (Cons c s)
  then show ?case using assms(2) by (auto simp: has_prefix_def)
qed

lemma resolve_refs:
  assumes "\<forall>p \<in> set ps. piece_ok p" "\<forall>k v. env k = Some v \<longrightarrow> CHR ''{'' \<notin> set v" "CHR ''{'' \<notin> set done"
  shows "resolve_matches env (concat (map piece_match ps)) (done @ concat (map piece_text ps)) =
    (case pieces_value env ps of None \<Rightarrow> [] | Some v \<Rightarrow> done @ v)"
  using assms
proof (induction ps arbitrary: "done")
  case (Cons p ps)
  show ?case
  proof (cases p)
    case (Lit s)
    then show ?thesis using Cons.IH [of "done @ s"] Cons.prems by (auto split: option.splits)
  next
    case (EnvRef ws k)
    show ?thesis
    proof (cases "env k")
      case (Some v)
      have "replace_first (piece_text p) v (done @ piece_text p @ concat (map piece_text ps)) = done @ v @ concat (map piece_text ps)"
        using Cons.prems(3) EnvRef by (intro replace_first_here) auto
      moreover have "CHR ''{'' \<notin> set v" using Cons.prems(2) Some by blast
      ultimately show ?thesis using Cons.IH [of "done @ v"] Cons.prems Some EnvRef
        by (auto split: option.splits)
    qed (simp add: EnvRef)
  qed
qed simp

section \<open>Properties\<close>

text \<open>
  C12. The hosts of a document: from a document of lines that hold any plain text, at most one
  \<^verbatim>\<open>Host\<close> or \<^verbatim>\<open>HostSNI\<close> rule with one or more quoted hosts each, and
  any comment, commented-out rules included, the parser returns exactly the hosts of the
  rules, in lower case and without repetition: those of the \<^verbatim>\<open>Host\<close> rules in the
  order of the document, then those of the \<^verbatim>\<open>HostSNI\<close> rules.
\<close>

theorem document_hosts:
  assumes "\<forall>l \<in> set ls. line_ok l"
  shows "ParseContent ul p (render_doc ls) =
    rev (remdups (rev (map (ToLower ul) (concat (map (line_hosts False) ls) @ concat (map (line_hosts True) ls)))))"
  unfolding ParseContent_doc [OF assms] fold_keep_new ..

theorem document_hosts_witness:
  "ParseContent (\<lambda>s. s) (NewParser []) (render_doc
     [CfgLine ''db: '' (Some (True, [''db.lan''])) [] None,
      CfgLine ''rule: '' (Some (False, [''App.lan'', ''b#1.lan''])) '' '' (Some ''Host(`old.lan`)''),
      CfgLine ''other: '' (Some (False, [''app.LAN''])) [] None]) = [''app.lan'', ''b#1.lan'', ''db.lan'']"
proof -
  let ?ls = "[CfgLine ''db: '' (Some (True, [''db.lan''])) [] None,
      CfgLine ''rule: '' (Some (False, [''App.lan'', ''b#1.lan''])) '' '' (Some ''Host(`old.lan`)''),
      CfgLine ''other: '' (Some (False, [''app.LAN''])) [] None]"
  have "\<forall>l \<in> set ?ls. line_ok l" by (simp add: plain_text_def host_text_def newline_def)
  from document_hosts [OF this, of "\<lambda>s. s" "NewParser []"] show ?thesis by (simp add: lower_eval)
qed

text \<open>
  Every result of the parser, on any content whatever, is a list of distinct names in
  lower case, so that the table keeps one entry per name.
\<close>

theorem parsed_hosts_distinct:
  assumes "lower_ok ul"
  shows "distinct (ParseContent ul p content) \<and> list_all (\<lambda>h. ToLower ul h = h) (ParseContent ul p content)"
  using assms by (simp add: ParseContent_def Let_def extract_invariant)

theorem parsed_hosts_distinct_witness:
  "distinct (ParseContent (\<lambda>s. s) (NewParser []) ''Host(`A`) Host(`a`)'') \<and>
   list_all (\<lambda>h. ToLower (\<lambda>s. s) h = h) (ParseContent (\<lambda>s. s) (NewParser []) ''Host(`A`) Host(`a`)'')"
  by (rule parsed_hosts_distinct [OF lower_ok_id])

text \<open>
  C23. Templates: a host written as literal text and environment references resolves to the
  text with every reference replaced by its variable's value, and to nothing as soon as one
  variable is unset or empty. The literal text and the values hold no opening brace.
\<close>

theorem template_resolved:
  assumes "\<forall>q \<in> set ps. piece_ok q" "\<forall>k v. p_envVars p k = Some v \<longrightarrow> CHR ''{'' \<notin> set v"
  shows "resolveEnvTemplate p (concat (map piece_text ps)) =
    (case pieces_value (p_envVars p) ps of None \<Rightarrow> [] | Some v \<Rightarrow> v)"
  using resolve_refs [OF assms, of "[]"] by (simp add: resolveEnvTemplate_def find_refs [OF assms(1)] split: option.splits)

theorem template_resolved_witness:
  "resolveEnvTemplate (NewParser [''DOMAIN=ex.com'', ''SUB=app'']) (concat (map piece_text
     [EnvRef '' '' ''SUB'', Lit ''.'', EnvRef ''  '' ''DOMAIN''])) = ''app.ex.com''"
proof -
  let ?p = "NewParser [''DOMAIN=ex.com'', ''SUB=app'']" and ?ps = "[EnvRef '' '' ''SUB'', Lit ''.'', EnvRef ''  '' ''DOMAIN'']"
  have env: "p_envVars ?p = [''DOMAIN'' \<mapsto> ''ex.com'', ''SUB'' \<mapsto> ''app'']"
    by (simp add: NewParser_def NewParserWithEnv_def loadEnvVars_def split2_def)
  have "\<forall>q \<in> set ?ps. piece_ok q" by (simp add: re_space_def)
  moreover have "\<forall>k v. p_envVars ?p k = Some v \<longrightarrow> CHR ''{'' \<notin> set v" by (simp add: env)
  ultimately have "resolveEnvTemplate ?p (concat (map piece_text ?ps)) =
      (case pieces_value (p_envVars ?p) ?ps of None \<Rightarrow> [] | Some v \<Rightarrow> v)" by (rule template_resolved)
  then show ?thesis by (simp add: env)
qed

text \<open>
  C34. A file is parsed as a whole or not at all: at most one mebibyte of bytes is parsed in
  full, a longer file is refused, a file that cannot be read is an error.
\<close>

theorem file_size_limit:
  "ParseFile ul p (Inr bytes) = (if length bytes \<le> 1048576 then Inr (ParseContent ul p bytes) else Inl FileTooLarge) \<and>
   ParseFile ul p (Inl err) = Inl (ReadError err)"
  by (auto simp: ParseFile_def maxFileSize_def Let_def)

end
