(* ===== verification/TE_File_Watcher.thy ===== *)
theory TE_File_Watcher
  imports TE_Records TE_Parser
begin

text \<open>
  The file watcher of \<^verbatim>\<open>traefik-externals/file_watcher.go\<close>: loading every
  configuration of a directory, the events of the directory, the timer that debounces them,
  starting and stopping. What the file system answers is an input: the listing of the
  directory with, for each entry, its kind and its content. The metrics of
  \<^verbatim>\<open>metrics.go\<close> are the counters of the record \<open>metrics\<close>.
\<close>

section \<open>Metrics\<close>

record metrics =
  m_recordsTotal :: nat
  m_reloadsTotal :: nat
  m_parseErrorsTotal :: nat
  m_queriesTotal :: "string \<times> string \<Rightarrow> nat"

definition no_metrics :: metrics where
  "no_metrics = \<lparr>m_recordsTotal = 0, m_reloadsTotal = 0, m_parseErrorsTotal = 0, m_queriesTotal = (\<lambda>_. 0)\<rparr>"

definition count_query :: "string \<Rightarrow> string \<Rightarrow> metrics \<Rightarrow> metrics" where
  "count_query type' result m =
     m\<lparr>m_queriesTotal := (m_queriesTotal m)((type', result) := Suc (m_queriesTotal m (type', result)))\<rparr>"

section \<open>Paths\<close>

text \<open>\<^verbatim>\<open>filepath.Ext\<close>: from the last dot of the last element; \<^verbatim>\<open>filepath.Base\<close> on Unix.\<close>

fun ext_rev :: "string \<Rightarrow> string \<Rightarrow> string" where
  "ext_rev [] acc = []"
| "ext_rev (c # s) acc =
     (if c = CHR ''/'' then [] else if c = CHR ''.'' then c # acc else ext_rev s (c # acc))"

definition Ext :: "string \<Rightarrow> string" where
  "Ext path = ext_rev (rev path) []"

definition Base :: "string \<Rightarrow> string" where
  "Base path =
     (if path = [] then ''.''
      else let p = rev (dropWhile (\<lambda>c. c = CHR ''/'') (rev path))
        in if p = [] then ''/'' else rev (takeWhile (\<lambda>c. c \<noteq> CHR ''/'') (rev p)))"

definition is_yaml :: "string \<Rightarrow> bool" where
  "is_yaml name \<longleftrightarrow> Ext name = ''.yml'' \<or> Ext name = ''.yaml''"

section \<open>State\<close>

text \<open>
  \<open>fw_debounceTimer\<close> says whether the debounce timer is armed: arming it again replaces the
  pending timer by a new one, stopping it or its firing leaves none.
\<close>

record FileWatcher =
  fw_directory :: string
  fw_hostIP :: string
  fw_parser :: Parser
  fw_watcher :: bool
  fw_running :: bool
  fw_cancelled :: bool
  fw_loops :: nat
  fw_debounceTimer :: bool

definition NewFileWatcher :: "string list \<Rightarrow> string \<Rightarrow> string \<Rightarrow> FileWatcher" where
  "NewFileWatcher environ directory hostIP = \<lparr>fw_directory = directory, fw_hostIP = hostIP,
     fw_parser = NewParser environ, fw_watcher = False, fw_running = False, fw_cancelled = False,
     fw_loops = 0, fw_debounceTimer = False\<rparr>"

definition GetDirectory :: "FileWatcher \<Rightarrow> string" where
  "GetDirectory fw = fw_directory fw"

section \<open>Loading the configurations\<close>

text \<open>
  A directory entry: whether it is a directory, its mode (an error, or whether it is a
  regular file), and what reading the file gives.
\<close>

record dir_entry =
  de_Name :: string
  de_IsDir :: bool
  de_Regular :: "string + bool"
  de_Content :: "string + string"

text \<open>One entry: the hosts it adds, or nothing; the flag says whether a parse error is counted.\<close>

definition load_entry :: "(string \<Rightarrow> string) \<Rightarrow> FileWatcher \<Rightarrow> dir_entry \<Rightarrow> string list \<times> bool" where
  "load_entry ul fw entry =
     (if de_IsDir entry then ([], False)
      else case de_Regular entry of
        Inl err \<Rightarrow> ([], False)
      | Inr regular \<Rightarrow>
          if \<not> regular then ([], False)
          else let name = de_Name entry; ext = Ext name
            in if ext \<noteq> ''.yml'' \<and> ext \<noteq> ''.yaml'' then ([], False)
               else if IsMiddlewareOnly name then ([], False)
               else case ParseFile ul (fw_parser fw) (de_Content entry) of
                      Inl err \<Rightarrow> ([], True)
                    | Inr hosts \<Rightarrow> (hosts, False))"

definition load_entries :: "(string \<Rightarrow> string) \<Rightarrow> FileWatcher \<Rightarrow> dir_entry list \<Rightarrow> string go_map \<times> metrics \<Rightarrow> string go_map \<times> metrics" where
  "load_entries ul fw entries s =
     foldl (\<lambda>(allHosts, m) entry.
              case load_entry ul fw entry of (hosts, failed) \<Rightarrow>
                (foldl (\<lambda>allHosts host. allHosts(host \<mapsto> fw_hostIP fw)) allHosts hosts,
                 if failed then m\<lparr>m_parseErrorsTotal := Suc (m_parseErrorsTotal m)\<rparr> else m))
       s entries"

definition loadAllConfigs ::
  "(string \<Rightarrow> string) \<Rightarrow> (string go_map \<Rightarrow> string list) \<Rightarrow> FileWatcher \<Rightarrow> string + dir_entry list \<Rightarrow>
   te_Records \<times> metrics \<Rightarrow> string option \<times> te_Records \<times> metrics" where
  "loadAllConfigs ul ord fw listing s =
     (case s of (r, m) \<Rightarrow>
        (case listing of
           Inl err \<Rightarrow> (Some err, r, m)
         | Inr entries \<Rightarrow>
             (case load_entries ul fw entries (Map.empty, m) of
                (allHosts, m) \<Rightarrow>
                  (None, te_ReplaceAll ul ord allHosts r,
                   m\<lparr>m_recordsTotal := card (dom allHosts), m_reloadsTotal := Suc (m_reloadsTotal m)\<rparr>))))"

section \<open>Events, timer, start and stop\<close>

definition te_handleEvent :: "string \<Rightarrow> FileWatcher \<Rightarrow> FileWatcher" where
  "te_handleEvent name fw =
     (if Ext name \<noteq> ''.yml'' \<and> Ext name \<noteq> ''.yaml'' then fw
      else if IsMiddlewareOnly (Base name) then fw
      else fw\<lparr>fw_debounceTimer := True\<rparr>)"

text \<open>The timer's function runs in a goroutine of its own 500 ms after it was armed last.\<close>

definition timer_fires ::
  "(string \<Rightarrow> string) \<Rightarrow> (string go_map \<Rightarrow> string list) \<Rightarrow> string + dir_entry list \<Rightarrow>
   FileWatcher \<times> te_Records \<times> metrics \<Rightarrow> FileWatcher \<times> te_Records \<times> metrics" where
  "timer_fires ul ord listing s =
     (case s of (fw, rm) \<Rightarrow>
        if fw_debounceTimer fw then (fw\<lparr>fw_debounceTimer := False\<rparr>, snd (loadAllConfigs ul ord fw listing rm)) else s)"

definition te_Start ::
  "(string \<Rightarrow> string) \<Rightarrow> (string go_map \<Rightarrow> string list) \<Rightarrow> string option \<Rightarrow> string option \<Rightarrow> string + dir_entry list \<Rightarrow>
   FileWatcher \<times> te_Records \<times> metrics \<Rightarrow> string option \<times> FileWatcher \<times> te_Records \<times> metrics" where
  "te_Start ul ord newWatcher addDir listing s =
     (case s of (fw, rm) \<Rightarrow>
        if fw_running fw then (None, s)
        else case newWatcher of
          Some err \<Rightarrow> (Some err, s)
        | None \<Rightarrow>
            (case addDir of
               Some err \<Rightarrow> (Some err, s)
             | None \<Rightarrow>
                 (let fw = fw\<lparr>fw_watcher := True, fw_running := True, fw_cancelled := False\<rparr>;
                      rm = snd (loadAllConfigs ul ord fw listing rm)
                  in (None, fw\<lparr>fw_loops := Suc (fw_loops fw)\<rparr>, rm))))"

text \<open>
  \<^verbatim>\<open>Stop\<close> in its two critical sections and the wait: first it marks the watcher as
  stopped and disarms the timer, then it cancels the context, closes the watcher and waits
  for the loop, which may handle one more event in between.
\<close>

definition te_stop_begin :: "FileWatcher \<Rightarrow> FileWatcher" where
  "te_stop_begin fw = (if \<not> fw_running fw then fw else fw\<lparr>fw_running := False, fw_debounceTimer := False\<rparr>)"

definition te_stop_end :: "FileWatcher \<Rightarrow> FileWatcher" where
  "te_stop_end fw = fw\<lparr>fw_cancelled := True, fw_loops := 0\<rparr>"

definition te_Stop :: "FileWatcher \<Rightarrow> FileWatcher" where
  "te_Stop fw = (if \<not> fw_running fw then fw else te_stop_end (te_stop_begin fw))"

text \<open>What one \<^verbatim>\<open>select\<close> of \<^verbatim>\<open>watchLoop\<close> receives.\<close>

datatype fs_input = FsDone | FsEvent string | FsEventsClosed | FsError string | FsErrorsClosed

fun te_watchLoop :: "fs_input list \<Rightarrow> FileWatcher \<Rightarrow> FileWatcher" where
  "te_watchLoop [] fw = fw"
| "te_watchLoop (i # is) fw =
     (case i of
        FsDone \<Rightarrow> fw\<lparr>fw_loops := fw_loops fw - 1\<rparr>
      | FsEvent name \<Rightarrow> te_watchLoop is (te_handleEvent name fw)
      | FsEventsClosed \<Rightarrow> fw\<lparr>fw_loops := fw_loops fw - 1\<rparr>
      | FsError err \<Rightarrow> te_watchLoop is fw
      | FsErrorsClosed \<Rightarrow> fw\<lparr>fw_loops := fw_loops fw - 1\<rparr>)"

section \<open>What a reload loads\<close>

lemma put_all: "foldl (\<lambda>m h. m(h \<mapsto> v)) m hs = (\<lambda>h. if h \<in> set hs then Some v else m h)"
  by (induction hs arbitrary: m) (auto simp: fun_eq_iff)

lemma load_entries_hosts:
  "fst (load_entries ul fw entries (hosts, m)) =
     (\<lambda>h. if \<exists>e \<in> set entries. h \<in> set (fst (load_entry ul fw e)) then Some (fw_hostIP fw) else hosts h)"
proof (induction entries arbitrary: hosts m)
  case (Cons e entries)
  then show ?case by (cases "load_entry ul fw e") (auto simp: load_entries_def put_all fun_eq_iff)
qed (simp add: load_entries_def)

lemma load_entries_metrics:
  "snd (load_entries ul fw entries (hosts, m)) =
     m\<lparr>m_parseErrorsTotal := m_parseErrorsTotal m + length (filter (\<lambda>e. snd (load_entry ul fw e)) entries)\<rparr>"
proof (induction entries arbitrary: hosts m)
  case (Cons e entries)
  then show ?case by (cases "load_entry ul fw e") (simp add: load_entries_def)
qed (simp add: load_entries_def)

lemma load_entry_file:
  "load_entry ul fw e = (hosts, failed) \<Longrightarrow> hosts \<noteq> [] \<or> failed \<Longrightarrow>
     \<not> de_IsDir e \<and> de_Regular e = Inr True \<and> is_yaml (de_Name e) \<and> \<not> IsMiddlewareOnly (de_Name e)"
  by (auto simp: load_entry_def is_yaml_def Let_def split: if_splits sum.splits)

lemma load_entry_lower:
  assumes "lower_ok ul" "h \<in> set (fst (load_entry ul fw e))"
  shows "ToLower ul h = h"
proof -
  obtain bytes where "h \<in> set (ParseContent ul (fw_parser fw) bytes)"
    using assms(2) by (auto simp: load_entry_def ParseFile_def Let_def split: if_splits sum.splits)
  moreover have "list_all (\<lambda>h. ToLower ul h = h) (ParseContent ul (fw_parser fw) bytes)"
    using extract_invariant [OF _ assms(1)] by (simp add: ParseContent_def Let_def)
  ultimately show ?thesis by (simp add: list_all_iff)
qed

lemma loaded_finite: "finite (dom (\<lambda>h. if \<exists>e \<in> set es. h \<in> set (f e) then Some v else None))"
proof -
  have "dom (\<lambda>h. if \<exists>e \<in> set es. h \<in> set (f e) then Some v else None) = (\<Union>e \<in> set es. set (f e))"
    by (auto split: if_splits)
  then show ?thesis by simp
qed

lemma loadAllConfigs_result:
  assumes "lower_ok ul" "range_order ord"
  shows "loadAllConfigs ul ord fw (Inr entries) (r, m) =
    (let all = (\<lambda>h. if \<exists>e \<in> set entries. h \<in> set (fst (load_entry ul fw e)) then Some (fw_hostIP fw) else None)
     in (None, all, m\<lparr>m_parseErrorsTotal := m_parseErrorsTotal m + length (filter (\<lambda>e. snd (load_entry ul fw e)) entries),
          m_recordsTotal := card (dom all), m_reloadsTotal := Suc (m_reloadsTotal m)\<rparr>))"
proof -
  let ?all = "\<lambda>h. if \<exists>e \<in> set entries. h \<in> set (fst (load_entry ul fw e)) then Some (fw_hostIP fw) else None"
  have le: "load_entries ul fw entries (Map.empty, m) = (?all,
      m\<lparr>m_parseErrorsTotal := m_parseErrorsTotal m + length (filter (\<lambda>e. snd (load_entry ul fw e)) entries)\<rparr>)"
    by (rule prod_eqI) (simp_all add: load_entries_hosts load_entries_metrics)
  have "te_ReplaceAll ul ord ?all r = ?all"
    by (rule ReplaceAll_lower [OF assms(2) loaded_finite])
       (auto simp: load_entry_lower [OF assms(1)] split: if_splits)
  with le show ?thesis by (simp add: loadAllConfigs_def Let_def)
qed

lemma loadAllConfigs_error: "loadAllConfigs ul ord fw (Inl err) rm = (Some err, rm)"
  by (cases rm) (simp add: loadAllConfigs_def)

definition relevant :: "string \<Rightarrow> bool" where
  "relevant name \<longleftrightarrow> is_yaml name \<and> \<not> IsMiddlewareOnly (Base name)"

lemma te_handleEvent_armed:
  "te_handleEvent name fw = (if relevant name then fw\<lparr>fw_debounceTimer := True\<rparr> else fw)"
  by (simp add: te_handleEvent_def relevant_def is_yaml_def)

lemma te_watchLoop_events:
  "te_watchLoop (map FsEvent names) fw = (if \<exists>n \<in> set names. relevant n then fw\<lparr>fw_debounceTimer := True\<rparr> else fw)"
  by (induction names arbitrary: fw) (auto simp: te_handleEvent_armed)

section \<open>Properties\<close>

text \<open>
  C22. A reload is exact: after the directory was read, a name resolves to the host's address
  exactly when a loadable file of the directory has it, whatever the table held before; only
  regular YAML files that are not middleware files are loaded or counted as broken; a broken
  file does not keep the others out; the gauge is the size of the table and one reload is
  counted. When the directory cannot be read, the table and the metrics stay as they are.
\<close>

theorem reload_exact:
  assumes "lower_ok ul" "range_order ord" "loadAllConfigs ul ord fw (Inr entries) (r, m) = (err, r', m')"
  shows "err = None \<and>
    te_Lookup ul r' h = (if \<exists>e \<in> set entries. ToLower ul h \<in> set (fst (load_entry ul fw e)) then Some (fw_hostIP fw) else None) \<and>
    (\<forall>e \<in> set entries. fst (load_entry ul fw e) \<noteq> [] \<or> snd (load_entry ul fw e) \<longrightarrow>
       \<not> de_IsDir e \<and> de_Regular e = Inr True \<and> is_yaml (de_Name e) \<and> \<not> IsMiddlewareOnly (de_Name e)) \<and>
    m_recordsTotal m' = te_Count r' \<and> m_reloadsTotal m' = Suc (m_reloadsTotal m) \<and>
    m_parseErrorsTotal m' = m_parseErrorsTotal m + length (filter (\<lambda>e. snd (load_entry ul fw e)) entries) \<and>
    loadAllConfigs ul ord fw (Inl e) (r, m) = (Some e, r, m)"
proof -
  have "\<forall>e \<in> set entries. fst (load_entry ul fw e) \<noteq> [] \<or> snd (load_entry ul fw e) \<longrightarrow>
       \<not> de_IsDir e \<and> de_Regular e = Inr True \<and> is_yaml (de_Name e) \<and> \<not> IsMiddlewareOnly (de_Name e)"
    using load_entry_file by (metis prod.collapse)
  with assms(3) show ?thesis
    unfolding loadAllConfigs_result [OF assms(1,2)] Let_def by (auto simp: te_Lookup_def te_Count_def loadAllConfigs_error)
qed

definition sample_fw :: FileWatcher where
  "sample_fw = NewFileWatcher [] ''/etc/traefik/external-enabled'' ''10.0.0.1''"

definition sample_entry :: "string \<Rightarrow> string \<Rightarrow> dir_entry" where
  "sample_entry name content = \<lparr>de_Name = name, de_IsDir = False, de_Regular = Inr True, de_Content = Inr content\<rparr>"

lemma sample_entry_hosts:
  "fst (load_entry (\<lambda>s. s) sample_fw (sample_entry ''app.yml'' ''rule: Host(`App.lan`)'')) = [''app.lan'']"
  "fst (load_entry (\<lambda>s. s) sample_fw (sample_entry ''middleware.yml'' ''rule: Host(`m.lan`)'')) = []"
proof -
  have "ParseContent (\<lambda>s. s) (fw_parser sample_fw) ''rule: Host(`App.lan`)'' = [''app.lan'']" by code_simp
  moreover have "Ext ''app.yml'' = ''.yml''" "\<not> IsMiddlewareOnly ''app.yml''" by code_simp+
  ultimately show "fst (load_entry (\<lambda>s. s) sample_fw (sample_entry ''app.yml'' ''rule: Host(`App.lan`)'')) = [''app.lan'']"
    by (simp add: load_entry_def sample_entry_def ParseFile_def maxFileSize_def)
  have "IsMiddlewareOnly ''middleware.yml''" by code_simp
  then show "fst (load_entry (\<lambda>s. s) sample_fw (sample_entry ''middleware.yml'' ''rule: Host(`m.lan`)'')) = []"
    by (simp add: load_entry_def sample_entry_def Let_def)
qed

theorem reload_exact_witness:
  "te_Lookup (\<lambda>s. s) (fst (snd (loadAllConfigs (\<lambda>s. s) sorted_order sample_fw
     (Inr [sample_entry ''app.yml'' ''rule: Host(`App.lan`)'', sample_entry ''middleware.yml'' ''rule: Host(`m.lan`)''])
     ([''old.lan'' \<mapsto> ''10.0.0.9''], no_metrics)))) ''APP.lan'' = Some ''10.0.0.1''"
proof -
  let ?es = "[sample_entry ''app.yml'' ''rule: Host(`App.lan`)'', sample_entry ''middleware.yml'' ''rule: Host(`m.lan`)'']"
  obtain err r' m' where l: "loadAllConfigs (\<lambda>s. s) sorted_order sample_fw (Inr ?es) ([''old.lan'' \<mapsto> ''10.0.0.9''], no_metrics) = (err, r', m')"
    by (cases "loadAllConfigs (\<lambda>s. s) sorted_order sample_fw (Inr ?es) ([''old.lan'' \<mapsto> ''10.0.0.9''], no_metrics)")
  from reload_exact [OF lower_ok_id range_order_sorted l, of "''APP.lan''"]
  have "te_Lookup (\<lambda>s. s) r' ''APP.lan'' =
      (if \<exists>e \<in> set ?es. ToLower (\<lambda>s. s) ''APP.lan'' \<in> set (fst (load_entry (\<lambda>s. s) sample_fw e)) then Some (fw_hostIP sample_fw) else None)"
    by blast
  moreover have "fw_hostIP sample_fw = ''10.0.0.1''" by (simp add: sample_fw_def NewFileWatcher_def)
  ultimately show ?thesis by (simp add: l sample_entry_hosts lower_eval)
qed

text \<open>
  Debouncing: however many events arrive, the timer ends up armed when at least one of them
  concerns a YAML file that is not a middleware file, and its firing reloads once; firing
  again without a new event does nothing, and events of other files never cause a reload.
\<close>

theorem events_debounced:
  assumes "\<not> fw_debounceTimer fw"
  shows "timer_fires ul ord l (te_watchLoop (map FsEvent names) fw, rm) =
      (if \<exists>n \<in> set names. relevant n then (fw, snd (loadAllConfigs ul ord (fw\<lparr>fw_debounceTimer := True\<rparr>) l rm)) else (fw, rm)) \<and>
    timer_fires ul ord l' (timer_fires ul ord l (te_watchLoop (map FsEvent names) fw, rm)) =
      timer_fires ul ord l (te_watchLoop (map FsEvent names) fw, rm)"
  using assms by (cases fw) (simp add: timer_fires_def te_watchLoop_events)

theorem events_debounced_witness:
  "fst (timer_fires (\<lambda>s. s) sorted_order (Inr []) (te_watchLoop [FsEvent ''/d/a.yml'', FsEvent ''/d/b.yaml''] sample_fw, te_NewRecords, no_metrics)) = sample_fw \<and>
   m_reloadsTotal (snd (snd (timer_fires (\<lambda>s. s) sorted_order (Inr []) (te_watchLoop [FsEvent ''/d/a.yml'', FsEvent ''/d/b.yaml''] sample_fw, te_NewRecords, no_metrics)))) = 1"
proof -
  have n: "\<not> fw_debounceTimer sample_fw" by (simp add: sample_fw_def NewFileWatcher_def)
  have "relevant ''/d/a.yml''" by code_simp
  with events_debounced [OF n, of "\<lambda>s. s" sorted_order "Inr []" "[''/d/a.yml'', ''/d/b.yaml'']" "(te_NewRecords, no_metrics)"]
  show ?thesis by (simp add: loadAllConfigs_def load_entries_def no_metrics_def)
qed

text \<open>
  A reload after \<^verbatim>\<open>Stop\<close>: the timer is disarmed before the loop is told to
  end, so an event that the loop still handles in between arms it again, and it fires after
  \<^verbatim>\<open>Stop\<close> has returned and replaces the table of a stopped watcher.
\<close>

theorem reload_after_stop:
  assumes "fw_running fw" "relevant name"
    and "fw' = te_stop_end (te_watchLoop [FsEvent name, FsDone] (te_stop_begin fw))"
  shows "\<not> fw_running fw' \<and> fw_loops fw' = 0 \<and>
         snd (timer_fires ul ord l (fw', rm)) = snd (loadAllConfigs ul ord fw' l rm)"
  using assms by (simp add: te_stop_begin_def te_stop_end_def te_handleEvent_armed timer_fires_def)

theorem reload_after_stop_witness:
  "\<exists>fw'. \<not> fw_running fw' \<and> m_reloadsTotal (snd (snd (timer_fires (\<lambda>s. s) sorted_order (Inr []) (fw', te_NewRecords, no_metrics)))) = 1"
proof -
  have r: "relevant ''/d/a.yml''" by code_simp
  have run: "fw_running (sample_fw\<lparr>fw_running := True\<rparr>)" by simp
  from reload_after_stop [OF run r refl, of "\<lambda>s. s" sorted_order "Inr []" "(te_NewRecords, no_metrics)"] show ?thesis
    by (intro exI conjI) (blast, simp add: loadAllConfigs_def load_entries_def no_metrics_def)
qed

end
