(* ===== verification/TE_Server.thy ===== *)
theory TE_Server
  imports TE_File_Watcher Dns_Api
begin

text \<open>
  The query handler of \<^verbatim>\<open>traefik_externals.go\<close>, with the query counters it
  increments. \<^verbatim>\<open>fall.F\<close> is CoreDNS's: \<open>through\<close> is its method
  \<^verbatim>\<open>Through\<close>.
\<close>

section \<open>The plugin\<close>

record 'f TraefikExternals =
  te_Watcher :: FileWatcher
  te_TTL :: uint32
  te_Fall :: 'f

definition te_Name :: string where
  "te_Name = ''traefik-externals''"

text \<open>A counter is incremented only after the message was written.\<close>

definition write_counted :: "(reply \<Rightarrow> string option) \<Rightarrow> reply \<Rightarrow> string \<Rightarrow> metrics \<Rightarrow> (reply list \<times> outcome) \<times> metrics" where
  "write_counted wmsg msg type' m =
     (case wmsg msg of
        Some err \<Rightarrow> (([], Finished RcodeServerFailure (Some err)), m)
      | None \<Rightarrow> (([msg], Finished RcodeSuccess None), count_query type' ''success'' m))"

definition te_ServeDNS ::
  "(string \<Rightarrow> string) \<Rightarrow> ('f \<Rightarrow> string \<Rightarrow> bool) \<Rightarrow> (reply \<Rightarrow> string option) \<Rightarrow> 'f TraefikExternals \<Rightarrow> te_Records \<Rightarrow> metrics \<Rightarrow>
   query \<Rightarrow> (reply list \<times> outcome) \<times> metrics" where
  "te_ServeDNS ul through wmsg te r m q =
     (let qname = ToLower ul (q_Name q);
          qname = TrimSuffix qname ''.'';
          found = te_Lookup ul r qname
      in if q_QType q = TypeAAAA \<and> found \<noteq> None
         then write_counted wmsg (new_reply\<lparr>rp_Authoritative := True\<rparr>) ''AAAA'' m
         else if q_QType q \<noteq> TypeA then (([], NextPlugin), m)
         else case found of
           None \<Rightarrow>
             (let m = count_query ''A'' ''miss'' m
              in if through (te_Fall te) (q_Name q) then (([], NextPlugin), m)
                 else (([], Finished RcodeSuccess None), m))
         | Some ip \<Rightarrow>
             (case ParseIP ip of
                None \<Rightarrow> (([], Finished RcodeSuccess None), count_query ''A'' ''miss'' m)
              | Some parsedIP \<Rightarrow>
                  (case To4 parsedIP of
                     None \<Rightarrow> (([], Finished RcodeSuccess None), count_query ''A'' ''miss'' m)
                   | Some ip4 \<Rightarrow>
                       (let a = \<lparr>rr_Name = q_QName q, rr_Rrtype = TypeA, rr_Class = ClassINET,
                                 rr_Ttl = te_TTL te, rr_A = ip4\<rparr>
                        in write_counted wmsg (new_reply\<lparr>rp_Authoritative := True, rp_Answer := [a]\<rparr>) ''A'' m))))"

section \<open>How a query is answered\<close>

lemma te_ServeDNS_A:
  "q_QType q = TypeA \<Longrightarrow> te_ServeDNS ul through wmsg te r m q =
     (case te_Lookup ul r (lookup_name ul q) of
        None \<Rightarrow> (([], if through (te_Fall te) (q_Name q) then NextPlugin else Finished RcodeSuccess None), count_query ''A'' ''miss'' m)
      | Some ip \<Rightarrow> (case ipv4_of ip of
          None \<Rightarrow> (([], Finished RcodeSuccess None), count_query ''A'' ''miss'' m)
        | Some bytes \<Rightarrow> write_counted wmsg (a_reply q (te_TTL te) bytes) ''A'' m))"
  by (auto simp: te_ServeDNS_def lookup_name_def ipv4_of_def a_reply_def Let_def split: option.splits)

lemma te_ServeDNS_other:
  "q_QType q \<noteq> TypeA \<Longrightarrow> te_ServeDNS ul through wmsg te r m q =
     (if q_QType q = TypeAAAA \<and> te_Lookup ul r (lookup_name ul q) \<noteq> None
      then write_counted wmsg (new_reply\<lparr>rp_Authoritative := True\<rparr>) ''AAAA'' m else (([], NextPlugin), m))"
  by (auto simp: te_ServeDNS_def lookup_name_def Let_def)

interpretation tsv: answering_table ul "te_Lookup ul" "te_TTL te" "\<lambda>r q. fst (fst (te_ServeDNS ul through (\<lambda>_. None) te r m q))" for ul through te m
proof
  show "te_Lookup ul t (ToLower ul h) = te_Lookup ul t h" if "is_ascii h" for t h
    using that by (simp add: te_Lookup_def ToLower_ascii_idem)
  show "fst (fst (te_ServeDNS ul through (\<lambda>_. None) te t m q)) = [a_reply q (te_TTL te) bytes]"
    if "q_QType q = TypeA" "te_Lookup ul t (lookup_name ul q) = Some ip" "ipv4_of ip = Some bytes" for q t ip bytes
    using that by (simp add: te_ServeDNS_A write_counted_def)
  show "rp_Answer msg = []"
    if "q_QType q \<noteq> TypeA \<or> te_Lookup ul t (lookup_name ul q) = None \<or> (\<exists>ip. te_Lookup ul t (lookup_name ul q) = Some ip \<and> ipv4_of ip = None)"
      "msg \<in> set (fst (fst (te_ServeDNS ul through (\<lambda>_. None) te t m q)))" for q t msg
    using that by (cases "q_QType q = TypeA")
      (auto simp: te_ServeDNS_A te_ServeDNS_other write_counted_def new_reply_def split: option.splits if_splits)
qed

text \<open>The number of queries counted for a type.\<close>

definition counted :: "metrics \<Rightarrow> string \<Rightarrow> nat" where
  "counted m t = m_queriesTotal m (t, ''success'') + m_queriesTotal m (t, ''miss'')"

section \<open>Properties\<close>

text \<open>
  C14. The answers of the Traefik plugin: at most one message is written, it is authoritative,
  and it is either empty, for an AAAA query of a known name, or has one A record with the
  four octets of the address the table has for the name. A query is passed on only when it is
  neither an A query nor an AAAA query of a known name, or when it is an A query of an unknown
  name that fallthrough covers.
\<close>

theorem te_only_table_answers:
  "case te_ServeDNS ul through wmsg te r m q of ((ms, out), m') \<Rightarrow>
     length ms \<le> 1 \<and>
     list_all (\<lambda>msg. rp_Authoritative msg \<and>
       (q_QType q = TypeAAAA \<and> te_Lookup ul r (lookup_name ul q) \<noteq> None \<and> rp_Answer msg = [] \<or>
        (\<exists>ip bytes. te_Lookup ul r (lookup_name ul q) = Some ip \<and> ipv4_of ip = Some bytes \<and> length bytes = 4 \<and> octets bytes \<and>
           q_QType q = TypeA \<and> msg = a_reply q (te_TTL te) bytes))) ms \<and>
     (out = NextPlugin \<longleftrightarrow>
        (if q_QType q = TypeA then te_Lookup ul r (lookup_name ul q) = None \<and> through (te_Fall te) (q_Name q)
         else if q_QType q = TypeAAAA then te_Lookup ul r (lookup_name ul q) = None else True))"
proof (cases "q_QType q = TypeA")
  case True
  then show ?thesis
    by (auto simp: te_ServeDNS_A write_counted_def a_reply_def split: option.splits dest: ipv4_of_octets)
next
  case False
  then show ?thesis
    by (auto simp: te_ServeDNS_other write_counted_def new_reply_def split: option.splits)
qed

text \<open>
  Every A query that reaches the plugin and whose answer can be written is counted once, as
  a success exactly when an address was answered and as a miss otherwise.
\<close>

theorem a_queries_counted:
  assumes "q_QType q = TypeA" "\<forall>msg. wmsg msg = None" "te_ServeDNS ul through wmsg te r m q = ((ms, out), m')"
  shows "counted m' ''A'' = Suc (counted m ''A'') \<and> counted m' ''AAAA'' = counted m ''AAAA'' \<and>
    m_queriesTotal m' (''A'', ''success'') = m_queriesTotal m (''A'', ''success'') + length ms"
  using assms(3) unfolding te_ServeDNS_A [OF assms(1)]
  by (auto simp: write_counted_def assms(2) counted_def count_query_def split: option.splits if_splits)

definition sample_te :: "bool TraefikExternals" where
  "sample_te = \<lparr>te_Watcher = sample_fw, te_TTL = 60, te_Fall = True\<rparr>"

theorem a_queries_counted_witness:
  "counted (snd (te_ServeDNS (\<lambda>s. s) (\<lambda>f _. f) (\<lambda>_. None) sample_te te_NewRecords no_metrics
     \<lparr>q_Name = ''a.lan.'', q_QName = ''a.lan.'', q_QType = TypeA\<rparr>)) ''A'' = 1"
proof -
  let ?q = "\<lparr>q_Name = ''a.lan.'', q_QName = ''a.lan.'', q_QType = TypeA\<rparr>"
  obtain ms out m' where s: "te_ServeDNS (\<lambda>s. s) (\<lambda>f _. f) (\<lambda>_. None) sample_te te_NewRecords no_metrics ?q = ((ms, out), m')"
    by (metis prod.collapse)
  have "counted m' ''A'' = Suc (counted no_metrics ''A'')" by (rule a_queries_counted [OF _ _ s, THEN conjunct1]) simp_all
  moreover have "counted no_metrics ''A'' = 0" by (simp add: counted_def no_metrics_def)
  ultimately show ?thesis by (simp add: s)
qed

text \<open>
  An address that is not IPv4 bypasses fallthrough: a name the table maps to such an
  address is dropped without a reply even where fallthrough covers it, while the same query
  for an unknown name would be passed on.
\<close>

theorem bad_address_ignores_fallthrough:
  assumes "q_QType q = TypeA" "te_Lookup ul r (lookup_name ul q) = Some ip" "ipv4_of ip = None"
    and "through (te_Fall te) (q_Name q)" "te_Lookup ul r' (lookup_name ul q) = None"
  shows "fst (te_ServeDNS ul through wmsg te r m q) = ([], Finished RcodeSuccess None) \<and>
         fst (te_ServeDNS ul through wmsg te r' m q) = ([], NextPlugin)"
  using assms by (simp add: te_ServeDNS_A)

lemma ipv4_of_loopback6: "ipv4_of ''::1'' = None"
proof -
  have "ipv6_loop ''1'' (Some 0) [] = Some ([], Some 0, [0, 1])"
    by (simp add: ipv6_loop.simps [of _ _ "[]"] ipv6_group_def hex_digit_def is_digit_def)
  then show ?thesis by (simp add: ipv4_of_def ParseIP_def parseIPv6_def To4_def nth_append)
qed

theorem bad_address_ignores_fallthrough_witness:
  "fst (te_ServeDNS (\<lambda>s. s) (\<lambda>f _. f) (\<lambda>_. None) sample_te (te_Add (\<lambda>s. s) te_NewRecords ''a.lan'' ''::1'') no_metrics
     \<lparr>q_Name = ''a.lan.'', q_QName = ''a.lan.'', q_QType = TypeA\<rparr>) = ([], Finished RcodeSuccess None)"
proof -
  let ?q = "\<lparr>q_Name = ''a.lan.'', q_QName = ''a.lan.'', q_QType = TypeA\<rparr>" and ?r = "te_Add (\<lambda>s. s) te_NewRecords ''a.lan'' ''::1''"
  have l: "te_Lookup (\<lambda>s. s) ?r (lookup_name (\<lambda>s. s) ?q) = Some ''::1''"
    by (simp add: lookup_name_def te_Lookup_def te_Add_def TrimSuffix_def HasSuffix_def lower_eval)
  show ?thesis
    using bad_address_ignores_fallthrough [OF _ l ipv4_of_loopback6, of "\<lambda>f _. f" sample_te te_NewRecords "\<lambda>_. None" no_metrics]
    by (simp add: sample_te_def te_Lookup_def te_NewRecords_def)
qed

end
