(* ===== verification/TE_Setup.thy ===== *)
theory TE_Setup
  imports TE_Server Caddy
begin

text \<open>
  The setup of \<^verbatim>\<open>traefik-externals/setup.go\<close>: reading the Corefile block, the
  environment, the checks, and whether the plugin is added to the chain. The environment is
  the function \<open>getenv\<close> (empty for an unset variable) and the list \<open>environ\<close>; the zones of
  \<^verbatim>\<open>fallthrough\<close> are CoreDNS's: \<open>f0\<close> is the zero value of
  \<^verbatim>\<open>fall.F\<close> and \<open>setzones\<close> its method \<^verbatim>\<open>SetZonesFromArgs\<close>.
\<close>

section \<open>Reading the Corefile\<close>

datatype setup_error =
    ArgErr
  | InvalidTTL string
  | UnknownProperty string
  | HostIPRequired
  | InvalidHostIP string

record 'f te_vars =
  tv_directory :: string
  tv_hostIP :: string
  tv_ttl :: uint32
  tv_fall :: 'f

definition te_defaults :: "'f \<Rightarrow> 'f te_vars" where
  "te_defaults f0 = \<lparr>tv_directory = ''/etc/traefik/external-enabled'', tv_hostIP = [], tv_ttl = 60, tv_fall = f0\<rparr>"

text \<open>The body of the inner loop: the switch on the directive.\<close>

definition te_directive ::
  "('f \<Rightarrow> string list \<Rightarrow> 'f) \<Rightarrow> 's controller \<Rightarrow> 's \<Rightarrow> 'f te_vars \<Rightarrow> setup_error + 's \<times> 'f te_vars" where
  "te_directive setzones c s v =
     (if c_Val c s = ''directory'' then
        (case c_NextArg c s of (ok, s) \<Rightarrow> if \<not> ok then Inl ArgErr else Inr (s, v\<lparr>tv_directory := c_Val c s\<rparr>))
      else if c_Val c s = ''host_ip'' then
        (case c_NextArg c s of (ok, s) \<Rightarrow> if \<not> ok then Inl ArgErr else Inr (s, v\<lparr>tv_hostIP := c_Val c s\<rparr>))
      else if c_Val c s = ''ttl'' then
        (case c_NextArg c s of (ok, s) \<Rightarrow>
           if \<not> ok then Inl ArgErr
           else case ParseUint (c_Val c s) 32 of
                  None \<Rightarrow> Inl (InvalidTTL (c_Val c s))
                | Some parsed \<Rightarrow> Inr (s, v\<lparr>tv_ttl := of_nat parsed\<rparr>))
      else if c_Val c s = ''fallthrough'' then
        (case c_RemainingArgs c s of (args, s) \<Rightarrow> Inr (s, v\<lparr>tv_fall := setzones (tv_fall v) args\<rparr>))
      else Inl (UnknownProperty (c_Val c s)))"

section \<open>The environment and the checks\<close>

definition te_env :: "(string \<Rightarrow> string) \<Rightarrow> 'f te_vars \<Rightarrow> 'f te_vars" where
  "te_env getenv v =
     (let v = (if getenv ''TRAEFIK_EXTERNALS_DIRECTORY'' \<noteq> [] then v\<lparr>tv_directory := getenv ''TRAEFIK_EXTERNALS_DIRECTORY''\<rparr> else v);
          v = (if getenv ''HOSTIP'' \<noteq> [] then v\<lparr>tv_hostIP := getenv ''HOSTIP''\<rparr> else v)
      in if getenv ''TRAEFIK_EXTERNALS_TTL'' \<noteq> []
         then case ParseUint (getenv ''TRAEFIK_EXTERNALS_TTL'') 32 of
                None \<Rightarrow> v
              | Some parsed \<Rightarrow> v\<lparr>tv_ttl := of_nat parsed\<rparr>
         else v)"

definition te_finish :: "string list \<Rightarrow> 'f te_vars \<Rightarrow> setup_error + 'f TraefikExternals" where
  "te_finish environ v =
     (if tv_hostIP v = [] then Inl HostIPRequired
      else if ParseIP (tv_hostIP v) = None then Inl (InvalidHostIP (tv_hostIP v))
      else Inr \<lparr>te_Watcher = NewFileWatcher environ (tv_directory v) (tv_hostIP v), te_TTL = tv_ttl v, te_Fall = tv_fall v\<rparr>)"

definition te_parseConfig ::
  "'f \<Rightarrow> ('f \<Rightarrow> string list \<Rightarrow> 'f) \<Rightarrow> (string \<Rightarrow> string) \<Rightarrow> string list \<Rightarrow> 's controller \<Rightarrow> 's \<Rightarrow>
   (setup_error + 'f TraefikExternals) option" where
  "te_parseConfig f0 setzones getenv environ c s =
     (case corefile c (te_directive setzones c) s (te_defaults f0) of
        None \<Rightarrow> None
      | Some (Inl err) \<Rightarrow> Some (Inl err)
      | Some (Inr (_, v)) \<Rightarrow> Some (te_finish environ (te_env getenv v)))"

definition isDisabled :: "(string \<Rightarrow> string) \<Rightarrow> (string \<Rightarrow> string) \<Rightarrow> bool" where
  "isDisabled ul getenv =
     (let val = getenv ''TRAEFIK_EXTERNALS_ENABLED''
      in if val = [] then False
         else let val = ToLower ul val in val = ''false'' \<or> val = ''no'' \<or> val = ''0'')"

text \<open>
  The result of \<^verbatim>\<open>setup\<close>: an error, the plugin left out of the chain, or added to it
  with the watcher started. \<open>missing\<close> says whether a directory does not exist and \<open>readdir\<close>
  what reading it gives; \<open>newWatcher\<close> and \<open>addDir\<close> are the errors of fsnotify, if any.
\<close>

datatype 'f te_setup_result = TeFailed string | TeConfigError setup_error | TeDisabled | TeAdded "'f TraefikExternals" te_Records metrics

definition te_setup ::
  "(string \<Rightarrow> string) \<Rightarrow> (string go_map \<Rightarrow> string list) \<Rightarrow> 'f \<Rightarrow> ('f \<Rightarrow> string list \<Rightarrow> 'f) \<Rightarrow> (string \<Rightarrow> string) \<Rightarrow> string list \<Rightarrow>
   (string \<Rightarrow> bool) \<Rightarrow> string option \<Rightarrow> string option \<Rightarrow> (string \<Rightarrow> string + dir_entry list) \<Rightarrow> metrics \<Rightarrow>
   's controller \<Rightarrow> 's \<Rightarrow> 'f te_setup_result option" where
  "te_setup ul ord f0 setzones getenv environ missing newWatcher addDir readdir m c s =
     (case te_parseConfig f0 setzones getenv environ c s of
        None \<Rightarrow> None
      | Some (Inl err) \<Rightarrow> Some (TeConfigError err)
      | Some (Inr te) \<Rightarrow>
          if isDisabled ul getenv then Some TeDisabled
          else if missing (fw_directory (te_Watcher te)) then Some TeDisabled
          else case te_Start ul ord newWatcher addDir (readdir (fw_directory (te_Watcher te))) (te_Watcher te, te_NewRecords, m) of
                 (Some err, _) \<Rightarrow> Some (TeFailed err)
               | (None, fw, r, m) \<Rightarrow> Some (TeAdded (te\<lparr>te_Watcher := fw\<rparr>) r m))"

text \<open>The handler it registers for the shutdown.\<close>

definition te_shutdown :: "'f TraefikExternals \<Rightarrow> 'f TraefikExternals" where
  "te_shutdown te = te\<lparr>te_Watcher := te_Stop (te_Watcher te)\<rparr>"

section \<open>The loops end\<close>

lemma te_directive_bound:
  assumes "advances c left" "te_directive setzones c s v = Inr (s', v')"
  shows "left s' \<le> left s"
proof -
  have arg: "left (snd (c_NextArg c s)) \<le> left s" "left (snd (c_RemainingArgs c s)) \<le> left s"
    using assms(1) by (simp_all add: advances_def)
  have "s' = snd (c_NextArg c s) \<or> s' = snd (c_RemainingArgs c s)"
    using assms(2) by (auto simp: te_directive_def split: if_splits prod.splits option.splits)
  with arg show ?thesis by auto
qed

lemma te_parse_returns:
  assumes "advances c left"
  shows "\<exists>res. te_parseConfig f0 setzones getenv environ c s = Some res"
proof -
  obtain y where "corefile c (te_directive setzones c) s (te_defaults f0) = Some y"
    using corefile_returns [OF assms, of "te_directive setzones c"] te_directive_bound [OF assms] by blast
  then show ?thesis by (cases y) (auto simp: te_parseConfig_def split: sum.splits)
qed

text \<open>What an accepted configuration ensures.\<close>

definition te_checked :: "(string \<Rightarrow> string) \<Rightarrow> FileWatcher \<Rightarrow> bool" where
  "te_checked getenv fw \<longleftrightarrow> ParseIP (fw_hostIP fw) \<noteq> None \<and>
     (getenv ''HOSTIP'' \<noteq> [] \<longrightarrow> fw_hostIP fw = getenv ''HOSTIP'') \<and>
     (getenv ''TRAEFIK_EXTERNALS_DIRECTORY'' \<noteq> [] \<longrightarrow> fw_directory fw = getenv ''TRAEFIK_EXTERNALS_DIRECTORY'')"

lemma te_finish_checked:
  "te_finish environ (te_env getenv v) = Inr te \<Longrightarrow> te_checked getenv (te_Watcher te) \<and> \<not> fw_running (te_Watcher te)"
  by (auto simp: te_finish_def te_env_def te_checked_def NewFileWatcher_def Let_def split: if_splits option.splits)

lemma te_parse_checked:
  "te_parseConfig f0 setzones getenv environ c s = Some (Inr te) \<Longrightarrow> te_checked getenv (te_Watcher te) \<and> \<not> fw_running (te_Watcher te)"
  by (auto simp: te_parseConfig_def te_finish_checked split: option.splits sum.splits)

lemma load_entry_fields:
  "fw_parser fw = fw_parser fw' \<Longrightarrow> load_entry ul fw e = load_entry ul fw' e"
  by (auto simp: load_entry_def Let_def split: sum.splits)

lemma te_Start_loads:
  assumes "te_Start ul ord newWatcher addDir listing (fw, te_NewRecords, m) = (None, fw', r, m')"
    and "\<not> fw_running fw" "lower_ok ul" "range_order ord"
  shows "fw_running fw' \<and> fw_directory fw' = fw_directory fw \<and> fw_hostIP fw' = fw_hostIP fw \<and>
    (case listing of Inl err \<Rightarrow> r = te_NewRecords
     | Inr entries \<Rightarrow> \<forall>h. te_Lookup ul r h =
         (if \<exists>e \<in> set entries. ToLower ul h \<in> set (fst (load_entry ul fw' e)) then Some (fw_hostIP fw') else None))"
proof -
  from assms(1,2) have fw: "fw' = fw\<lparr>fw_watcher := True, fw_running := True, fw_cancelled := False, fw_loops := Suc (fw_loops fw)\<rparr>"
    and load: "(r, m') = snd (loadAllConfigs ul ord (fw\<lparr>fw_watcher := True, fw_running := True, fw_cancelled := False\<rparr>) listing (te_NewRecords, m))"
    by (auto simp: te_Start_def Let_def split: option.splits)
  have same: "load_entry ul (fw\<lparr>fw_watcher := True, fw_running := True, fw_cancelled := False\<rparr>) e = load_entry ul fw' e" for e
    by (rule load_entry_fields) (simp add: fw)
  show ?thesis
  proof (cases listing)
    case (Inl err)
    with fw load show ?thesis by (simp add: loadAllConfigs_error)
  next
    case (Inr entries)
    with load have "r = (\<lambda>h. if \<exists>e \<in> set entries. h \<in> set (fst (load_entry ul fw' e)) then Some (fw_hostIP fw') else None)"
      unfolding Inr loadAllConfigs_result [OF assms(3,4)] same Let_def by (simp add: fw cong: if_cong)
    with Inr fw show ?thesis by (simp add: te_Lookup_def)
  qed
qed

section \<open>Properties\<close>

text \<open>
  C32. Setting the plugin up always returns, with a controller that consumes its tokens. If it
  adds the plugin to the chain, the plugin is enabled, its directory exists, its address
  parses as an IP address, the environment took precedence over the Corefile for address and
  directory, the watcher runs, and the table is already exactly the hosts of the loadable
  files of the directory, or empty if the directory could not be read. It leaves the plugin
  out only when it is disabled or its directory is missing, and fails only with an error of the
  configuration or of fsnotify.
\<close>

theorem te_setup_outcome:
  assumes "advances c left" "lower_ok ul" "range_order ord"
  shows "\<exists>res. te_setup ul ord f0 setzones getenv environ missing newWatcher addDir readdir m c s = Some res \<and>
    (case res of
       TeConfigError err \<Rightarrow> te_parseConfig f0 setzones getenv environ c s = Some (Inl err)
     | TeFailed err \<Rightarrow> newWatcher = Some err \<or> addDir = Some err
     | TeDisabled \<Rightarrow> isDisabled ul getenv \<or>
         (\<exists>te. te_parseConfig f0 setzones getenv environ c s = Some (Inr te) \<and> missing (fw_directory (te_Watcher te)))
     | TeAdded te r m' \<Rightarrow> \<not> isDisabled ul getenv \<and> \<not> missing (fw_directory (te_Watcher te)) \<and>
         te_checked getenv (te_Watcher te) \<and> fw_running (te_Watcher te) \<and>
         (case readdir (fw_directory (te_Watcher te)) of
            Inl err \<Rightarrow> r = te_NewRecords
          | Inr entries \<Rightarrow> \<forall>h. te_Lookup ul r h =
              (if \<exists>e \<in> set entries. ToLower ul h \<in> set (fst (load_entry ul (te_Watcher te) e))
               then Some (fw_hostIP (te_Watcher te)) else None)))"
proof -
  obtain parsed where p: "te_parseConfig f0 setzones getenv environ c s = Some parsed"
    by (rule exE [OF te_parse_returns [OF assms(1)]])
  show ?thesis
  proof (cases parsed)
    case (Inl err)
    with p show ?thesis by (simp add: te_setup_def)
  next
    case (Inr te)
    note ok = te_parse_checked [OF p [unfolded Inr]]
    let ?dir = "fw_directory (te_Watcher te)"
    let ?start = "te_Start ul ord newWatcher addDir (readdir ?dir) (te_Watcher te, te_NewRecords, m)"
    obtain err fw r m' where st: "?start = (err, fw, r, m')" by (cases ?start)
    have failed: "newWatcher = Some e \<or> addDir = Some e" if "err = Some e" for e
      using st ok that by (auto simp: te_Start_def Let_def split: option.splits)
    from p Inr st show ?thesis
      using ok failed te_Start_loads [of ul ord newWatcher addDir "readdir ?dir" "te_Watcher te" m fw r m', OF _ _ assms(2,3)]
      by (cases err) (auto simp: te_setup_def te_checked_def split: sum.splits)
  qed
qed

definition sample_corefile :: tokens where
  "sample_corefile = ((0, []), [(1, ''traefik-externals''), (1, ''{''), (2, ''host_ip''), (2, ''10.0.0.1''),
     (3, ''fallthrough''), (4, ''}'')], 0)"

lemma sample_parses:
  "te_parseConfig [] (\<lambda>f args. args) (\<lambda>_. []) [] tok_controller sample_corefile =
     Some (Inr \<lparr>te_Watcher = sample_fw, te_TTL = 60, te_Fall = []\<rparr>)"
proof -
  have "corefile tok_controller (te_directive (\<lambda>f args. args) tok_controller) sample_corefile (te_defaults []) =
      Some (Inr (((4, ''}''), [], 0), (te_defaults [])\<lparr>tv_hostIP := ''10.0.0.1''\<rparr>))"
    by code_simp
  moreover have "ParseIP ''10.0.0.1'' \<noteq> None" by code_simp
  ultimately show ?thesis by (simp add: te_parseConfig_def te_env_def te_finish_def te_defaults_def sample_fw_def)
qed

theorem te_setup_outcome_witness:
  "\<exists>te r m. te_setup (\<lambda>s. s) sorted_order [] (\<lambda>f args. args) (\<lambda>_. []) [] (\<lambda>_. False) None None
       (\<lambda>_. Inr [sample_entry ''app.yml'' ''rule: Host(`App.lan`)'']) no_metrics tok_controller sample_corefile = Some (TeAdded te r m) \<and>
     te_Lookup (\<lambda>s. s) r ''app.lan'' = Some ''10.0.0.1''"
proof -
  let ?es = "[sample_entry ''app.yml'' ''rule: Host(`App.lan`)'']"
  let ?result = "te_setup (\<lambda>s. s) sorted_order [] (\<lambda>f args. args) (\<lambda>_. []) [] (\<lambda>_. False) None None (\<lambda>_. Inr ?es) no_metrics
    tok_controller sample_corefile"
  obtain fw r m where start: "te_Start (\<lambda>s. s) sorted_order None None (Inr ?es) (sample_fw, te_NewRecords, no_metrics) = (None, fw, r, m)"
    and fw: "fw_parser fw = fw_parser sample_fw" "fw_hostIP fw = ''10.0.0.1''"
    by (cases "snd (loadAllConfigs (\<lambda>s. s) sorted_order (sample_fw\<lparr>fw_watcher := True, fw_running := True, fw_cancelled := False\<rparr>) (Inr ?es) (te_NewRecords, no_metrics))")
       (auto simp: te_Start_def sample_fw_def NewFileWatcher_def Let_def)
  have added: "?result = Some (TeAdded \<lparr>te_Watcher = fw, te_TTL = 60, te_Fall = []\<rparr> r m)"
    by (simp add: te_setup_def sample_parses isDisabled_def start)
  have "te_Lookup (\<lambda>s. s) r h = (if \<exists>e \<in> set ?es. ToLower (\<lambda>s. s) h \<in> set (fst (load_entry (\<lambda>s. s) fw e)) then Some (fw_hostIP fw) else None)" for h
    using te_setup_outcome [OF tok_advances lower_ok_id range_order_sorted, of "[]" "\<lambda>f args. args" "\<lambda>_. []" "[]" "\<lambda>_. False" None None
      "\<lambda>_. Inr ?es" no_metrics sample_corefile] unfolding added by simp
  then show ?thesis using added
    by (auto simp: load_entry_fields [OF fw(1)] sample_entry_hosts fw(2) lower_eval)
qed

text \<open>
  An IPv6 address is accepted as the host address although no A record can carry it: then
  every A query of a configured name is dropped without an answer.
\<close>

theorem ipv6_host_accepted_then_dropped:
  assumes "te_finish environ v = Inr te" "tv_hostIP v = ''::1''"
    and "q_QType q = TypeA" "te_Lookup ul r (lookup_name ul q) = Some (fw_hostIP (te_Watcher te))"
  shows "fst (te_ServeDNS ul through wmsg te r m q) = ([], Finished RcodeSuccess None)"
proof -
  have "fw_hostIP (te_Watcher te) = ''::1''"
    using assms(1,2) by (auto simp: te_finish_def NewFileWatcher_def split: if_splits)
  with assms(3,4) show ?thesis by (simp add: te_ServeDNS_A ipv4_of_loopback6)
qed

lemma loopback6_parses: "ParseIP ''::1'' \<noteq> None"
proof -
  have "ipv6_loop ''1'' (Some 0) [] = Some ([], Some 0, [0, 1])"
    by (simp add: ipv6_loop.simps [of _ _ "[]"] ipv6_group_def hex_digit_def is_digit_def)
  then show ?thesis by (simp add: ParseIP_def parseIPv6_def)
qed

theorem ipv6_host_accepted_then_dropped_witness:
  "\<exists>te. te_finish [] ((te_defaults True)\<lparr>tv_hostIP := ''::1''\<rparr>) = Inr te \<and>
     fst (te_ServeDNS (\<lambda>s. s) (\<lambda>f _. f) (\<lambda>_. None) te (te_Add (\<lambda>s. s) te_NewRecords ''a.lan'' ''::1'') no_metrics
       \<lparr>q_Name = ''a.lan.'', q_QName = ''a.lan.'', q_QType = TypeA\<rparr>) = ([], Finished RcodeSuccess None)"
proof -
  let ?v = "(te_defaults True)\<lparr>tv_hostIP := ''::1''\<rparr>" and ?q = "\<lparr>q_Name = ''a.lan.'', q_QName = ''a.lan.'', q_QType = TypeA\<rparr>"
  obtain te where te: "te_finish [] ?v = Inr te" and ip: "fw_hostIP (te_Watcher te) = ''::1''"
    using loopback6_parses by (simp add: te_finish_def NewFileWatcher_def)
  have l: "te_Lookup (\<lambda>s. s) (te_Add (\<lambda>s. s) te_NewRecords ''a.lan'' ''::1'') (lookup_name (\<lambda>s. s) ?q) = Some (fw_hostIP (te_Watcher te))"
    by (simp add: ip lookup_name_def te_Lookup_def te_Add_def TrimSuffix_def HasSuffix_def lower_eval)
  show ?thesis using te ipv6_host_accepted_then_dropped [OF te _ _ l, of "\<lambda>f _. f" "\<lambda>_. None" no_metrics] by auto
qed

end
