(* ===== verification/Plugin_Chain.thy ===== *)
theory Plugin_Chain
  imports DC_Setup TE_Setup
begin

text \<open>
  The two plugins in one server. CoreDNS chains its plugins in the order of
  \<^verbatim>\<open>plugin.cfg\<close>, where \<^verbatim>\<open>docker-cluster\<close> stands right before
  \<^verbatim>\<open>traefik-externals\<close>: the functions that the two \<^verbatim>\<open>setup\<close>
  functions give to \<^verbatim>\<open>AddPlugin\<close> store the next handler in
  \<^verbatim>\<open>Next\<close>, and a query goes there when the first handler returns
  \<^verbatim>\<open>NextOrFailure\<close>. The outcome \<open>NextPlugin\<close> of the chain is a query that leaves both.
\<close>

section \<open>The chain\<close>

definition serve_chain ::
  "(string \<Rightarrow> string) \<Rightarrow> ('f \<Rightarrow> string \<Rightarrow> bool) \<Rightarrow> (reply \<Rightarrow> string option) \<Rightarrow> ('f, 'q, 'ml) DockerCluster \<Rightarrow> Records \<Rightarrow>
   'f TraefikExternals \<Rightarrow> te_Records \<Rightarrow> metrics \<Rightarrow> query \<Rightarrow> (reply list \<times> outcome) \<times> metrics" where
  "serve_chain ul through wmsg dc r te ter m q =
     (case ServeDNS ul through wmsg dc r q of (ms, out) \<Rightarrow>
        if out = NextPlugin
        then (case te_ServeDNS ul through wmsg te ter m q of ((ms', out'), m') \<Rightarrow> ((ms @ ms', out'), m'))
        else ((ms, out), m))"

lemma handleUnknown_through: "through (dc_Fall dc) (q_Name q) \<Longrightarrow> handleUnknown through wmsg dc q = ([], NextPlugin)"
  by (simp add: handleUnknown_def)

lemma handleUnknown_kept:
  assumes "\<not> through (dc_Fall dc) (q_Name q)"
  obtains ms out where "handleUnknown through wmsg dc q = (ms, out)" "out \<noteq> NextPlugin" "list_all (\<lambda>msg. rp_Answer msg = []) ms"
  by (cases "handleUnknown through wmsg dc q")
     (use assms in \<open>auto simp: handleUnknown_def write_reply_def new_reply_def split: UnknownAction.splits option.splits\<close>)

lemma ServeDNS_unknown: "Lookup ul r (lookup_name ul q) = None \<Longrightarrow> ServeDNS ul through wmsg dc r q = handleUnknown through wmsg dc q"
  by (cases "q_QType q = TypeA"; cases "q_QType q = TypeAAAA") (simp_all add: ServeDNS_A ServeDNS_AAAA ServeDNS_other)

section \<open>A Corefile without fallthrough\<close>

lemma directive_keeps_fall:
  assumes "never_shows c ''fallthrough'' s" "dc_directive ul setzones c s v = Inr (s', v')"
  shows "never_shows c ''fallthrough'' s' \<and> v_fall v' = v_fall v"
proof -
  have s: "c_Val c s \<noteq> ''fallthrough''" "never_shows c ''fallthrough'' (snd (c_NextArg c s))" "never_shows c ''fallthrough'' (snd (c_RemainingArgs c s))"
    using assms(1) by (auto simp: never_shows_unfold [of c _ s])
  have "s' = snd (c_NextArg c s) \<or> s' = snd (c_RemainingArgs c s)" "v_fall v' = v_fall v"
    using assms(2) s(1) by (auto simp: dc_directive_def one_arg_def Let_def split: if_splits prod.splits sum.splits option.splits)
  with s show ?thesis by auto
qed

lemma env_keeps_fall: "dc_env ul getenv v = Inr v' \<Longrightarrow> v_fall v' = v_fall v"
  unfolding dc_env_def
  by (erule run_steps_keeps) (auto simp: env_defs upd_cluster_def split: option.splits if_splits)

lemma parse_without_fallthrough:
  assumes "never_shows c ''fallthrough'' s" "parseConfig ul f0 setzones getenv os_hostname c s = Some (Inr dc)"
  shows "dc_Fall dc = f0"
proof -
  obtain s' v v' where c: "corefile c (dc_directive ul setzones c) s (dc_defaults f0) = Some (Inr (s', v))"
    and e: "dc_env ul getenv v = Inr v'" "dc_finish os_hostname v' = Inr dc"
    using assms(2) by (auto simp: parseConfig_def split: option.splits sum.splits)
  have "never_shows c ''fallthrough'' s' \<and> v_fall v = f0"
    using c by (rule corefile_invariant)
      (use assms(1) in \<open>auto simp: dc_defaults_def elim: never_shows.cases dest: directive_keeps_fall\<close>)
  with e show ?thesis by (auto simp: dc_finish_def Let_def dest: env_keeps_fall split: if_splits sum.splits)
qed

section \<open>Properties\<close>

text \<open>
  C20. How the two plugins resolve an A query together, when the stored addresses are IPv4: the
  container table answers first; a name it does not know goes on to the Traefik table exactly
  when the first plugin's fallthrough covers the name, and is treated as unknown there
  otherwise; a name neither knows leaves the chain when the second plugin's fallthrough covers it.
\<close>

theorem chain_resolution:
  assumes "q_QType q = TypeA" "q_Name q = h @ ''.''" "is_ascii h" "\<forall>msg. wmsg msg = None"
    and "\<forall>ip. Lookup ul r h = Some ip \<longrightarrow> ipv4_of ip \<noteq> None" "\<forall>ip. te_Lookup ul ter h = Some ip \<longrightarrow> ipv4_of ip \<noteq> None"
  shows "fst (serve_chain ul through wmsg dc r te ter m q) =
    (case Lookup ul r h of
       Some ip \<Rightarrow> ([a_reply q (dc_TTL dc) (the (ipv4_of ip))], Finished RcodeSuccess None)
     | None \<Rightarrow>
         if \<not> through (dc_Fall dc) (q_Name q) then handleUnknown through wmsg dc q
         else case te_Lookup ul ter h of
                Some ip \<Rightarrow> ([a_reply q (te_TTL te) (the (ipv4_of ip))], Finished RcodeSuccess None)
              | None \<Rightarrow> ([], if through (te_Fall te) (q_Name q) then NextPlugin else Finished RcodeSuccess None))"
proof -
  have n: "lookup_name ul q = ToLower ul h" using assms(2,3) by (rule lookup_name_fqdn)
  have l: "Lookup ul r (lookup_name ul q) = Lookup ul r h" "te_Lookup ul ter (lookup_name ul q) = te_Lookup ul ter h"
    unfolding n using assms(3) by (simp_all add: Lookup_def te_Lookup_def ToLower_ascii_idem)
  show ?thesis
  proof (cases "Lookup ul r h")
    case None
    then have s: "ServeDNS ul through wmsg dc r q = handleUnknown through wmsg dc q" by (simp add: ServeDNS_unknown l)
    show ?thesis
    proof (cases "through (dc_Fall dc) (q_Name q)")
      case True
      then show ?thesis using None assms(1,4,6)
        by (auto simp: serve_chain_def s handleUnknown_through te_ServeDNS_A l write_counted_def split: option.splits)
    next
      case False
      then show ?thesis using None
        by (rule_tac handleUnknown_kept [of through dc q wmsg]) (simp_all add: serve_chain_def s)
    qed
  next
    case (Some ip)
    with assms(5) obtain bytes where "ipv4_of ip = Some bytes" by auto
    with Some assms(1,4) show ?thesis by (simp add: serve_chain_def ServeDNS_A l write_reply_def)
  qed
qed

text \<open>A container and an external service behind a first plugin with fallthrough.\<close>

definition sample_query :: "string \<Rightarrow> query" where
  "sample_query h = \<lparr>q_Name = h @ ''.'', q_QName = h @ ''.'', q_QType = TypeA\<rparr>"

theorem chain_resolution_witness:
  "fst (serve_chain (\<lambda>s. s) (\<lambda>f _. f) (\<lambda>_. None) ((sample_dc ActionDrop)\<lparr>dc_Fall := True\<rparr>) NewRecords
     sample_te (te_Add (\<lambda>s. s) te_NewRecords ''Ext.lan'' ''10.0.0.1'') no_metrics (sample_query ''ext.lan'')) =
   ([a_reply (sample_query ''ext.lan'') 60 [10, 0, 0, 1]], Finished RcodeSuccess None)"
proof -
  have ip: "ipv4_of ''10.0.0.1'' = Some [10, 0, 0, 1]" unfolding dotted_10 [symmetric] by (rule ipv4_of_dotted) simp
  show ?thesis
    by (subst chain_resolution [where h = "''ext.lan''"])
       (simp_all add: sample_query_def ip te_Lookup_def te_Add_def te_NewRecords_def lower_eval sample_te_def)
qed

text \<open>
  C21. A Corefile that does not write \<^verbatim>\<open>fallthrough\<close> in the block of
  \<^verbatim>\<open>docker-cluster\<close>, as the shipped one does not, cuts the Traefik plugin off: whatever the
  Traefik table holds, a query of a name that no container has gets no answer, never reaches the
  second plugin and is not counted there. The zero value of \<^verbatim>\<open>fall.F\<close> covers no name.
\<close>

theorem no_fallthrough_hides_externals:
  assumes "never_shows c ''fallthrough'' s" "parseConfig ul f0 setzones getenv os_hostname c s = Some (Inr dc)"
    and "\<forall>n. \<not> through f0 n" "Lookup ul r (lookup_name ul q) = None"
  shows "\<exists>ms out. serve_chain ul through wmsg dc r te ter m q = ((ms, out), m) \<and> out \<noteq> NextPlugin \<and>
    list_all (\<lambda>msg. rp_Answer msg = []) ms"
proof -
  have "\<not> through (dc_Fall dc) (q_Name q)" using parse_without_fallthrough [OF assms(1,2)] assms(3) by simp
  then obtain ms out where "handleUnknown through wmsg dc q = (ms, out)" "out \<noteq> NextPlugin" "list_all (\<lambda>msg. rp_Answer msg = []) ms"
    by (rule handleUnknown_kept)
  then show ?thesis by (simp add: serve_chain_def ServeDNS_unknown [OF assms(4)])
qed

text \<open>The block of the shipped \<^verbatim>\<open>Corefile\<close>, as tokens with their lines.\<close>

definition shipped_block :: tokens where
  "shipped_block = ((0, []), [(1, ''docker-cluster''), (1, ''{''),
     (2, ''docker_socket''), (2, ''unix:///var/run/docker.sock''), (3, ''host_ip''), (3, ''0.0.0.0''),
     (4, ''label''), (4, ''coredns.host.name''), (5, ''label''), (5, ''joyride.host.name''),
     (6, ''ttl''), (6, ''60''), (7, ''}'')], 0)"

lemma shipped_vars:
  "corefile tok_controller (dc_directive (\<lambda>s. s) (\<lambda>f args. True) tok_controller) shipped_block (dc_defaults False) =
     Some (Inr (((7, ''}''), [], 0), (dc_defaults False)\<lparr>v_hostIP := ''0.0.0.0'', v_labels := [''coredns.host.name'', ''joyride.host.name'']\<rparr>))"
  by (simp add: corefile_def corefile_block_def shipped_block_def tok_controller_def dc_directive_def one_arg_def Let_def
      for_loop_stop for_loop_go ParseUint_def dec_value_def is_digit_def dc_defaults_def)

definition shipped_plugin :: "(bool, unit, unit) DockerCluster" where
  "shipped_plugin = \<lparr>dc_Watcher = NewDockerWatcher ''unix:///var/run/docker.sock'' ''0.0.0.0'' [''coredns.host.name'', ''joyride.host.name''],
     dc_TTL = 60, dc_Fall = False, dc_UnknownAction = ActionDrop, dc_ClusterConfig = Some NewClusterConfig, dc_ClusterManager = None\<rparr>"

lemma shipped_parses: "parseConfig (\<lambda>s. s) False (\<lambda>f args. True) (\<lambda>_. []) None tok_controller shipped_block = Some (Inr shipped_plugin)"
  unfolding parseConfig_def shipped_vars
  by (simp add: dc_env_def env_defs dc_finish_def Validate_def NewClusterConfig_def dc_defaults_def shipped_plugin_def)

theorem no_fallthrough_hides_externals_witness:
  "\<exists>ms out. serve_chain (\<lambda>s. s) (\<lambda>f _. f) (\<lambda>_. None) shipped_plugin NewRecords
     sample_te (te_Add (\<lambda>s. s) te_NewRecords ''ext.lan'' ''10.0.0.1'') no_metrics (sample_query ''ext.lan'') = ((ms, out), no_metrics) \<and>
   out \<noteq> NextPlugin \<and> list_all (\<lambda>msg. rp_Answer msg = []) ms"
  by (rule no_fallthrough_hides_externals [OF tok_never_shows shipped_parses])
     (simp_all add: shipped_block_def)

end
