(* ===== verification/DC_Tracking.thy ===== *)
theory DC_Tracking
  imports DC_Watcher
begin

text \<open>
  The record table of a node without clustering against the containers its watcher tracks. The
  steps of a watcher are not restricted: any events and listings in any order, with containers
  that share names, that move names to new containers, and that spell a name in several ways.
  A synchronisation is taken apart into the containers it lists and the removal at its end, since
  queries are answered in between. What holds of every name is that a record belongs to a tracked
  container; that every tracked name has its record needs that the name was never disputed.
\<close>

section \<open>Steps\<close>

inductive watcher_step ::
  "(string \<Rightarrow> string) \<Rightarrow> (string \<Rightarrow> bool) \<Rightarrow> (string list go_map \<Rightarrow> string list) \<Rightarrow> 'c watcher_state \<Rightarrow> 'c watcher_state \<Rightarrow> bool"
  for ul isdom ord where
  step_event: "watcher_step ul isdom ord s (handleEvent ul isdom inspect ts event s)"
| step_item: "watcher_step ul isdom ord s (snd (applyContainerSummary ul isdom ts summary s))"
| step_drop: "watcher_step ul isdom ord s (drop_unseen ul ord ts seen s)"
| step_connect: "watcher_step ul isdom ord (dw, cr) (snd (connect dial dw), cr)"
| step_close: "watcher_step ul isdom ord (dw, cr) (closeClient dw, cr)"
| step_start: "watcher_step ul isdom ord (dw, cr) (watcher_Start dw, cr)"
| step_cancel: "watcher_step ul isdom ord (dw, cr) (watcher_cancel dw, cr)"
| step_stop: "watcher_step ul isdom ord (dw, cr) (watcher_Stop dw, cr)"
| step_return: "watcher_step ul isdom ord (dw, cr) (dw\<lparr>dw_workers := dw_workers dw - 1\<rparr>, cr)"

definition watcher_init :: "'c watcher_state \<Rightarrow> bool" where
  "watcher_init s \<longleftrightarrow> (\<exists>sock ip labels c. s = (NewDockerWatcher sock ip labels, c, NewRecords))"

text \<open>A synchronisation is a run of such steps.\<close>

lemma sync_items_steps: "(watcher_step ul isdom ord)\<^sup>*\<^sup>* s (snd (sync_items ul isdom items seen s))"
proof (induction items arbitrary: seen s)
  case (Cons it items)
  obtain summary ts where it: "it = (summary, ts)" by (cases it)
  from Cons.IH show ?case unfolding it sync_items_Cons by (blast intro: converse_rtranclp_into_rtranclp step_item)
qed simp

lemma sync_steps: "(watcher_step ul isdom ord)\<^sup>*\<^sup>* s (snd (syncContainers ul isdom ord listing ts s))"
proof (cases "dw_client (fst s) \<and> (\<exists>items. listing = Inr items)")
  case True
  then obtain items where items: "listing = Inr items" by blast
  obtain seen s' where "sync_items ul isdom items [] s = (seen, s')" by (cases "sync_items ul isdom items [] s")
  with sync_items_steps [of ul isdom ord s items "[]"] True items step_drop [of ul isdom ord s' ts seen] show ?thesis
    by (simp add: syncContainers_def rtranclp.rtrancl_into_rtrancl)
qed (auto simp: syncContainers_def split: sum.splits)

text \<open>A run of \<^verbatim>\<open>watchLoop\<close> is a run of such steps, so what holds of them holds of the loop.\<close>

lemma stop_at_steps: "(watcher_step ul isdom ord)\<^sup>*\<^sup>* (dw, cr) (stop_at here p dw, cr)"
  by (simp add: stop_at_def r_into_rtranclp step_cancel)

lemma back_off_steps: "(watcher_step ul isdom ord)\<^sup>*\<^sup>* s (snd (snd (back_off p b s)))"
proof -
  obtain dw cr where s: "s = (dw, cr)" by (cases s)
  have "snd (sleep p b dw) = dw \<or> snd (sleep p b dw) = watcher_cancel dw"
    by (auto simp: sleep_def split: stop_point.splits)
  moreover have "(watcher_step ul isdom ord)\<^sup>*\<^sup>* (dw, cr) (watcher_cancel dw, cr)" by (rule r_into_rtranclp) (rule step_cancel)
  ultimately show ?thesis by (auto simp: s back_off_def split: prod.splits)
qed

lemma close_back_off_steps: "(watcher_step ul isdom ord)\<^sup>*\<^sup>* (dw, cr) (snd (snd (back_off p b (closeClient dw, cr))))"
  by (rule converse_rtranclp_into_rtranclp [OF step_close back_off_steps])

lemma watchEvents_steps: "(watcher_step ul isdom ord)\<^sup>*\<^sup>* s (snd (watchEvents ul isdom inputs s))"
proof -
  have "(watcher_step ul isdom ord)\<^sup>*\<^sup>* s (snd (consumeEvents (\<lambda>event inspect ts. handleEvent ul isdom inspect ts event) inputs s))"
  proof (induction inputs arbitrary: s)
    case (Cons i inputs)
    show ?case
    proof (cases i)
      case (EventReceived event inspect ts)
      have "watcher_step ul isdom ord s (handleEvent ul isdom inspect ts event s)" by (rule step_event)
      from converse_rtranclp_into_rtranclp [OF this Cons.IH] EventReceived show ?thesis by simp
    qed (auto split: option.splits)
  qed simp
  then show ?thesis by (simp add: watchEvents_def)
qed

lemma watch_turn_steps: "(watcher_step ul isdom ord)\<^sup>*\<^sup>* s (snd (snd (watch_turn ul isdom ord dm (b, s))))"
proof -
  let ?st = "(watcher_step ul isdom ord)\<^sup>*\<^sup>*"
  obtain dw cr where s: "s = (dw, cr)" by (cases s)
  let ?dw1 = "stop_at StopInConnect (dm_stop dm) dw"
  obtain err dw2 where c: "connect (dm_dial dm) ?dw1 = (err, dw2)" by (cases "connect (dm_dial dm) ?dw1")
  then have 1: "?st s (dw2, cr)"
    using stop_at_steps [of ul isdom ord dw cr StopInConnect "dm_stop dm"] step_connect [of ul isdom ord ?dw1 cr "dm_dial dm"]
    unfolding s by (simp add: rtranclp.rtrancl_into_rtrancl)
  let ?dw3 = "stop_at StopInSync (dm_stop dm) dw2"
  obtain serr dw4 cr4 where y: "syncContainers ul isdom ord (dm_list dm) (dm_ts dm) (?dw3, cr) = (serr, dw4, cr4)"
    by (metis prod.exhaust)
  then have 2: "?st s (dw4, cr4)"
    using rtranclp_trans [OF 1 rtranclp_trans [OF stop_at_steps [of ul isdom ord dw2 cr StopInSync "dm_stop dm"] sync_steps]]
    by (metis snd_conv)
  let ?dw5 = "stop_at StopInStream (dm_stop dm) dw4"
  obtain werr dw6 cr6 where w: "watchEvents ul isdom (dm_stream dm) (?dw5, cr4) = (werr, dw6, cr6)" by (metis prod.exhaust)
  then have 3: "?st s (dw6, cr6)"
    using rtranclp_trans [OF 2 rtranclp_trans [OF stop_at_steps [of ul isdom ord dw4 cr4 StopInStream "dm_stop dm"] watchEvents_steps]]
    by (metis snd_conv)
  show ?thesis
  proof (cases "dw_cancelled dw")
    case True
    have "?st (dw, cr) (dw\<lparr>dw_workers := dw_workers dw - 1\<rparr>, cr)" by (rule r_into_rtranclp) (rule step_return)
    with True show ?thesis by (simp add: s watch_turn_def)
  next
    case False
    with c y w rtranclp_trans [OF 1 back_off_steps] rtranclp_trans [OF 2 close_back_off_steps] rtranclp_trans [OF 3 close_back_off_steps] 3
    show ?thesis by (simp add: s watch_turn_def Let_def split: option.splits)
  qed
qed

lemma watchLoop_steps: "(watcher_step ul isdom ord)\<^sup>*\<^sup>* s (snd (snd (watchLoop ul isdom ord dms (b, s))))"
proof (induction dms arbitrary: b s)
  case (Cons dm dms)
  obtain res b1 s1 where t: "watch_turn ul isdom ord dm (b, s) = (res, b1, s1)" by (metis prod.exhaust)
  have "(watcher_step ul isdom ord)\<^sup>*\<^sup>* s s1" using watch_turn_steps [of ul isdom ord s dm b] t by simp
  moreover from this Cons.IH [of s1 b1]
  have "(watcher_step ul isdom ord)\<^sup>*\<^sup>* s (snd (snd (watchLoop ul isdom ord dms (b1, s1))))" by (rule rtranclp_trans)
  ultimately show ?case by (cases res; cases "watchLoop ul isdom ord dms (b1, s1)") (simp_all add: t)
qed simp

section \<open>Claims\<close>

text \<open>Who claims a name: a tracked container, and how it spells the name.\<close>

definition claims :: "(string \<Rightarrow> string) \<Rightarrow> string list go_map \<Rightarrow> hostname \<Rightarrow> (string \<times> string) set" where
  "claims ul cs h = {(cid, x). \<exists>hs. cs cid = Some hs \<and> x \<in> set hs \<and> ToLower ul x = ToLower ul h}"

definition claimed :: "(string \<Rightarrow> string) \<Rightarrow> string list go_map \<Rightarrow> hostname \<Rightarrow> bool" where
  "claimed ul cs h \<longleftrightarrow> (\<exists>cid hs. cs cid = Some hs \<and> ToLower ul h \<in> ToLower ul ` set hs)"

text \<open>A name is disputed while two containers claim it, or one container in two spellings.\<close>

definition undisputed :: "(string \<Rightarrow> string) \<Rightarrow> string list go_map \<Rightarrow> hostname \<Rightarrow> bool" where
  "undisputed ul cs h \<longleftrightarrow> (\<forall>p \<in> claims ul cs h. \<forall>q \<in> claims ul cs h. p = q)"

text \<open>A step from a state where the name is not disputed.\<close>

definition undisputed_step ::
  "(string \<Rightarrow> string) \<Rightarrow> (string \<Rightarrow> bool) \<Rightarrow> (string list go_map \<Rightarrow> string list) \<Rightarrow> hostname \<Rightarrow> 'c watcher_state \<Rightarrow> 'c watcher_state \<Rightarrow> bool" where
  "undisputed_step ul isdom ord h s t \<longleftrightarrow> undisputed ul (dw_containers (fst s)) h \<and> watcher_step ul isdom ord s t"

lemma claims_at: "(cid, x) \<in> claims ul cs h \<longleftrightarrow> x \<in> set (hosts_at cs cid) \<and> ToLower ul x = ToLower ul h"
  by (cases "cs cid") (auto simp: claims_def)


lemma named_iff: "ToLower ul h \<in> ToLower ul ` A \<longleftrightarrow> (\<exists>x \<in> A. ToLower ul x = ToLower ul h)"
  by (metis imageE imageI)

lemma claimed_iff: "claimed ul cs h \<longleftrightarrow> (\<exists>cid x. (cid, x) \<in> claims ul cs h)"
  by (auto simp: claimed_def claims_def named_iff)

lemma claimedI: "(cid, x) \<in> claims ul cs h \<Longrightarrow> claimed ul cs h"
  unfolding claimed_iff by blast

lemma claimedE:
  assumes "claimed ul cs h"
  obtains cid x where "(cid, x) \<in> claims ul cs h"
  using assms unfolding claimed_iff by blast

lemma undisputedD: "undisputed ul cs h \<Longrightarrow> p \<in> claims ul cs h \<Longrightarrow> q \<in> claims ul cs h \<Longrightarrow> p = q"
  unfolding undisputed_def by blast

section \<open>The invariant\<close>

text \<open>Every record is the host's address and belongs to a tracked container.\<close>

definition sound :: "(string \<Rightarrow> string) \<Rightarrow> 'c watcher_state \<Rightarrow> bool" where
  "sound ul s \<longleftrightarrow> dw_callback (fst s) = None \<and> finite (dom (dw_containers (fst s))) \<and>
     (\<forall>h ip. Lookup ul (snd (snd s)) h = Some ip \<longrightarrow> ip = dw_hostIP (fst s) \<and> claimed ul (dw_containers (fst s)) h)"

definition exact_at :: "(string \<Rightarrow> string) \<Rightarrow> hostname \<Rightarrow> 'c watcher_state \<Rightarrow> bool" where
  "exact_at ul h s \<longleftrightarrow>
     Lookup ul (snd (snd s)) h = (if claimed ul (dw_containers (fst s)) h then Some (dw_hostIP (fst s)) else None)"

text \<open>
  What a change of the tracked containers does to one name: it is removed, added or left alone.
  Both invariants survive when a removed name belonged to what the change took away, and an added
  one to what it brought.
\<close>

lemma sound_change:
  assumes "sound ul (dw, c, r)" "finite (dom cs')" "dw' = dw\<lparr>dw_containers := cs'\<rparr>"
    and "\<And>h. Lookup ul r' h = (if A h then Some (dw_hostIP dw) else if R h then None else Lookup ul r h)"
    and "\<And>h. A h \<Longrightarrow> claimed ul cs' h"
    and "\<And>h. claimed ul (dw_containers dw) h \<Longrightarrow> \<not> claimed ul cs' h \<Longrightarrow> R h"
  shows "sound ul (dw', c, r')"
  unfolding sound_def
proof (intro conjI allI impI)
  fix h ip assume "Lookup ul (snd (snd (dw', c, r'))) h = Some ip"
  then have cases: "A h \<and> ip = dw_hostIP dw \<or> \<not> A h \<and> \<not> R h \<and> Lookup ul r h = Some ip"
    using assms(4) by (auto split: if_splits)
  moreover from this assms(1) have "Lookup ul r h = Some ip \<Longrightarrow> ip = dw_hostIP dw \<and> claimed ul (dw_containers dw) h"
    by (simp add: sound_def)
  ultimately show "ip = dw_hostIP (fst (dw', c, r'))" "claimed ul (dw_containers (fst (dw', c, r'))) h"
    using assms(3,5,6) by auto
qed (use assms in \<open>auto simp: sound_def\<close>)

lemma exact_change:
  assumes "exact_at ul h (dw, c, r)" "dw' = dw\<lparr>dw_containers := cs'\<rparr>"
    and "Lookup ul r' h = (if A then Some (dw_hostIP dw) else if R then None else Lookup ul r h)"
    and "A \<Longrightarrow> claimed ul cs' h" "\<not> A \<Longrightarrow> R \<Longrightarrow> \<not> claimed ul cs' h"
    and "\<not> A \<Longrightarrow> \<not> R \<Longrightarrow> claimed ul cs' h \<longleftrightarrow> claimed ul (dw_containers dw) h"
  shows "exact_at ul h (dw', c, r')"
  using assms unfolding exact_at_def by auto

section \<open>One container\<close>

lemma updateContainer_plain:
  assumes "dw_callback dw = None"
  shows "updateContainer ul ts cid new (dw, c, r) =
    (dw\<lparr>dw_containers := (dw_containers dw)(cid \<mapsto> new)\<rparr>, c,
     foldl (\<lambda>r h. Add ul r h (dw_hostIP dw))
       (foldl (Remove ul) r (filter (\<lambda>h. h \<notin> set new) (hosts_at (dw_containers dw) cid)))
       (filter (\<lambda>h. h \<notin> set (hosts_at (dw_containers dw) cid)) new))"
  using assms by (simp add: updateContainer_def Let_def)

lemma filter_is_diff: "set (filter (\<lambda>h. h \<notin> set xs) ys) = set ys - set xs"
  by auto

lemma claims_update:
  "(cid', x) \<in> claims ul (cs(cid \<mapsto> new)) h \<longleftrightarrow>
     (if cid' = cid then x \<in> set new \<and> ToLower ul x = ToLower ul h else (cid', x) \<in> claims ul cs h)"
  by (simp add: claims_at)

lemma update_claim_kept:
  assumes "claimed ul cs h" "ToLower ul h \<notin> ToLower ul ` (set (hosts_at cs cid) - set new)"
  shows "claimed ul (cs(cid \<mapsto> new)) h"
proof -
  obtain c x where x: "(c, x) \<in> claims ul cs h" using assms(1) by (rule claimedE)
  moreover have "x \<in> set new" if "c = cid" using that x assms(2) by (auto simp: claims_at named_iff)
  ultimately have "(c, x) \<in> claims ul (cs(cid \<mapsto> new)) h" by (simp add: claims_update claims_at)
  then show ?thesis by (rule claimedI)
qed

lemma update_claim_old:
  assumes "(c, x) \<in> claims ul (cs(cid \<mapsto> new)) h" "ToLower ul h \<notin> ToLower ul ` (set new - set (hosts_at cs cid))"
  shows "(c, x) \<in> claims ul cs h"
  using assms by (auto simp: claims_update claims_at named_iff split: if_splits)

lemma inv_updateContainer:
  assumes "sound ul (dw, c, r)"
  shows "sound ul (updateContainer ul ts cid new (dw, c, r))"
    and "undisputed ul (dw_containers dw) h \<Longrightarrow> exact_at ul h (dw, c, r) \<Longrightarrow>
      exact_at ul h (updateContainer ul ts cid new (dw, c, r))"
proof -
  let ?cs = "dw_containers dw" and ?old = "hosts_at (dw_containers dw) cid"
  let ?A = "\<lambda>h. ToLower ul h \<in> ToLower ul ` (set new - set ?old)"
  let ?R = "\<lambda>h. ToLower ul h \<in> ToLower ul ` (set ?old - set new)"
  have cb: "dw_callback dw = None" using assms by (simp add: sound_def)
  have look: "Lookup ul (foldl (\<lambda>r h. Add ul r h (dw_hostIP dw)) (foldl (Remove ul) r (filter (\<lambda>h. h \<notin> set new) ?old))
      (filter (\<lambda>h. h \<notin> set ?old) new)) h = (if ?A h then Some (dw_hostIP dw) else if ?R h then None else Lookup ul r h)" for h
    by (simp only: dcs.lookup_replace filter_is_diff)
  have new: "claimed ul (?cs(cid \<mapsto> new)) h" if added: "?A h" for h
  proof -
    obtain x where "x \<in> set new" "ToLower ul x = ToLower ul h" using added by (auto simp: named_iff)
    then show ?thesis by (intro claimedI [of cid x]) (simp add: claims_update)
  qed
  show "sound ul (updateContainer ul ts cid new (dw, c, r))" unfolding updateContainer_plain [OF cb]
  proof (rule sound_change [OF assms _ refl look new])
    show "finite (dom (?cs(cid \<mapsto> new)))" using assms by (simp add: sound_def)
    show "?R h" if "claimed ul ?cs h" "\<not> claimed ul (?cs(cid \<mapsto> new)) h" for h
      using update_claim_kept [OF that(1)] that(2) by blast
  qed
  assume one: "undisputed ul ?cs h" and ex: "exact_at ul h (dw, c, r)"
  show "exact_at ul h (updateContainer ul ts cid new (dw, c, r))" unfolding updateContainer_plain [OF cb]
  proof (rule exact_change [OF ex refl look new])
    show "\<not> claimed ul (?cs(cid \<mapsto> new)) h" if a: "\<not> ?A h" and "?R h"
    proof
      obtain x where x: "x \<in> set ?old" "x \<notin> set new" "ToLower ul x = ToLower ul h" using \<open>?R h\<close> by (auto simp: named_iff)
      assume "claimed ul (?cs(cid \<mapsto> new)) h"
      then obtain c' y where y: "(c', y) \<in> claims ul (?cs(cid \<mapsto> new)) h" by (rule claimedE)
      with undisputedD [OF one update_claim_old [OF y a], of "(cid, x)"] x show False by (simp add: claims_at claims_update)
    qed
    show "claimed ul (?cs(cid \<mapsto> new)) h \<longleftrightarrow> claimed ul ?cs h" if "\<not> ?A h" "\<not> ?R h"
      using that update_claim_kept update_claim_old by (metis claimed_iff)
  qed
qed

section \<open>Containers that go\<close>

lemma claims_restrict: "(cid, x) \<in> claims ul (cs |` K) h \<longleftrightarrow> cid \<in> K \<and> (cid, x) \<in> claims ul cs h"
  by (auto simp: claims_def restrict_map_def split: if_splits)

lemma names_of_ids:
  "ToLower ul h \<in> ToLower ul ` set (concat (map (hosts_at cs) ids)) \<longleftrightarrow> (\<exists>cid \<in> set ids. \<exists>x. (cid, x) \<in> claims ul cs h)"
  unfolding named_iff by (auto simp: claims_at)

lemma inv_removal:
  assumes "sound ul (dw, c, r)"
  defines "t \<equiv> \<lambda>ids. (dw\<lparr>dw_containers := dw_containers dw |` (- set ids)\<rparr>, c,
     foldl (Remove ul) r (concat (map (hosts_at (dw_containers dw)) ids)))"
  shows "sound ul (t ids)"
    and "undisputed ul (dw_containers dw) h \<Longrightarrow> exact_at ul h (dw, c, r) \<Longrightarrow> exact_at ul h (t ids)"
proof -
  let ?cs = "dw_containers dw" and ?R = "\<lambda>h. \<exists>cid \<in> set ids. \<exists>x. (cid, x) \<in> claims ul (dw_containers dw) h"
  have look: "Lookup ul (foldl (Remove ul) r (concat (map (hosts_at ?cs) ids))) h =
      (if False then Some (dw_hostIP dw) else if ?R h then None else Lookup ul r h)" for h
    by (simp only: dcs.lookup_remove_all names_of_ids if_False)
  have kept: "claimed ul (?cs |` (- set ids)) h \<longleftrightarrow> claimed ul ?cs h" if "\<not> ?R h" for h
    using that unfolding claimed_iff claims_restrict by blast
  show "sound ul (t ids)" unfolding t_def
  proof (rule sound_change [OF assms(1) _ refl look])
    show "finite (dom (?cs |` (- set ids)))" using assms(1) by (simp add: sound_def)
    show "?R h" if "claimed ul ?cs h" "\<not> claimed ul (?cs |` (- set ids)) h" for h using kept that by blast
  qed simp
  assume one: "undisputed ul ?cs h" and ex: "exact_at ul h (dw, c, r)"
  show "exact_at ul h (t ids)" unfolding t_def
  proof (rule exact_change [OF ex refl look])
    show "\<not> claimed ul (?cs |` (- set ids)) h" if gone: "?R h"
    proof
      obtain cid x where x: "cid \<in> set ids" "(cid, x) \<in> claims ul ?cs h" using gone by blast
      assume "claimed ul (?cs |` (- set ids)) h"
      then obtain c' y where "(c', y) \<in> claims ul (?cs |` (- set ids)) h" by (rule claimedE)
      with undisputedD [OF one x(2)] x(1) show False by (auto simp: claims_restrict)
    qed
    show "claimed ul (?cs |` (- set ids)) h \<longleftrightarrow> claimed ul ?cs h" if "\<not> ?R h" using that by (rule kept)
  qed simp
qed

definition gone_ids :: "(string list go_map \<Rightarrow> string list) \<Rightarrow> string list \<Rightarrow> string list go_map \<Rightarrow> string list" where
  "gone_ids ord seen cs = filter (\<lambda>id. id \<notin> set seen) (ord cs)"

lemma drop_unseen_plain:
  assumes "dw_callback dw = None"
  shows "drop_unseen ul ord ts seen (dw, c, r) =
    (dw\<lparr>dw_containers := dw_containers dw |` (- set (gone_ids ord seen (dw_containers dw)))\<rparr>, c,
     foldl (Remove ul) r (concat (map (hosts_at (dw_containers dw)) (gone_ids ord seen (dw_containers dw)))))"
  using assms by (simp add: drop_unseen_def Let_def gone_ids_def)

lemma handleContainerStop_plain:
  assumes "dw_callback dw = None"
  shows "handleContainerStop ul ts cid (dw, c, r) =
    (dw\<lparr>dw_containers := dw_containers dw |` (- set [cid])\<rparr>, c,
     foldl (Remove ul) r (concat (map (hosts_at (dw_containers dw)) [cid])))"
proof (cases "dw_containers dw cid")
  case None
  then have "dw_containers dw |` (- {cid}) = dw_containers dw" by (auto simp: restrict_map_def fun_eq_iff)
  with None show ?thesis by (simp add: handleContainerStop_def)
next
  case (Some hs)
  have "(dw_containers dw)(cid := None) = dw_containers dw |` (- {cid})" by (auto simp: restrict_map_def fun_eq_iff)
  with Some assms show ?thesis by (simp add: handleContainerStop_def Let_def)
qed

section \<open>Every step\<close>

lemma sound_callback: "sound ul (dw, c, r) \<Longrightarrow> dw_callback dw = None"
  by (simp add: sound_def)

lemma inv_applyContainerSummary:
  assumes "sound ul s"
  shows "sound ul (snd (applyContainerSummary ul isdom ts summary s))"
    and "undisputed ul (dw_containers (fst s)) h \<Longrightarrow> exact_at ul h s \<Longrightarrow>
      exact_at ul h (snd (applyContainerSummary ul isdom ts summary s))"
proof -
  obtain dw c r where s: "s = (dw, c, r)" by (cases s)
  note upd = inv_updateContainer [OF assms [unfolded s]]
  show "sound ul (snd (applyContainerSummary ul isdom ts summary s))"
    using assms upd(1) by (simp add: s applyContainerSummary_def Let_def)
  show "undisputed ul (dw_containers (fst s)) h \<Longrightarrow> exact_at ul h s \<Longrightarrow>
      exact_at ul h (snd (applyContainerSummary ul isdom ts summary s))"
    using upd(2) by (simp add: s applyContainerSummary_def Let_def)
qed

lemma inv_drop_unseen:
  assumes "sound ul s"
  shows "sound ul (drop_unseen ul ord ts seen s)"
    and "undisputed ul (dw_containers (fst s)) h \<Longrightarrow> exact_at ul h s \<Longrightarrow> exact_at ul h (drop_unseen ul ord ts seen s)"
proof -
  obtain dw c r where s: "s = (dw, c, r)" by (cases s)
  note plain = drop_unseen_plain [OF sound_callback [OF assms [unfolded s]]]
  show "sound ul (drop_unseen ul ord ts seen s)"
    unfolding s plain by (rule inv_removal [OF assms [unfolded s]])
  show "undisputed ul (dw_containers (fst s)) h \<Longrightarrow> exact_at ul h s \<Longrightarrow> exact_at ul h (drop_unseen ul ord ts seen s)"
    unfolding s plain fst_conv by (rule inv_removal [OF assms [unfolded s]])
qed

lemma inv_handleContainerStop:
  assumes "sound ul s"
  shows "sound ul (handleContainerStop ul ts cid s)"
    and "undisputed ul (dw_containers (fst s)) h \<Longrightarrow> exact_at ul h s \<Longrightarrow> exact_at ul h (handleContainerStop ul ts cid s)"
proof -
  obtain dw c r where s: "s = (dw, c, r)" by (cases s)
  note plain = handleContainerStop_plain [OF sound_callback [OF assms [unfolded s]]]
  show "sound ul (handleContainerStop ul ts cid s)"
    unfolding s plain by (rule inv_removal [OF assms [unfolded s]])
  show "undisputed ul (dw_containers (fst s)) h \<Longrightarrow> exact_at ul h s \<Longrightarrow> exact_at ul h (handleContainerStop ul ts cid s)"
    unfolding s plain fst_conv by (rule inv_removal [OF assms [unfolded s]])
qed

lemma inv_handleEvent:
  assumes "sound ul s"
  shows "sound ul (handleEvent ul isdom inspect ts event s)"
    and "undisputed ul (dw_containers (fst s)) h \<Longrightarrow> exact_at ul h s \<Longrightarrow> exact_at ul h (handleEvent ul isdom inspect ts event s)"
proof -
  obtain dw c r where s: "s = (dw, c, r)" by (cases s)
  have "handleContainerStart ul isdom inspect ts cid s = s \<or>
      (\<exists>hs. handleContainerStart ul isdom inspect ts cid s = updateContainer ul ts cid hs (dw, c, r))" for cid
    by (auto simp: s handleContainerStart_def applyContainerInspect_def Let_def split: sum.splits option.splits)
  then have shape: "handleEvent ul isdom inspect ts event s \<in>
      {s, handleContainerStop ul ts (ev_ActorID event) s} \<union> range (\<lambda>hs. updateContainer ul ts (ev_ActorID event) hs (dw, c, r))"
    unfolding handleEvent_def by auto
  show "sound ul (handleEvent ul isdom inspect ts event s)"
    using shape assms inv_handleContainerStop(1) [OF assms] inv_updateContainer(1) [of ul dw c r] s by auto
  show "undisputed ul (dw_containers (fst s)) h \<Longrightarrow> exact_at ul h s \<Longrightarrow> exact_at ul h (handleEvent ul isdom inspect ts event s)"
    using shape assms inv_handleContainerStop(2) [OF assms] inv_updateContainer(2) [of ul dw c r] s by auto
qed

lemma inv_frame:
  assumes "dw_callback dw' = dw_callback dw" "dw_containers dw' = dw_containers dw" "dw_hostIP dw' = dw_hostIP dw"
  shows "sound ul (dw, cr) \<Longrightarrow> sound ul (dw', cr)" and "exact_at ul h (dw, cr) \<Longrightarrow> exact_at ul h (dw', cr)"
  using assms by (simp_all add: sound_def exact_at_def)

lemma watcher_frames:
  assumes "dw' \<in> {snd (connect dial dw), closeClient dw, watcher_Start dw, watcher_cancel dw, watcher_Stop dw,
    dw\<lparr>dw_workers := dw_workers dw - 1\<rparr>}"
  shows "dw_callback dw' = dw_callback dw" "dw_containers dw' = dw_containers dw" "dw_hostIP dw' = dw_hostIP dw"
  using assms
  by (auto simp: connect_def closeClient_def watcher_Start_def watcher_cancel_def watcher_Stop_def split: option.splits)

lemma watcher_step_inv:
  assumes "watcher_step ul isdom ord s t" "sound ul s"
  shows "sound ul t \<and> (undisputed ul (dw_containers (fst s)) h \<and> exact_at ul h s \<longrightarrow> exact_at ul h t)"
  using assms
proof (induction rule: watcher_step.induct)
  case (step_event s inspect ts event)
  then show ?case by (blast intro: inv_handleEvent)
next
  case (step_item s ts summary)
  then show ?case by (blast intro: inv_applyContainerSummary)
next
  case (step_drop s ts seen)
  then show ?case by (blast intro: inv_drop_unseen)
qed (blast intro: inv_frame watcher_frames)+

lemma watcher_init_inv: "watcher_init s \<Longrightarrow> sound ul s \<and> exact_at ul h s"
  by (auto simp: watcher_init_def sound_def exact_at_def claimed_def NewDockerWatcher_def)

interpretation wat: step_invariant watcher_init "watcher_step ul isdom ord" "sound ul" for ul isdom ord
  by unfold_locales (use watcher_init_inv watcher_step_inv in blast)+

interpretation und: step_invariant watcher_init "undisputed_step ul isdom ord h" "\<lambda>s. sound ul s \<and> exact_at ul h s"
  for ul isdom ord h
proof
  show "sound ul s \<and> exact_at ul h s" if "watcher_init s" for s using that by (rule watcher_init_inv)
  show "sound ul t \<and> exact_at ul h t" if "sound ul s \<and> exact_at ul h s" "undisputed_step ul isdom ord h s t" for s t
    using that watcher_step_inv [of ul isdom ord s t h] by (simp add: undisputed_step_def)
qed

section \<open>A synchronisation\<close>
















section \<open>Properties\<close>

text \<open>
  C5. The records of a node without clustering, in every state its watcher can reach, through
  any events, listings, connections and stops: a name resolves to the host's address or not at
  all, and not at all unless a tracked container carries it, letter case apart. A name that no
  two tracked containers carried at the same time, and no container in two spellings, before
  any step of the run resolves exactly when a tracked container carries it.
\<close>

theorem records_mirror_containers:
  assumes "reachable watcher_init (watcher_step ul isdom ord) (dw, c, r)"
  shows "(Lookup ul r h = None \<or> Lookup ul r h = Some (dw_hostIP dw) \<and> claimed ul (dw_containers dw) h) \<and>
    (reachable watcher_init (undisputed_step ul isdom ord h) (dw, c, r) \<longrightarrow>
      Lookup ul r h = (if claimed ul (dw_containers dw) h then Some (dw_hostIP dw) else None))"
proof
  show "Lookup ul r h = None \<or> Lookup ul r h = Some (dw_hostIP dw) \<and> claimed ul (dw_containers dw) h"
    using wat.inv_reachable [OF assms] by (cases "Lookup ul r h") (auto simp: sound_def)
  show "reachable watcher_init (undisputed_step ul isdom ord h) (dw, c, r) \<longrightarrow>
      Lookup ul r h = (if claimed ul (dw_containers dw) h then Some (dw_hostIP dw) else None)"
    using und.inv_reachable [of ul isdom ord h "(dw, c, r)"] by (auto simp: exact_at_def)
qed

definition sample_inspect :: "string \<Rightarrow> string + string go_map option" where
  "sample_inspect cid = (if cid = ''c1'' then Inr (Some [''coredns.host.name'' \<mapsto> ''App.lan, b.lan'']) else Inl ''no such container'')"

lemma sample_names: "extractHostnames (\<lambda>_. True) sample_watcher [''coredns.host.name'' \<mapsto> ''App.lan, b.lan''] = [''App.lan'', ''b.lan'']"
  by code_simp

text \<open>A watcher that has connected and seen one container start.\<close>

definition sample_started :: "unit watcher_state" where
  "sample_started = handleEvent (\<lambda>s. s) (\<lambda>_. True) sample_inspect 7 \<lparr>ev_Action = ''start'', ev_ActorID = ''c1''\<rparr>
     (snd (connect None sample_watcher), (), NewRecords)"

lemma sample_watcher_empty: "dw_containers sample_watcher = Map.empty"
  by (simp add: sample_watcher_def NewDockerWatcher_def)

lemma sample_steps:
  "watcher_init (sample_watcher, (), NewRecords)"
  "watcher_step (\<lambda>s. s) (\<lambda>_. True) ord (sample_watcher, (), NewRecords) (snd (connect None sample_watcher), (), NewRecords)"
  "watcher_step (\<lambda>s. s) (\<lambda>_. True) ord (snd (connect None sample_watcher), (), NewRecords) sample_started"
  unfolding sample_started_def by (auto simp: watcher_init_def sample_watcher_def intro: step_connect step_event)

lemma sample_started_reachable:
  "reachable watcher_init (watcher_step (\<lambda>s. s) (\<lambda>_. True) ord) (fst sample_started, fst (snd sample_started), snd (snd sample_started))"
  unfolding prod.collapse using sample_steps by (blast intro: reachable_init reachable_step)

lemma sample_started_undisputed:
  "reachable watcher_init (undisputed_step (\<lambda>s. s) (\<lambda>_. True) ord h) (fst sample_started, fst (snd sample_started), snd (snd sample_started))"
proof -
  have "undisputed (\<lambda>s. s) Map.empty h" by (simp add: undisputed_def claims_def)
  then have "undisputed_step (\<lambda>s. s) (\<lambda>_. True) ord h (sample_watcher, (), NewRecords) (snd (connect None sample_watcher), (), NewRecords)"
      "undisputed_step (\<lambda>s. s) (\<lambda>_. True) ord h (snd (connect None sample_watcher), (), NewRecords) sample_started"
    using sample_steps by (simp_all add: undisputed_step_def connect_def sample_watcher_empty)
  with sample_steps(1) show ?thesis unfolding prod.collapse by (blast intro: reachable_init reachable_step)
qed

lemma sample_started_watcher:
  "fst sample_started = sample_watcher\<lparr>dw_client := True, dw_containers := [''c1'' \<mapsto> [''App.lan'', ''b.lan'']]\<rparr>"
  using sample_names
  by (simp add: sample_started_def handleEvent_def handleContainerStart_def applyContainerInspect_def connect_def sample_inspect_def
      updateContainer_def Let_def sample_watcher_def NewDockerWatcher_def extractHostnames_def)

lemma sample_started_claims: "claimed (\<lambda>s. s) (dw_containers (fst sample_started)) h \<longleftrightarrow> ToLower (\<lambda>s. s) h \<in> {''app.lan'', ''b.lan''}"
  by (auto simp: claimed_def sample_started_watcher lower_eval)

lemma sample_started_hostIP: "dw_hostIP (fst sample_started) = ''10.0.0.1''"
  by (simp add: sample_started_watcher sample_watcher_def NewDockerWatcher_def)

theorem records_mirror_containers_witness:
  "Lookup (\<lambda>s. s) (snd (snd sample_started)) ''APP.lan'' = Some ''10.0.0.1'' \<and>
   Lookup (\<lambda>s. s) (snd (snd sample_started)) ''c.lan'' = None"
  using records_mirror_containers [OF sample_started_reachable, of "''APP.lan''"]
    records_mirror_containers [OF sample_started_reachable, of "''c.lan''"] sample_started_undisputed
  by (auto simp: sample_started_claims sample_started_hostIP lower_eval)



text \<open>
  C36. Two containers with one name: when the first of them dies, the name stops resolving
  although the second still runs and is still tracked, and the next synchronisation, which
  lists the second, does not bring the name back.
\<close>

theorem shared_name_is_lost:
  assumes "dw_client dw" "dw_callback dw = None" "dw_containers dw = Map.empty" "range_order ord"
    and "c1 \<noteq> c2" "extractHostnames isdom dw labels = [h]"
    and "inspect c1 = Inr (Some labels)" "inspect c2 = Inr (Some labels)"
    and "s = handleEvent ul isdom inspect t3 \<lparr>ev_Action = ''die'', ev_ActorID = c1\<rparr>
              (handleEvent ul isdom inspect t2 \<lparr>ev_Action = ''start'', ev_ActorID = c2\<rparr>
                (handleEvent ul isdom inspect t1 \<lparr>ev_Action = ''start'', ev_ActorID = c1\<rparr> (dw, c, r)))"
    and "s' = snd (syncContainers ul isdom ord (Inr [(\<lparr>sum_ID = c2, sum_Labels = labels\<rparr>, t4)]) t5 s)"
  shows "dw_containers (fst s) = [c2 \<mapsto> [h]] \<and> Lookup ul (snd (snd s)) h = None \<and>
         dw_containers (fst s') = [c2 \<mapsto> [h]] \<and> Lookup ul (snd (snd s')) h = None"
proof -
  note defs = handleEvent_def handleContainerStart_def handleContainerStop_def applyContainerInspect_def
    updateContainer_plain Let_def
  have names: "extractHostnames isdom (dw\<lparr>dw_containers := cs\<rparr>) labels = [h]" for cs
    using assms(6) by (simp add: extractHostnames_def)
  have s: "s = (dw\<lparr>dw_containers := [c2 \<mapsto> [h]]\<rparr>, c, Remove ul (Add ul (Add ul r h (dw_hostIP dw)) h (dw_hostIP dw)) h)"
    unfolding assms(9) using assms(1-8) by (simp add: defs names fun_upd_twist)
  have "sync_items ul isdom [(\<lparr>sum_ID = c2, sum_Labels = labels\<rparr>, t4)] [] s = ([c2], s)"
    using assms(2) by (simp add: s applyContainerSummary_def updateContainer_plain names)
  moreover have "gone_ids ord [c2] [c2 \<mapsto> [h]] = []"
    using assms(4) by (auto simp: gone_ids_def range_order_def filter_empty_conv)
  ultimately have s': "s' = s"
    using assms(1,2,10) by (simp add: syncContainers_def s drop_unseen_plain)
  have "Lookup ul (snd (snd s)) h = None" by (simp add: s store_simps)
  then show ?thesis unfolding s' by (simp add: s)
qed

theorem shared_name_is_lost_witness:
  "let dw = sample_watcher\<lparr>dw_client := True\<rparr>; labels = [''coredns.host.name'' \<mapsto> ''a.lan''];
       ev = handleEvent (\<lambda>s. s) (\<lambda>_. True) (\<lambda>_. Inr (Some labels));
       s = ev 3 \<lparr>ev_Action = ''die'', ev_ActorID = ''c1''\<rparr> (ev 2 \<lparr>ev_Action = ''start'', ev_ActorID = ''c2''\<rparr>
             (ev 1 \<lparr>ev_Action = ''start'', ev_ActorID = ''c1''\<rparr> (dw, (), NewRecords)))
   in dw_containers (fst s) = [''c2'' \<mapsto> [''a.lan'']] \<and> Lookup (\<lambda>s. s) (snd (snd s)) ''a.lan'' = None"
proof -
  have n: "extractHostnames (\<lambda>_. True) (sample_watcher\<lparr>dw_client := True\<rparr>) [''coredns.host.name'' \<mapsto> ''a.lan''] = [''a.lan'']"
    by code_simp
  have "''c1'' \<noteq> ''c2''" by simp
  have dw: "dw_client (sample_watcher\<lparr>dw_client := True\<rparr>)" "dw_callback (sample_watcher\<lparr>dw_client := True\<rparr>) = None"
      "dw_containers (sample_watcher\<lparr>dw_client := True\<rparr>) = Map.empty"
    by (simp_all add: sample_watcher_def NewDockerWatcher_def)
  from shared_name_is_lost [where inspect = "\<lambda>_. Inr (Some [''coredns.host.name'' \<mapsto> ''a.lan''])" and ul = "\<lambda>s. s"
      and r = NewRecords and ?t1.0 = 1 and ?t2.0 = 2 and ?t3.0 = 3,
      OF dw range_order_sorted \<open>''c1'' \<noteq> ''c2''\<close> n refl refl refl refl]
  show ?thesis unfolding Let_def by blast
qed

end
