(* ===== verification/DC_Concurrency.thy ===== *)
theory DC_Concurrency
  imports DC_Delegate
begin

text \<open>
  The record table under concurrent use. Writers hold the mutex, build new maps and store them
  in the two atomic values one after the other; readers take no lock. A stored map is never
  changed again, so an atomic value is the map it holds. One step of the system is what one
  atomic action of \<^verbatim>\<open>records.go\<close> does: taking the lock, storing the new data
  (computed from what was loaded under the lock), storing the new metadata and releasing the
  lock, and the first load of \<^verbatim>\<open>GetAllWithMeta\<close>. Its second load reads the
  metadata of a later state. \<open>c_log\<close> records the operations in the order in which their data
  was stored.
\<close>

section \<open>The system\<close>

datatype writer = Entered table_op | DataStored "RecordMeta go_map"

record conc =
  c_data :: "string go_map"
  c_meta :: "RecordMeta go_map"
  c_lock :: "writer option"
  c_loaded :: "string go_map option"
  c_log :: "table_op list"

definition shared :: "conc \<Rightarrow> Records" where
  "shared s = \<lparr>r_data = c_data s, r_meta = c_meta s\<rparr>"

definition conc_init :: "conc \<Rightarrow> bool" where
  "conc_init s \<longleftrightarrow> s = \<lparr>c_data = r_data NewRecords, c_meta = r_meta NewRecords, c_lock = None, c_loaded = None, c_log = []\<rparr>"

inductive conc_step :: "(string \<Rightarrow> string) \<Rightarrow> conc \<Rightarrow> conc \<Rightarrow> bool" for ul where
  w_lock: "c_lock s = None \<Longrightarrow> conc_step ul s (s\<lparr>c_lock := Some (Entered op)\<rparr>)"
| w_data: "c_lock s = Some (Entered op) \<Longrightarrow> new = table_step ul (shared s) op \<Longrightarrow>
     conc_step ul s (s\<lparr>c_data := r_data new, c_lock := Some (DataStored (r_meta new)), c_log := c_log s @ [op]\<rparr>)"
| w_meta: "c_lock s = Some (DataStored m) \<Longrightarrow> conc_step ul s (s\<lparr>c_meta := m, c_lock := None\<rparr>)"
| r_load: "conc_step ul s (s\<lparr>c_loaded := Some (c_data s)\<rparr>)"

inductive_cases conc_stepE: "conc_step ul s t"

text \<open>What \<^verbatim>\<open>GetAllWithMeta\<close> returns when its second load happens in the state \<open>s\<close>.\<close>

definition snapshot :: "conc \<Rightarrow> RecordEntry go_map" where
  "snapshot s = (case c_loaded s of None \<Rightarrow> Map.empty | Some d \<Rightarrow> GetAllWithMeta \<lparr>r_data = d, r_meta = c_meta s\<rparr>)"

text \<open>A lock-free \<^verbatim>\<open>Lookup\<close> in the state \<open>s\<close>.\<close>

definition conc_Lookup :: "(string \<Rightarrow> string) \<Rightarrow> conc \<Rightarrow> hostname \<Rightarrow> string option" where
  "conc_Lookup ul s h = c_data s (ToLower ul h)"

section \<open>The invariant\<close>

definition conc_inv :: "(string \<Rightarrow> string) \<Rightarrow> conc \<Rightarrow> bool" where
  "conc_inv ul s \<longleftrightarrow> table_run ul (c_log s) =
     (case c_lock s of Some (DataStored m) \<Rightarrow> \<lparr>r_data = c_data s, r_meta = m\<rparr> | _ \<Rightarrow> shared s)"

lemma conc_init_inv: "conc_init s \<Longrightarrow> conc_inv ul s"
  by (simp add: conc_init_def conc_inv_def table_run_def shared_def NewRecords_def)

lemma conc_step_inv: "conc_step ul s t \<Longrightarrow> conc_inv ul s \<Longrightarrow> conc_inv ul t"
  by (induction rule: conc_step.induct)
     (auto simp: conc_inv_def shared_def table_run_def split: option.splits writer.splits)

interpretation cow: step_invariant conc_init "conc_step ul" "conc_inv ul" for ul
  by unfold_locales (auto intro: conc_init_inv conc_step_inv)

section \<open>Properties\<close>

text \<open>
  C8. Lookups are linearizable: in every reachable state, in the middle of a write too, a
  lock-free lookup gives the answer of the table after running, one after the other, the
  operations that have stored their data so far; and whenever no writer is active the whole
  table, metadata included, is that of the sequential run.
\<close>

theorem lookups_linearizable:
  assumes "reachable conc_init (conc_step ul) s"
  shows "conc_Lookup ul s h = Lookup ul (table_run ul (c_log s)) h \<and>
         (c_lock s = None \<longrightarrow> shared s = table_run ul (c_log s))"
  using cow.inv_reachable [OF assms]
  by (auto simp: conc_inv_def conc_Lookup_def Lookup_def shared_def split: option.splits writer.splits)

text \<open>A writer that runs from taking the lock to releasing it.\<close>

lemma whole_write:
  assumes "reachable conc_init (conc_step ul) s" "c_lock s = None"
  shows "reachable conc_init (conc_step ul) (s\<lparr>c_data := r_data (table_step ul (shared s) op),
    c_meta := r_meta (table_step ul (shared s) op), c_log := c_log s @ [op]\<rparr>)"
proof -
  let ?s1 = "s\<lparr>c_lock := Some (Entered op)\<rparr>"
  let ?new = "table_step ul (shared s) op"
  let ?s2 = "?s1\<lparr>c_data := r_data ?new, c_lock := Some (DataStored (r_meta ?new)), c_log := c_log ?s1 @ [op]\<rparr>"
  have 1: "conc_step ul s ?s1" using assms(2) by (rule w_lock)
  have 2: "conc_step ul ?s1 ?s2" by (rule w_data) (simp_all add: shared_def)
  have 3: "conc_step ul ?s2 (?s2\<lparr>c_meta := r_meta ?new, c_lock := None\<rparr>)" by (rule w_meta) simp
  have "reachable conc_init (conc_step ul) ?s1" using assms(1) 1 by (rule reachable_step)
  then have "reachable conc_init (conc_step ul) ?s2" using 2 by (rule reachable_step)
  then have "reachable conc_init (conc_step ul) (?s2\<lparr>c_meta := r_meta ?new, c_lock := None\<rparr>)" using 3 by (rule reachable_step)
  with assms(2) show ?thesis by (cases s) simp
qed

theorem lookups_linearizable_witness:
  "\<exists>s. reachable conc_init (conc_step (\<lambda>s. s)) s \<and> c_log s = [OpAdd ''A.com'' ''1.1.1.1''] \<and>
     conc_Lookup (\<lambda>s. s) s ''a.com'' = Some ''1.1.1.1''"
proof -
  let ?i = "\<lparr>c_data = r_data NewRecords, c_meta = r_meta NewRecords, c_lock = None, c_loaded = None, c_log = []\<rparr>"
  have "reachable conc_init (conc_step (\<lambda>s. s)) ?i" by (rule reachable_init) (simp add: conc_init_def)
  from whole_write [OF this, of "OpAdd ''A.com'' ''1.1.1.1''"]
  obtain s where s: "reachable conc_init (conc_step (\<lambda>s. s)) s" "c_log s = [OpAdd ''A.com'' ''1.1.1.1'']" by force
  from lookups_linearizable [OF s(1), of "''a.com''"] s show ?thesis
    by (intro exI [of _ s]) (simp add: table_run_def store_simps lower_eval)
qed

text \<open>
  C40. A full state can be torn: \<^verbatim>\<open>GetAllWithMeta\<close> loads the data before an update of a
  name and the metadata after it, and so pairs the old address with the new stamp, an entry
  that no sequential run of the table ever held. A peer that merges it refuses the message
  with the true address afterwards, since the stamps are equal.
\<close>

theorem snapshot_can_be_torn:
  assumes "sint t1 < sint t2" "ToLower ul h = h"
  shows "\<exists>s. reachable conc_init (conc_step ul) s \<and>
    c_log s = [OpApply (sample_add h ip1 t1 n), OpApply (sample_add h ip2 t2 n)] \<and>
    snapshot s h = Some \<lparr>entry_IP = ip1, entry_Timestamp = t2, entry_NodeID = n\<rparr> \<and>
    Lookup ul (shared s) h = Some ip2 \<and>
    Lookup ul (fold (apply_msg ul) [merge_msg h (the (snapshot s h)), sample_add h ip2 t2 n] NewRecords) h = Some ip1"
proof -
  let ?i = "\<lparr>c_data = r_data NewRecords, c_meta = r_meta NewRecords, c_lock = None, c_loaded = None, c_log = []\<rparr>"
  let ?r1 = "\<lparr>r_data = [h \<mapsto> ip1], r_meta = [h \<mapsto> \<lparr>meta_Timestamp = t1, meta_NodeID = n\<rparr>]\<rparr>"
  let ?r2 = "\<lparr>r_data = [h \<mapsto> ip2], r_meta = [h \<mapsto> \<lparr>meta_Timestamp = t2, meta_NodeID = n\<rparr>]\<rparr>"
  let ?o1 = "OpApply (sample_add h ip1 t1 n)" and ?o2 = "OpApply (sample_add h ip2 t2 n)"
  have st1: "table_step ul NewRecords ?o1 = ?r1"
    using assms(2) by (simp add: NewRecords_def sample_msgs ApplyMessage_def AddWithMeta_def)
  have st2: "table_step ul ?r1 ?o2 = ?r2"
    using assms by (simp add: sample_msgs ApplyMessage_def AddWithMeta_def Let_def meta_stamp_def stamp_def not_le)
  let ?s1 = "\<lparr>c_data = [h \<mapsto> ip1], c_meta = [h \<mapsto> \<lparr>meta_Timestamp = t1, meta_NodeID = n\<rparr>], c_lock = None, c_loaded = None, c_log = [?o1]\<rparr>"
  let ?s2 = "?s1\<lparr>c_loaded := Some [h \<mapsto> ip1]\<rparr>"
  let ?s3 = "?s2\<lparr>c_data := [h \<mapsto> ip2], c_meta := [h \<mapsto> \<lparr>meta_Timestamp = t2, meta_NodeID = n\<rparr>], c_log := [?o1, ?o2]\<rparr>"
  have "reachable conc_init (conc_step ul) ?i" by (rule reachable_init) (simp add: conc_init_def)
  from whole_write [OF this, of ?o1] have "reachable conc_init (conc_step ul) ?s1"
    using st1 by (simp add: shared_def NewRecords_def)
  moreover have "conc_step ul ?s1 ?s2" using r_load [of ul ?s1] by simp
  ultimately have "reachable conc_init (conc_step ul) ?s2" by (rule reachable_step)
  from whole_write [OF this, of ?o2] have r3: "reachable conc_init (conc_step ul) ?s3"
    using st2 by (simp add: shared_def)
  have snap: "snapshot ?s3 h = Some \<lparr>entry_IP = ip1, entry_Timestamp = t2, entry_NodeID = n\<rparr>"
    by (simp add: snapshot_def GetAllWithMeta_def entry_of_def)
  have "Lookup ul (shared ?s3) h = Some ip2" using assms(2) by (simp add: Lookup_def shared_def)
  moreover have "Lookup ul (fold (apply_msg ul) [merge_msg h (the (snapshot ?s3 h)), sample_add h ip2 t2 n] NewRecords) h = Some ip1"
    unfolding snap using assms(2)
    by (simp add: merge_msg_def sample_msgs reg_Lookup reg_apply_msg reg_apply_def meta_stamp_def)
  ultimately show ?thesis using r3 snap by (intro exI [of _ ?s3] conjI) simp_all
qed

theorem snapshot_can_be_torn_witness:
  "\<exists>s. reachable conc_init (conc_step (\<lambda>s. s)) s \<and>
    snapshot s ''a.com'' = Some \<lparr>entry_IP = ''1.1.1.1'', entry_Timestamp = 2, entry_NodeID = ''n''\<rparr>"
  using snapshot_can_be_torn [of 1 2 "\<lambda>s. s" "''a.com''" "''1.1.1.1''" "''n''" "''2.2.2.2''"]
  by (auto simp: lower_eval)

end
