(* ===== verification/TE_Concurrency.thy ===== *)
theory TE_Concurrency
  imports TE_File_Watcher
begin

text \<open>
  Reloads that overlap. The function of the debounce timer runs in a goroutine of its own, and
  arming the timer again does not wait for a reload that is under way, so several reloads may
  run at once. \<^verbatim>\<open>loadAllConfigs\<close> takes no lock: it lists the directory, then
  reads one file after the other, then replaces the table in one atomic store. These are the
  steps of a job here; between them the directory may change, events may arrive and other jobs
  may run. Looking at one file is one step: its kind and its content are taken
  at one instant, where the code stats the file, opens it and reads it in several calls, so a file
  that is replaced between these calls, or written while it is read, is outside this model.
  \<open>w_past\<close> remembers every entry the directory ever had. The load that
  \<^verbatim>\<open>Start\<close> does ends before the event loop starts, so it is part of the initial
  state. The metrics are left out.
\<close>

section \<open>The system\<close>

datatype job = Begun | Scanning "string list" "string go_map"

record te_world =
  w_disk :: "dir_entry list"
  w_past :: "dir_entry list"
  w_events :: "string list"
  w_fw :: FileWatcher
  w_jobs :: "job list"
  w_table :: te_Records

text \<open>The entry of a name at the moment it is read; a file that is gone gives an error.\<close>

definition entry_now :: "dir_entry list \<Rightarrow> string \<Rightarrow> dir_entry" where
  "entry_now disk name =
     (case find (\<lambda>e. de_Name e = name) disk of
        Some e \<Rightarrow> e
      | None \<Rightarrow> \<lparr>de_Name = name, de_IsDir = False, de_Regular = Inl ''file does not exist'', de_Content = Inl ''file does not exist''\<rparr>)"

definition put_hosts :: "(string \<Rightarrow> string) \<Rightarrow> FileWatcher \<Rightarrow> dir_entry \<Rightarrow> string go_map \<Rightarrow> string go_map" where
  "put_hosts ul fw e acc = foldl (\<lambda>acc host. acc(host \<mapsto> fw_hostIP fw)) acc (fst (load_entry ul fw e))"

definition end_job :: "nat \<Rightarrow> job list \<Rightarrow> job list" where
  "end_job i js = take i js @ drop (Suc i) js"

text \<open>
  What the program does, and what happens to it: the directory changes, with an event for the
  name that changed, and the listing of a reload may fail.
\<close>

inductive program_step :: "(string \<Rightarrow> string) \<Rightarrow> (string go_map \<Rightarrow> string list) \<Rightarrow> te_world \<Rightarrow> te_world \<Rightarrow> bool"
  for ul ord where
  event_handled: "w_events w = name # es \<Longrightarrow>
     program_step ul ord w (w\<lparr>w_events := es, w_fw := te_handleEvent name (w_fw w)\<rparr>)"
| timer_expires: "fw_debounceTimer (w_fw w) \<Longrightarrow>
     program_step ul ord w (w\<lparr>w_fw := (w_fw w)\<lparr>fw_debounceTimer := False\<rparr>, w_jobs := w_jobs w @ [Begun]\<rparr>)"
| job_lists: "i < length (w_jobs w) \<Longrightarrow> w_jobs w ! i = Begun \<Longrightarrow>
     program_step ul ord w (w\<lparr>w_jobs := (w_jobs w)[i := Scanning (map de_Name (w_disk w)) Map.empty]\<rparr>)"
| job_reads: "i < length (w_jobs w) \<Longrightarrow> w_jobs w ! i = Scanning (name # names) acc \<Longrightarrow>
     program_step ul ord w (w\<lparr>w_jobs := (w_jobs w)[i := Scanning names (put_hosts ul (w_fw w) (entry_now (w_disk w) name) acc)]\<rparr>)"
| job_stores: "i < length (w_jobs w) \<Longrightarrow> w_jobs w ! i = Scanning [] acc \<Longrightarrow>
     program_step ul ord w (w\<lparr>w_table := te_ReplaceAll ul ord acc (w_table w), w_jobs := end_job i (w_jobs w)\<rparr>)"

inductive world_step :: "(string \<Rightarrow> string) \<Rightarrow> (string go_map \<Rightarrow> string list) \<Rightarrow> te_world \<Rightarrow> te_world \<Rightarrow> bool"
  for ul ord where
  disk_changes: "distinct (map de_Name d) \<Longrightarrow> \<forall>e. de_Name e \<noteq> name \<longrightarrow> (e \<in> set d \<longleftrightarrow> e \<in> set (w_disk w)) \<Longrightarrow>
     world_step ul ord w (w\<lparr>w_disk := d, w_past := w_past w @ d, w_events := w_events w @ [name]\<rparr>)"
| job_fails: "i < length (w_jobs w) \<Longrightarrow> w_jobs w ! i = Begun \<Longrightarrow> world_step ul ord w (w\<lparr>w_jobs := end_job i (w_jobs w)\<rparr>)"
| program_runs: "program_step ul ord w w' \<Longrightarrow> world_step ul ord w w'"

lemmas world_runs = program_step.intros [THEN program_runs]

definition world_init :: "(string \<Rightarrow> string) \<Rightarrow> (string go_map \<Rightarrow> string list) \<Rightarrow> te_world \<Rightarrow> bool" where
  "world_init ul ord w \<longleftrightarrow> (\<exists>disk fw m. distinct (map de_Name disk) \<and> \<not> fw_debounceTimer fw \<and>
     w = \<lparr>w_disk = disk, w_past = disk, w_events = [], w_fw = fw, w_jobs = [],
          w_table = fst (snd (loadAllConfigs ul ord fw (Inr disk) (te_NewRecords, m)))\<rparr>)"

section \<open>What the table can hold\<close>

definition from_past :: "(string \<Rightarrow> string) \<Rightarrow> te_world \<Rightarrow> string go_map \<Rightarrow> bool" where
  "from_past ul w hosts \<longleftrightarrow> finite (dom hosts) \<and> (\<forall>h ip. hosts h = Some ip \<longrightarrow>
     ip = fw_hostIP (w_fw w) \<and> (\<exists>e \<in> set (w_past w). h \<in> set (fst (load_entry ul (w_fw w) e))))"

fun job_hosts :: "job \<Rightarrow> string go_map" where
  "job_hosts Begun = Map.empty"
| "job_hosts (Scanning names acc) = acc"

definition world_inv :: "(string \<Rightarrow> string) \<Rightarrow> te_world \<Rightarrow> bool" where
  "world_inv ul w \<longleftrightarrow> distinct (map de_Name (w_disk w)) \<and> set (w_disk w) \<subseteq> set (w_past w) \<and>
     from_past ul w (w_table w) \<and> (\<forall>j \<in> set (w_jobs w). from_past ul w (job_hosts j))"

lemma load_entry_timer [simp]: "load_entry ul (fw\<lparr>fw_debounceTimer := b\<rparr>) e = load_entry ul fw e"
  by (cases fw) (simp only: load_entry_def FileWatcher.simps)

lemma entry_now_or_gone: "entry_now disk name \<in> set disk \<or> load_entry ul fw (entry_now disk name) = ([], False)"
proof (cases "find (\<lambda>e. de_Name e = name) disk")
  case None
  then show ?thesis by (simp add: entry_now_def load_entry_def)
next
  case (Some e)
  then have "e \<in> set disk" by (auto simp: find_Some_iff)
  with Some show ?thesis by (simp add: entry_now_def)
qed

lemma put_hosts_at:
  "put_hosts ul fw e acc h = (if h \<in> set (fst (load_entry ul fw e)) then Some (fw_hostIP fw) else acc h)"
  by (simp add: put_hosts_def put_all)

lemma finite_put_hosts: "finite (dom acc) \<Longrightarrow> finite (dom (put_hosts ul fw e acc))"
  by (simp add: put_hosts_def put_all) (rule finite_subset [of _ "dom acc \<union> set (fst (load_entry ul fw e))"], auto split: if_splits)

lemma end_job_sub: "set (end_job i js) \<subseteq> set js"
  by (auto simp: end_job_def dest: in_set_takeD in_set_dropD)

lemma from_past_mono:
  assumes "from_past ul w hosts" "set (w_past w) \<subseteq> set (w_past w')" "fw_hostIP (w_fw w') = fw_hostIP (w_fw w)"
    and "\<And>e. load_entry ul (w_fw w') e = load_entry ul (w_fw w) e"
  shows "from_past ul w' hosts"
  using assms unfolding from_past_def by (metis subsetD)

lemma from_past_put:
  assumes "from_past ul w acc" "set (w_disk w) \<subseteq> set (w_past w)"
  shows "from_past ul w (put_hosts ul (w_fw w) (entry_now (w_disk w) name) acc)"
proof -
  have e: "\<exists>e \<in> set (w_past w). h \<in> set (fst (load_entry ul (w_fw w) e))"
    if "h \<in> set (fst (load_entry ul (w_fw w) (entry_now (w_disk w) name)))" for h
    using that assms(2) entry_now_or_gone [of "w_disk w" name ul "w_fw w"] by auto
  show ?thesis using assms(1) e by (auto simp: from_past_def put_hosts_at finite_put_hosts split: if_splits)
qed

lemma ReplaceAll_past:
  assumes "lower_ok ul" "range_order ord" "from_past ul w acc"
  shows "te_ReplaceAll ul ord acc r = acc"
  by (rule ReplaceAll_lower [OF assms(2)]) (use assms(1,3) in \<open>auto simp: from_past_def dest: load_entry_lower\<close>)


lemma te_handleEvent_keeps:
  "fw_hostIP (te_handleEvent name fw) = fw_hostIP fw" "load_entry ul (te_handleEvent name fw) e = load_entry ul fw e"
  by (simp_all add: te_handleEvent_def)

lemma world_init_inv:
  assumes "lower_ok ul" "range_order ord" "world_init ul ord w"
  shows "world_inv ul w"
proof -
  obtain disk fw m where d: "distinct (map de_Name disk)" and w: "w = \<lparr>w_disk = disk, w_past = disk, w_events = [], w_fw = fw, w_jobs = [],
      w_table = fst (snd (loadAllConfigs ul ord fw (Inr disk) (te_NewRecords, m)))\<rparr>"
    using assms(3) by (auto simp: world_init_def)
  have "from_past ul w (w_table w)"
    unfolding w from_past_def loadAllConfigs_result [OF assms(1,2)] Let_def using loaded_finite by (auto split: if_splits)
  with d show ?thesis by (simp add: world_inv_def w)
qed

lemma program_step_inv:
  assumes "program_step ul ord w w'" "lower_ok ul" "range_order ord" "world_inv ul w"
  shows "world_inv ul w'"
  using assms(1,4)
proof (induction rule: program_step.induct)
  case (event_handled w name es)
  then show ?case by (simp add: world_inv_def from_past_def te_handleEvent_keeps)
next
  case (timer_expires w)
  then show ?case by (auto simp: world_inv_def from_past_def)
next
  case (job_lists i w)
  then show ?case by (auto simp: world_inv_def from_past_def dest!: set_update_subset_insert [THEN subsetD])
next
  case (job_reads i w name names acc)
  then have "from_past ul w acc" by (metis nth_mem job_hosts.simps(2) world_inv_def)
  then have "from_past ul w (put_hosts ul (w_fw w) (entry_now (w_disk w) name) acc)"
    using job_reads by (intro from_past_put) (auto simp: world_inv_def)
  with job_reads show ?case by (auto simp: world_inv_def from_past_def dest!: set_update_subset_insert [THEN subsetD])
next
  case (job_stores i w acc)
  then have "from_past ul w acc" by (metis nth_mem job_hosts.simps(2) world_inv_def)
  with job_stores ReplaceAll_past [OF assms(2,3) this] end_job_sub [of i "w_jobs w"] show ?case
    by (auto simp: world_inv_def from_past_def)
qed

lemma world_step_inv:
  assumes "world_step ul ord w w'" "lower_ok ul" "range_order ord" "world_inv ul w"
  shows "world_inv ul w'"
  using assms(1,4)
proof (induction rule: world_step.induct)
  case (disk_changes d name w)
  have "from_past ul (w\<lparr>w_disk := d, w_past := w_past w @ d, w_events := w_events w @ [name]\<rparr>) hosts"
    if "from_past ul w hosts" for hosts using that by (rule from_past_mono) simp_all
  with disk_changes show ?case by (simp add: world_inv_def)
next
  case (job_fails i w)
  then show ?case using end_job_sub [of i "w_jobs w"] by (auto simp: world_inv_def from_past_def)
next
  case (program_runs w w')
  then show ?case using program_step_inv [OF _ assms(2,3)] by blast
qed

interpretation wor: step_invariant "world_init ul ord" "world_step ul ord" "\<lambda>w. lower_ok ul \<and> range_order ord \<longrightarrow> world_inv ul w"
  for ul ord
  by unfold_locales (blast intro: world_init_inv world_step_inv)+

section \<open>Reloads of a directory that does not change\<close>

text \<open>What a reload stores if the directory stays as it is.\<close>

definition disk_hosts :: "(string \<Rightarrow> string) \<Rightarrow> FileWatcher \<Rightarrow> dir_entry list \<Rightarrow> string go_map" where
  "disk_hosts ul fw disk = (\<lambda>h. if \<exists>e \<in> set disk. h \<in> set (fst (load_entry ul fw e)) then Some (fw_hostIP fw) else None)"

definition scan :: "(string \<Rightarrow> string) \<Rightarrow> FileWatcher \<Rightarrow> dir_entry list \<Rightarrow> string list \<Rightarrow> string go_map \<Rightarrow> string go_map" where
  "scan ul fw disk names acc = foldl (\<lambda>acc name. put_hosts ul fw (entry_now disk name) acc) acc names"

lemma scan_at:
  "scan ul fw disk names acc h = (if \<exists>n \<in> set names. h \<in> set (fst (load_entry ul fw (entry_now disk n)))
     then Some (fw_hostIP fw) else acc h)"
  by (induction names arbitrary: acc) (auto simp: scan_def put_hosts_at)

lemma entry_now_here: "distinct (map de_Name disk) \<Longrightarrow> e \<in> set disk \<Longrightarrow> entry_now disk (de_Name e) = e"
  by (induction disk) (auto simp: entry_now_def)

lemma scan_disk: "distinct (map de_Name disk) \<Longrightarrow> scan ul fw disk (map de_Name disk) Map.empty = disk_hosts ul fw disk"
  by (rule ext) (simp add: scan_at disk_hosts_def entry_now_here)

lemma ReplaceAll_disk:
  assumes "lower_ok ul" "range_order ord"
  shows "te_ReplaceAll ul ord (disk_hosts ul fw disk) r = disk_hosts ul fw disk"
  by (rule ReplaceAll_lower [OF assms(2)])
     (use assms(1) in \<open>auto simp: disk_hosts_def dest: load_entry_lower intro: loaded_finite split: if_splits\<close>)

lemma watcher_same:
  "scan ul (fw\<lparr>fw_debounceTimer := b\<rparr>) disk names acc = scan ul fw disk names acc"
  "disk_hosts ul (fw\<lparr>fw_debounceTimer := b\<rparr>) disk = disk_hosts ul fw disk"
  by (simp_all add: scan_def put_hosts_def disk_hosts_def cong: if_cong)

text \<open>
  The program is catching up with the directory \<open>disk\<close>, whose hosts are \<open>T\<close>: every reload under way
  will store \<open>T\<close>, and one is under way or due if \<open>T\<close> is not yet in the table.
\<close>

definition catching :: "(string \<Rightarrow> string) \<Rightarrow> dir_entry list \<Rightarrow> string go_map \<Rightarrow> te_world \<Rightarrow> bool" where
  "catching ul disk T w \<longleftrightarrow> distinct (map de_Name disk) \<and> w_disk w = disk \<and> T = disk_hosts ul (w_fw w) disk \<and>
     (\<forall>names acc. Scanning names acc \<in> set (w_jobs w) \<longrightarrow> scan ul (w_fw w) disk names acc = T) \<and>
     (fw_debounceTimer (w_fw w) \<or> (\<exists>name \<in> set (w_events w). relevant name) \<or> w_jobs w \<noteq> [] \<or> w_table w = T)"

fun job_work :: "nat \<Rightarrow> job \<Rightarrow> nat" where
  "job_work d Begun = d + 2"
| "job_work d (Scanning names acc) = length names + 1"

definition reload_work :: "te_world \<Rightarrow> nat" where
  "reload_work w = (let d = length (w_disk w)
     in length (w_events w) * (d + 4) + (if fw_debounceTimer (w_fw w) then d + 3 else 0) + sum_list (map (job_work d) (w_jobs w)))"

lemma sum_list_at:
  "i < length xs \<Longrightarrow> sum_list (map f xs) = f (xs ! i) + sum_list (map f (end_job i xs))"
  "i < length xs \<Longrightarrow> sum_list (map f (xs[i := x])) = f x + sum_list (map f (end_job i xs))"
  for f :: "job \<Rightarrow> nat"
  by (simp_all add: end_job_def upd_conv_take_nth_drop) (subst id_take_nth_drop [of i xs], simp_all)

lemma end_job_update [simp]: "end_job i (js[i := j]) = end_job i js"
  by (simp add: end_job_def)

lemma program_works: "program_step ul ord w w' \<Longrightarrow> reload_work w' < reload_work w"
proof (induction rule: program_step.induct)
  case (event_handled w name es)
  then show ?case by (auto simp: reload_work_def Let_def te_handleEvent_def)
qed (auto simp: reload_work_def Let_def sum_list_at)

lemma program_catching:
  assumes "program_step ul ord w w'" "lower_ok ul" "range_order ord" "catching ul disk T w"
  shows "catching ul disk T w'"
  using assms(1,4)
proof (induction rule: program_step.induct)
  case (event_handled w name es)
  then show ?case by (auto simp: catching_def watcher_same te_handleEvent_armed)
next
  case (timer_expires w)
  then show ?case by (auto simp: catching_def watcher_same)
next
  case (job_lists i w)
  then show ?case by (auto simp: catching_def scan_disk dest!: set_update_subset_insert [THEN subsetD])
next
  case (job_reads i w name names acc)
  then have "scan ul (w_fw w) disk (name # names) acc = T" by (metis catching_def nth_mem)
  then have "scan ul (w_fw w) disk names (put_hosts ul (w_fw w) (entry_now (w_disk w) name) acc) = T"
    using job_reads by (simp add: catching_def scan_def)
  with job_reads show ?case by (auto simp: catching_def dest!: set_update_subset_insert [THEN subsetD])
next
  case (job_stores i w acc)
  then have "scan ul (w_fw w) disk [] acc = T" by (metis catching_def nth_mem)
  then have "acc = disk_hosts ul (w_fw w) disk" using job_stores by (simp add: catching_def scan_def)
  with job_stores ReplaceAll_disk [OF assms(2,3)] end_job_sub [of i "w_jobs w"] show ?case
    by (auto simp: catching_def)
qed

interpretation rel: bounded_progress "program_step ul ord" "\<lambda>w. lower_ok ul \<and> range_order ord \<and> catching ul disk T w" reload_work
  for ul ord disk T
  by unfold_locales (use program_catching program_works in blast)+

lemma program_stuck:
  assumes "\<forall>u. \<not> program_step ul ord w u"
  shows "w_events w = [] \<and> \<not> fw_debounceTimer (w_fw w) \<and> w_jobs w = []"
proof (intro conjI)
  show "w_events w = []" using assms event_handled by (cases "w_events w") blast+
  show "\<not> fw_debounceTimer (w_fw w)" using assms timer_expires by blast
  show "w_jobs w = []"
  proof (rule ccontr)
    assume "w_jobs w \<noteq> []"
    then have i: "0 < length (w_jobs w)" by simp
    show False
    proof (cases "w_jobs w ! 0")
      case Begun
      then show ?thesis using assms job_lists [OF i] by blast
    next
      case (Scanning names acc)
      then show ?thesis using assms job_reads [OF i] job_stores [OF i] by (cases names) blast+
    qed
  qed
qed

text \<open>An event of a configuration file, and the timer it arms, begin one more job.\<close>

lemma event_begins_job:
  assumes "w_events w = [name]" "relevant name" "\<not> fw_debounceTimer (w_fw w)"
  shows "(world_step ul ord)\<^sup>*\<^sup>* w (w\<lparr>w_events := [], w_jobs := w_jobs w @ [Begun]\<rparr>)"
proof -
  let ?w = "w\<lparr>w_events := [], w_fw := (w_fw w)\<lparr>fw_debounceTimer := True\<rparr>\<rparr>"
  have fw: "(w_fw w)\<lparr>fw_debounceTimer := False\<rparr> = w_fw w" using assms(3) by (cases "w_fw w") simp
  have "world_step ul ord w ?w"
    using world_runs(1) [of w name "[]" ul ord] assms(1,2) by (simp add: te_handleEvent_armed)
  moreover have "?w\<lparr>w_fw := (w_fw ?w)\<lparr>fw_debounceTimer := False\<rparr>, w_jobs := w_jobs ?w @ [Begun]\<rparr> =
      w\<lparr>w_events := [], w_jobs := w_jobs w @ [Begun]\<rparr>" using fw by (cases w) simp
  then have "world_step ul ord ?w (w\<lparr>w_events := [], w_jobs := w_jobs w @ [Begun]\<rparr>)"
    using world_runs(2) [of ?w ul ord] by simp
  ultimately show ?thesis by simp
qed

section \<open>Properties\<close>

text \<open>
  C24. However reloads overlap and the directory changes meanwhile, the table never holds an
  invented record: a name resolves only to the configured address, and only when some entry that
  the directory had at some time has it.
\<close>

theorem records_from_files:
  assumes "reachable (world_init ul ord) (world_step ul ord) w" "lower_ok ul" "range_order ord"
    and "te_Lookup ul (w_table w) h = Some ip"
  shows "ip = fw_hostIP (w_fw w) \<and> (\<exists>e \<in> set (w_past w). ToLower ul h \<in> set (fst (load_entry ul (w_fw w) e)))"
  using wor.inv_reachable [OF assms(1)] assms(2-) by (auto simp: world_inv_def from_past_def te_Lookup_def)

text \<open>A directory with one file, loaded; and an empty one in which the file has just appeared.\<close>

definition sample_file :: dir_entry where
  "sample_file = sample_entry ''app.yml'' ''rule: Host(`App.lan`)''"

lemma sample_file_hosts: "fst (load_entry (\<lambda>s. s) sample_fw sample_file) = [''app.lan'']"
  unfolding sample_file_def by (rule sample_entry_hosts)

lemma sample_file_name: "de_Name sample_file = ''app.yml''"
  by (simp add: sample_file_def sample_entry_def)

lemma sample_fw_idle: "\<not> fw_debounceTimer sample_fw" "fw_hostIP sample_fw = ''10.0.0.1''"
  by (simp_all add: sample_fw_def NewFileWatcher_def)

definition sample_world :: "dir_entry list \<Rightarrow> te_world" where
  "sample_world disk = \<lparr>w_disk = disk, w_past = disk, w_events = [], w_fw = sample_fw, w_jobs = [],
     w_table = fst (snd (loadAllConfigs (\<lambda>s. s) sorted_order sample_fw (Inr disk) (te_NewRecords, no_metrics)))\<rparr>"

lemma sample_world_reachable:
  "distinct (map de_Name disk) \<Longrightarrow> reachable (world_init (\<lambda>s. s) sorted_order) (world_step (\<lambda>s. s) sorted_order) (sample_world disk)"
  by (rule reachable_init) (use sample_fw_idle in \<open>auto simp: world_init_def sample_world_def\<close>)

theorem records_from_files_witness:
  "te_Lookup (\<lambda>s. s) (w_table (sample_world [sample_file])) ''APP.lan'' = Some ''10.0.0.1'' \<and>
   (\<exists>e \<in> set (w_past (sample_world [sample_file])). ToLower (\<lambda>s. s) ''APP.lan'' \<in> set (fst (load_entry (\<lambda>s. s) sample_fw e)))"
proof -
  have r: "reachable (world_init (\<lambda>s. s) sorted_order) (world_step (\<lambda>s. s) sorted_order) (sample_world [sample_file])"
    by (rule sample_world_reachable) simp
  have l: "te_Lookup (\<lambda>s. s) (w_table (sample_world [sample_file])) ''APP.lan'' = Some ''10.0.0.1''"
    by (simp add: sample_world_def loadAllConfigs_result [OF lower_ok_id range_order_sorted] te_Lookup_def sample_file_hosts sample_fw_idle lower_eval Let_def)
  from records_from_files [OF r lower_ok_id range_order_sorted l] l show ?thesis by (simp add: sample_world_def)
qed

text \<open>
  C25. The watcher catches up. From any reachable state where no reload is under way and the
  timer is armed or an event of a configuration file waits, if from then on the directory does
  not change and its listing does not fail: whatever the program does next, it comes to rest,
  after a number of steps bounded by the numbers of waiting events and of directory entries; and
  whenever it has come to rest, no event, timer or reload is left and a name resolves exactly
  when a file in the directory has it, to the configured address.
\<close>

theorem reload_catches_up:
  assumes "reachable (world_init ul ord) (world_step ul ord) w" "lower_ok ul" "range_order ord"
    and "w_jobs w = []" "fw_debounceTimer (w_fw w) \<or> (\<exists>name \<in> set (w_events w). relevant name)"
  shows "(\<exists>w'. (program_step ul ord)\<^sup>*\<^sup>* w w' \<and> (\<forall>u. \<not> program_step ul ord w' u)) \<and>
    (\<forall>n w'. (program_step ul ord ^^ n) w w' \<longrightarrow>
       n \<le> length (w_events w) * (length (w_disk w) + 4) + length (w_disk w) + 3 \<and>
       ((\<forall>u. \<not> program_step ul ord w' u) \<longrightarrow>
          w_disk w' = w_disk w \<and> w_events w' = [] \<and> \<not> fw_debounceTimer (w_fw w') \<and> w_jobs w' = [] \<and>
          (\<forall>h. te_Lookup ul (w_table w') h =
             (if \<exists>e \<in> set (w_disk w). ToLower ul h \<in> set (fst (load_entry ul (w_fw w) e)) then Some (fw_hostIP (w_fw w)) else None))))"
proof -
  let ?T = "disk_hosts ul (w_fw w) (w_disk w)"
  have "world_inv ul w" using wor.inv_reachable [OF assms(1)] assms(2,3) by blast
  then have c: "lower_ok ul \<and> range_order ord \<and> catching ul (w_disk w) ?T w" using assms(2-5) by (auto simp: catching_def world_inv_def)
  have work: "reload_work w \<le> length (w_events w) * (length (w_disk w) + 4) + length (w_disk w) + 3"
    using assms(4) by (simp add: reload_work_def Let_def)
  have rest: "w_disk w' = w_disk w \<and> w_events w' = [] \<and> \<not> fw_debounceTimer (w_fw w') \<and> w_jobs w' = [] \<and>
      (\<forall>h. te_Lookup ul (w_table w') h = te_Lookup ul ?T h)"
    if "catching ul (w_disk w) ?T w'" "\<forall>u. \<not> program_step ul ord w' u" for w'
    using that(1) program_stuck [OF that(2)] by (auto simp: catching_def)
  have T: "te_Lookup ul ?T h = (if \<exists>e \<in> set (w_disk w). ToLower ul h \<in> set (fst (load_entry ul (w_fw w) e)) then Some (fw_hostIP (w_fw w)) else None)" for h
    by (simp add: te_Lookup_def disk_hosts_def)
  have "n \<le> reload_work w" "catching ul (w_disk w) ?T w'" if "(program_step ul ord ^^ n) w w'" for n w'
    using rel.run_bounded [OF that c] by simp_all
  with rel.run_ends [OF c] rest work show ?thesis unfolding T [symmetric] by (meson le_trans)
qed

theorem reload_catches_up_witness:
  "\<exists>w w'. w_disk w = [sample_file] \<and> w_events w = [''app.yml''] \<and> (program_step (\<lambda>s. s) sorted_order)\<^sup>*\<^sup>* w w' \<and>
     te_Lookup (\<lambda>s. s) (w_table w) ''App.lan'' = None \<and> te_Lookup (\<lambda>s. s) (w_table w') ''App.lan'' = Some ''10.0.0.1''"
proof -
  let ?st = "world_step (\<lambda>s. s) sorted_order" and ?r = "reachable (world_init (\<lambda>s. s) sorted_order) (world_step (\<lambda>s. s) sorted_order)"
  let ?w = "(sample_world [])\<lparr>w_disk := [sample_file], w_past := [sample_file], w_events := [''app.yml'']\<rparr>"
  have "relevant ''app.yml''" by code_simp
  then have rel: "fw_debounceTimer (w_fw ?w) \<or> (\<exists>name \<in> set (w_events ?w). relevant name)" by simp
  have "?st (sample_world []) ((sample_world [])\<lparr>w_disk := [sample_file], w_past := w_past (sample_world []) @ [sample_file],
      w_events := w_events (sample_world []) @ [''app.yml'']\<rparr>)"
    by (rule disk_changes) (auto simp: sample_world_def sample_file_name)
  then have "?st (sample_world []) ?w" by (simp add: sample_world_def)
  with sample_world_reachable [of "[]"] have r: "?r ?w" by (auto intro: reachable_step)
  have j: "w_jobs ?w = []" by (simp add: sample_world_def)
  note up = reload_catches_up [OF r lower_ok_id range_order_sorted j rel]
  then obtain w' where run: "(program_step (\<lambda>s. s) sorted_order)\<^sup>*\<^sup>* ?w w'" and stuck: "\<forall>u. \<not> program_step (\<lambda>s. s) sorted_order w' u" by blast
  from run obtain n where "(program_step (\<lambda>s. s) sorted_order ^^ n) ?w w'" by (auto simp: rtranclp_power)
  with up stuck have "\<forall>h. te_Lookup (\<lambda>s. s) (w_table w') h = (if \<exists>e \<in> set (w_disk ?w). ToLower (\<lambda>s. s) h \<in> set (fst (load_entry (\<lambda>s. s) (w_fw ?w) e))
       then Some (fw_hostIP (w_fw ?w)) else None)" by blast
  then have "te_Lookup (\<lambda>s. s) (w_table w') ''App.lan'' = Some ''10.0.0.1''"
    by (simp add: sample_world_def sample_file_hosts sample_fw_idle lower_eval)
  moreover have "te_Lookup (\<lambda>s. s) (w_table ?w) ''App.lan'' = None"
    by (simp add: sample_world_def loadAllConfigs_result [OF lower_ok_id range_order_sorted] te_Lookup_def)
  ultimately show ?thesis using run by (intro exI [of _ ?w] exI [of _ w']) simp
qed

text \<open>
  C26. A stale reload can win: two reloads that overlap store in the opposite order of their
  listing. A file is created, its reload reads it and is delayed; the file is removed, and the
  next reload, started by the event of the removal, stores the empty table; then the first one
  stores what it had read. No event is left, no timer is armed and no reload runs, yet the name of
  the removed file resolves until some other file changes.
\<close>

theorem stale_reload_wins:
  assumes "lower_ok ul" "range_order ord" "\<not> fw_debounceTimer fw" "relevant (de_Name e)" "h \<in> set (fst (load_entry ul fw e))"
  shows "\<exists>w. reachable (world_init ul ord) (world_step ul ord) w \<and> w_events w = [] \<and> w_jobs w = [] \<and>
    \<not> fw_debounceTimer (w_fw w) \<and> w_disk w = [] \<and> te_Lookup ul (w_table w) h = Some (fw_hostIP fw)"
proof -
  let ?st = "world_step ul ord" and ?n = "de_Name e" and ?acc = "put_hosts ul fw e Map.empty"
  let ?w = "\<lambda>disk past events jobs table. \<lparr>w_disk = disk, w_past = past, w_events = events, w_fw = fw, w_jobs = jobs, w_table = table\<rparr>"
  have init: "fst (snd (loadAllConfigs ul ord fw (Inr []) (te_NewRecords, no_metrics))) = Map.empty"
    unfolding loadAllConfigs_result [OF assms(1,2)] by simp
  have start: "reachable (world_init ul ord) ?st (?w [] [] [] [] Map.empty)"
    by (rule reachable_init) (use assms(3) init [symmetric] in \<open>force simp: world_init_def\<close>)
  have store: "te_ReplaceAll ul ord Map.empty t = Map.empty" "te_ReplaceAll ul ord ?acc t = ?acc" for t
    by (rule ReplaceAll_lower [OF assms(2)]; auto simp: put_hosts_at load_entry_lower [OF assms(1)] intro: finite_put_hosts split: if_splits)+
  have 1: "?st (?w [] [] [] [] Map.empty) (?w [e] [e] [?n] [] Map.empty)"
    using disk_changes [of "[e]" ?n "?w [] [] [] [] Map.empty"] by auto
  have 2: "?st\<^sup>*\<^sup>* (?w [e] [e] [?n] [] Map.empty) (?w [e] [e] [] [Begun] Map.empty)"
    using event_begins_job [of "?w [e] [e] [?n] [] Map.empty" ?n] assms(3,4) by simp
  have 3: "?st (?w [e] [e] [] [Begun] Map.empty) (?w [e] [e] [] [Scanning [?n] Map.empty] Map.empty)"
    using world_runs(3) [of 0 "?w [e] [e] [] [Begun] Map.empty"] by simp
  have 4: "?st (?w [e] [e] [] [Scanning [?n] Map.empty] Map.empty) (?w [e] [e] [] [Scanning [] ?acc] Map.empty)"
    using world_runs(4) [of 0 "?w [e] [e] [] [Scanning [?n] Map.empty] Map.empty"] by (simp add: entry_now_def)
  have 5: "?st (?w [e] [e] [] [Scanning [] ?acc] Map.empty) (?w [] [e] [?n] [Scanning [] ?acc] Map.empty)"
    using disk_changes [of "[]" ?n "?w [e] [e] [] [Scanning [] ?acc] Map.empty"] by auto
  have 6: "?st\<^sup>*\<^sup>* (?w [] [e] [?n] [Scanning [] ?acc] Map.empty) (?w [] [e] [] [Scanning [] ?acc, Begun] Map.empty)"
    using event_begins_job [of "?w [] [e] [?n] [Scanning [] ?acc] Map.empty" ?n] assms(3,4) by simp
  have 7: "?st (?w [] [e] [] [Scanning [] ?acc, Begun] Map.empty) (?w [] [e] [] [Scanning [] ?acc, Scanning [] Map.empty] Map.empty)"
    using world_runs(3) [of 1 "?w [] [e] [] [Scanning [] ?acc, Begun] Map.empty"] by simp
  have 8: "?st (?w [] [e] [] [Scanning [] ?acc, Scanning [] Map.empty] Map.empty) (?w [] [e] [] [Scanning [] ?acc] Map.empty)"
    using world_runs(5) [of 1 "?w [] [e] [] [Scanning [] ?acc, Scanning [] Map.empty] Map.empty" Map.empty ul ord] by (simp add: store end_job_def)
  have 9: "?st (?w [] [e] [] [Scanning [] ?acc] Map.empty) (?w [] [e] [] [] ?acc)"
    using world_runs(5) [of 0 "?w [] [e] [] [Scanning [] ?acc] Map.empty" ?acc ul ord] by (simp add: store end_job_def)
  from 1 2 3 4 5 6 7 8 9 have "?st\<^sup>*\<^sup>* (?w [] [] [] [] Map.empty) (?w [] [e] [] [] ?acc)"
    by (meson converse_rtranclp_into_rtranclp rtranclp_trans r_into_rtranclp)
  with start have "reachable (world_init ul ord) ?st (?w [] [e] [] [] ?acc)" by (rule reachable_steps)
  moreover have "te_Lookup ul ?acc h = Some (fw_hostIP fw)"
    using assms(5) load_entry_lower [OF assms(1,5)] by (simp add: te_Lookup_def put_hosts_at)
  ultimately show ?thesis using assms(3) by (intro exI [of _ "?w [] [e] [] [] ?acc"]) simp
qed

theorem stale_reload_wins_witness:
  "\<exists>w. reachable (world_init (\<lambda>s. s) sorted_order) (world_step (\<lambda>s. s) sorted_order) w \<and> w_events w = [] \<and> w_jobs w = [] \<and>
    w_disk w = [] \<and> te_Lookup (\<lambda>s. s) (w_table w) ''app.lan'' = Some ''10.0.0.1''"
proof -
  have "relevant ''app.yml''" by code_simp
  then have rel: "relevant (de_Name sample_file)" by (simp add: sample_file_name)
  have h: "''app.lan'' \<in> set (fst (load_entry (\<lambda>s. s) sample_fw sample_file))" by (simp add: sample_file_hosts)
  from stale_reload_wins [OF lower_ok_id range_order_sorted sample_fw_idle(1) rel h] show ?thesis by (auto simp: sample_fw_idle)
qed

end
