(* ===== verification/Spec2Isabelle.thy ===== *)
theory Spec2Isabelle
  imports Plugin_Chain DC_Tracking DC_Concurrency TE_Concurrency
begin

text \<open>
  \<^bold>\<open>Verification of joyride's CoreDNS plugins.\<close>

  The repository builds a CoreDNS server with two plugins. \<^verbatim>\<open>docker-cluster\<close>
  watches the containers of a Docker host, keeps a table from the host names of their labels to
  the host's address, answers DNS queries from it, and replicates the table to other hosts with
  HashiCorp's memberlist. \<^verbatim>\<open>traefik-externals\<close> reads the host rules of Traefik
  configuration files in a directory into a table of its own and answers from that.

  \<^bold>\<open>How the parts interact.\<close> The watcher writes the record table and, when
  clustering is on, calls the cluster manager for every change; the manager applies a stamped
  message to the same table and queues it; memberlist carries packets and full states between
  the delegates of the nodes, whose workers apply what they receive; the query handler reads the
  table without a lock. The file watcher replaces its table as a whole, and its handler reads it.
  A query that the first handler passes on reaches the second.

  \<^bold>\<open>Theories and sources\<close> (under \<^verbatim>\<open>src/plugins\<close>).

  \<^item> \<open>Go_Prelude\<close>, \<open>Go_Strconv\<close>, \<open>Go_Json\<close>, \<open>Go_Json_Proofs\<close>, \<open>Net_IP\<close>: what the code uses of Go
    and its standard library, written out: maps as partial functions with an iteration order
    \<open>ord\<close> that may be any enumeration of the keys, \<^verbatim>\<open>strings\<close>,
    \<^verbatim>\<open>strconv\<close>, \<^verbatim>\<open>encoding/json\<close> on bytes,
    \<^verbatim>\<open>net.ParseIP\<close>. 64-bit integers are \<open>64 word\<close> and read as signed; strings are
    byte strings. Lower-casing outside ASCII is the parameter \<open>ul\<close>, of which some properties
    assume that it is idempotent (\<open>lower_ok\<close>).
  \<^item> \<open>Interfaces\<close>: the locales. \<open>record_store\<close> is interpreted by both record tables,
    \<open>replicated_store\<close> by the gossiped one, \<open>wire_codec\<close> by messages and full states,
    \<open>step_invariant\<close> by the delegate, the Docker watcher (twice), tied exchanges, the concurrent table
    and the overlapping reloads, \<open>bounded_progress\<close> by the delegate's worker and by the reloads of a
    directory that does not change. \<open>answering_table\<close> of \<open>Dns_Api\<close> is interpreted by both query handlers.
  \<^item> \<open>DC_Message\<close>, \<open>DC_Records\<close>, \<open>DC_Delegate\<close>, \<open>DC_Cluster_Config\<close>, \<open>DC_Discovery\<close>, \<open>DC_Cluster\<close>:
    \<^verbatim>\<open>message.go\<close>, \<^verbatim>\<open>records.go\<close>, \<^verbatim>\<open>delegate.go\<close>,
    \<^verbatim>\<open>cluster_config.go\<close>, \<^verbatim>\<open>discovery.go\<close>, \<^verbatim>\<open>cluster.go\<close>
    of \<^verbatim>\<open>docker-cluster\<close>. \<open>DC_Concurrency\<close>: the lock and the two atomic values of
    \<^verbatim>\<open>records.go\<close>, one store at a time.
  \<^item> \<open>DC_Watcher\<close>: \<^verbatim>\<open>docker_watcher.go\<close>. \<open>DC_Tracking\<close>: its tracked containers and the
    records they stand for, step by step. \<open>DC_Server\<close>:
    \<^verbatim>\<open>docker_cluster.go\<close> and \<^verbatim>\<open>version/version.go\<close>.
    \<open>DC_Setup\<close>: \<^verbatim>\<open>setup.go\<close>.
  \<^item> \<open>TE_Records\<close>, \<open>TE_Parser\<close>, \<open>TE_File_Watcher\<close>, \<open>TE_Server\<close>, \<open>TE_Setup\<close>: the files of
    \<^verbatim>\<open>traefik-externals\<close> of these names, \<^verbatim>\<open>traefik_externals.go\<close> and
    \<^verbatim>\<open>metrics.go\<close>. \<open>TE_Concurrency\<close>: reloads of \<^verbatim>\<open>file_watcher.go\<close>
    that overlap, one file at a time.
  \<^item> \<open>Plugin_Chain\<close>: both plugins in the order of \<^verbatim>\<open>plugin.cfg\<close>, and the shipped
    \<^verbatim>\<open>Corefile\<close>. This theory: what holds from containers and files to answers.

  A Go struct is a record whose fields carry a prefix (\<open>dw_\<close>, \<open>d_\<close>, \<open>cm_\<close>, \<open>fw_\<close> and so on) and a
  method is a function on it with the method's name; where two types have a method of one name,
  the type stands first (\<open>delegate_Start\<close>, \<open>watcher_Start\<close>, \<open>te_Start\<close>). Tables that Go shares by
  pointer are passed and returned. Errors are values of a sum or option type.

  \<^bold>\<open>What is shown.\<close>

  \<^item> Tables: \<open>AddWithMeta\<close> refines a last-write-wins register; nodes that receive the same
    additions in any order agree, and the latest addition wins; keys stay in lower case;
    lock-free lookups are linearizable. A removal leaves no trace, so one that overtakes its
    addition, or that a peer missed, is lost; a full state can pair an old address with a new stamp.
  \<^item> Replication: messages and states decode to what was encoded; a burst of packets fills the
    channel in order up to its capacity and a single worker drains it in order; a push-pull
    exchange makes two nodes agree on a name that both hold with its stamp or not at all; every
    announcement is queued; a node that is alone joins the peers whose broadcasts it hears; a
    container started on one node is answered by another. A worker that is started once ends after
    \<^verbatim>\<open>Stop\<close>; after a second \<^verbatim>\<open>Start\<close> it may not. A local container that overrides a stamp
    that is not older makes a disagreement that no exchange settles.
  \<^item> Docker watcher: over all events and listings, a record belongs to a tracked container, and
    a name that is never disputed between containers resolves exactly when it is tracked. What a
    synchronisation does to a name is given for any state: a container recreated under a new id
    loses its names, and so does a container whose name another one shared. The waits of the loop
    stay between one second and five minutes unless it is stopped, and then it returns.
  \<^item> Handlers: what is answered is exactly what the table has, at most one message is
    written, a query is passed on only under fallthrough.
  \<^item> Traefik: the hosts found in a document are exactly those of its rules, comments left
    out; a reload makes the table exactly the hosts of the loadable files; overlapping reloads
    never invent a record but the older one can win; with no reload under way, a due reload of a
    directory that stays as it is brings the table up to date.
  \<^item> Setup: reading a Corefile ends, and a plugin that runs is checked, wired and, for
    Traefik, already loaded; shutting down stops what was started. Without fallthrough in
    the first block, as shipped, the second plugin is cut off.

  \<^bold>\<open>Parameters, loops and bounds.\<close> Packages outside the repository are parameters:
  memberlist (\<open>memberlist_api\<close>, \<open>queueb\<close>, \<open>getb\<close>; a property on the queue assumes its documented
  contract, \<open>queue_contract\<close>), the Docker client (its answers are inputs),
  \<^verbatim>\<open>dns.IsDomainName\<close> (\<open>isdom\<close>), writing a DNS message (\<open>wmsg\<close>), \<^verbatim>\<open>fall.F\<close>
  (\<open>through\<close>, \<open>setzones\<close>), Caddy's controller (\<open>advances\<close>: a method that reports success consumed a
  token; a token controller has this law). The clock, the environment, the file system and the
  sockets are inputs. A loop that serves a channel is a function of the inputs it receives, or
  steps of a relation; when \<^verbatim>\<open>Stop\<close> interrupts a turn of the watcher's loop is an input of the
  turn (\<open>stop_point\<close>). The contexts of a delegate are numbered, and each worker knows the one it
  waits on. The loops over a Corefile are a \<open>partial_function\<close> and are shown to return.
  The JSON reader takes the length of its input as fuel, and \<open>jvalue_fuel\<close> shows that more changes
  nothing; its nesting limit is that of \<^verbatim>\<open>encoding/json\<close>.

  \<^bold>\<open>Not modelled.\<close> Log output (\<^verbatim>\<open>logCurrentState\<close> and the text of messages); how
  \<^verbatim>\<open>net/http\<close> serves the version handler (its settings, start and shutdown are); what
  becomes of a datagram between two nodes; memberlist's own protocol; the metrics of overlapping
  reloads. The plugin registration in \<^verbatim>\<open>init\<close> is CoreDNS's. Interleavings inside one
  operation are modelled for the record table, for synchronisations, for the delegate's worker
  (entering its \<^verbatim>\<open>select\<close>, receiving, applying) and for reloads; other operations are atomic steps,
  and sends and receives happen between them. Looking at one file during a reload is one step, so a
  file swapped between its check and its reading, or written meanwhile, is left out.
\<close>

section \<open>From containers and files to answers\<close>

text \<open>
  C2. From containers to answers, on a node without clustering and with an IPv4 host address: in
  every state a watcher can reach, an A query of a name gets the host's address or no answer, and
  no answer unless a tracked container carries the name, letter case apart. If before every step
  of the run at most one container carried the name, in one spelling, it gets the host's address
  exactly when a tracked container carries it.
\<close>

theorem running_containers_answered:
  assumes "reachable watcher_init (watcher_step ul isdom ord) (dw, cb, r)"
    and "dw_hostIP dw = dotted a b c d" "octets [a, b, c, d]"
    and "q_QType q = TypeA" "q_Name q = h @ ''.''" "is_ascii h"
    and "msgs = fst (ServeDNS ul through (\<lambda>_. None) dc r q)"
  shows "(list_all (\<lambda>msg. rp_Answer msg = []) msgs \<or> msgs = [a_reply q (dc_TTL dc) [a, b, c, d]] \<and> claimed ul (dw_containers dw) h) \<and>
    (reachable watcher_init (undisputed_step ul isdom ord h) (dw, cb, r) \<and> claimed ul (dw_containers dw) h \<longrightarrow>
       msgs = [a_reply q (dc_TTL dc) [a, b, c, d]])"
proof -
  have found: "msgs = [a_reply q (dc_TTL dc) [a, b, c, d]]" if "Lookup ul r h = Some (dw_hostIP dw)"
    using dcs.fqdn_answered [OF assms(4-6) _ assms(3), of ul r] that assms(2,7) by simp
  have missing: "list_all (\<lambda>msg. rp_Answer msg = []) msgs" if "Lookup ul r h = None"
  proof -
    have "Lookup ul r (lookup_name ul q) = None" using that dcs.lookup_fqdn [OF assms(5,6)] by simp
    then show ?thesis unfolding assms(7) list_all_iff by (blast intro: dcs.no_record_no_answer)
  qed
  have "sound ul (dw, cb, r)" by (rule wat.inv_reachable [OF assms(1)])
  then have "Lookup ul r h = None \<or> Lookup ul r h = Some (dw_hostIP dw) \<and> claimed ul (dw_containers dw) h"
    by (cases "Lookup ul r h") (auto simp: sound_def)
  moreover have "Lookup ul r h = Some (dw_hostIP dw)"
    if "reachable watcher_init (undisputed_step ul isdom ord h) (dw, cb, r)" "claimed ul (dw_containers dw) h"
    using und.inv_reachable [OF that(1)] that(2) by (simp add: exact_at_def)
  ultimately show ?thesis using found missing by blast
qed

theorem running_containers_answered_witness:
  "fst (ServeDNS (\<lambda>s. s) (\<lambda>f _. f) (\<lambda>_. None) (sample_dc ActionDrop) (snd (snd sample_started)) (sample_query ''APP.lan'')) =
     [a_reply (sample_query ''APP.lan'') 60 [10, 0, 0, 1]]"
proof -
  have q: "q_QType (sample_query ''APP.lan'') = TypeA" "q_Name (sample_query ''APP.lan'') = ''APP.lan'' @ ''.''" "is_ascii ''APP.lan''"
    by (simp_all add: sample_query_def)
  have ip: "dw_hostIP (fst sample_started) = dotted 10 0 0 1" by (simp only: sample_started_hostIP dotted_10)
  have o: "octets [10, 0, 0, 1]" by simp
  have "dc_TTL (sample_dc ActionDrop) = 60" by (simp add: sample_dc_def)
  moreover have "claimed (\<lambda>s. s) (dw_containers (fst sample_started)) ''APP.lan''" by (simp add: sample_started_claims lower_eval)
  ultimately show ?thesis
    using running_containers_answered [where through = "\<lambda>f _. f" and dc = "sample_dc ActionDrop",
        OF sample_started_reachable [of sorted_order] ip o q refl]
      sample_started_undisputed [of sorted_order "''APP.lan''"] by simp
qed

text \<open>
  C3. From a container on one node to an answer on another: starting a container with one new
  name on a clustered node queues one packet; a peer that is started once, whose channel has room
  and whose table, with what is in the worker's hands and queued, has no later stamp for the
  name, that is handed the packet, can drain its channel, and its handler then answers A queries
  of the name with the first node's address.
\<close>

theorem container_answered_by_peer:
  assumes "dw_callback dw = Some (cluster_callback ul queueb)" "dw_containers dw cid = None" "cm_delegate cm = Some d"
    and "msg = add_msg h (dw_hostIP dw) ts (cfg_NodeName (cm_config cm))" "sendable_msg msg"
    and "d_workers db = [w] \<and> d_ctx db \<noteq> None" "length (d_msgChan db) < msgChanBufferSize"
    and "\<forall>m. GetMeta ul (settled ul (db, rb)) h = Some m \<longrightarrow> meta_stamp m < msg_stamp msg"
    and "dw_hostIP dw = dotted b1 b2 b3 b4" "octets [b1, b2, b3, b4]"
    and "q_QType q = TypeA" "q_Name q = h @ ''.''" "is_ascii h"
    and "updateContainer ul ts cid [h] (dw, Some cm, r) = (dw', cmo, r')"
  shows "\<exists>packet d' rb'. cmo = Some (cm\<lparr>cm_delegate := Some (d\<lparr>d_broadcasts := queueb (d_broadcasts d) packet\<rparr>)\<rparr>) \<and>
    (process_turn ul)\<^sup>*\<^sup>* (NotifyMsg db (Message packet), rb) (d', rb') \<and> d_msgChan d' = [] \<and> in_hand (d_workers d') = [] \<and>
    fst (ServeDNS ul through (\<lambda>_. None) dc rb' q) = [a_reply q (dc_TTL dc) [b1, b2, b3, b4]]"
proof -
  obtain packet where p: "Encode msg = Some packet" "packet \<noteq> []" "DecodeRecordMessage packet = Some msg"
    by (rule msg_codec.received [OF assms(5)])
  let ?db = "NotifyMsg db packet"
  have cmo: "cmo = Some (cm\<lparr>cm_delegate := Some (d\<lparr>d_broadcasts := queueb (d_broadcasts d) \<lparr>b_data = packet\<rparr>\<rparr>)\<rparr>)"
    using update_announces [OF assms(1-3), of ts h r] assms(4,14) p(1) by (simp add: BroadcastRecord_def)
  have rb: "settled ul (?db, rb) = apply_msg ul msg (settled ul (db, rb))"
    using p assms(7) by (intro settled_NotifyMsg)
  have "d_workers ?db = [w]" "d_ctx ?db = Some (the (d_ctx db))"
    using assms(6) NotifyMsg_accepts [OF p(3,2) assms(7)] by auto
  from drain [OF this] obtain c where turns: "(process_turn ul)\<^sup>*\<^sup>* (?db, rb) (?db\<lparr>d_msgChan := [], d_workers := [Selecting c]\<rparr>, settled ul (?db, rb))"
    by blast
  have "Lookup ul (settled ul (?db, rb)) h = Some (dotted b1 b2 b3 b4)"
    unfolding rb using assms(4,8,9)
    by (cases "r_meta (settled ul (db, rb)) (ToLower ul h)")
       (auto simp: add_msg_def ApplyMessage_def AddWithMeta_def Lookup_def GetMeta_def msg_stamp_def Let_def)
  from dcs.fqdn_answered [OF assms(11-13) this assms(10)] cmo turns show ?thesis
    by (intro exI [of _ "\<lparr>b_data = packet\<rparr>"] exI [of _ "?db\<lparr>d_msgChan := [], d_workers := [Selecting c]\<rparr>"] exI [of _ "settled ul (?db, rb)"]) (simp add: Message_def)
qed

theorem container_answered_by_peer_witness:
  "\<exists>packet d' rb'.
    (process_turn (\<lambda>s. s))\<^sup>*\<^sup>* (NotifyMsg (delegate_Start (NewClusterDelegate ''n2'' ())) (Message packet), NewRecords) (d', rb') \<and>
    fst (ServeDNS (\<lambda>s. s) (\<lambda>f _. f) (\<lambda>_. None) (sample_dc ActionDrop) rb' (sample_query ''a.lan'')) =
      [a_reply (sample_query ''a.lan'') 60 [10, 0, 0, 1]]"
proof -
  let ?cm = "sample_manager ''n1''" and ?db = "delegate_Start (NewClusterDelegate ''n2'' ())"
  let ?u = "updateContainer (\<lambda>s. s) 5 ''c1'' [''a.lan''] (clustered_watcher, Some ?cm, NewRecords)"
  have s: "sendable_msg (add_msg ''a.lan'' (dw_hostIP clustered_watcher) 5 (cfg_NodeName (cm_config ?cm)))"
    by (simp add: sample_manager_def sendable_msg_def add_msg_def ascii_valid_utf8 clustered_watcher_sel)
  have ip: "dw_hostIP clustered_watcher = dotted 10 0 0 1" by (simp only: clustered_watcher_sel dotted_10)
  have db: "d_workers ?db = [Looping] \<and> d_ctx ?db \<noteq> None" "length (d_msgChan ?db) < msgChanBufferSize"
    by (simp_all add: delegate_Start_def NewClusterDelegate_def msgChanBufferSize_def)
  have meta: "\<forall>m. GetMeta (\<lambda>s. s) (settled (\<lambda>s. s) (?db, NewRecords)) ''a.lan'' = Some m \<longrightarrow>
      meta_stamp m < msg_stamp (add_msg ''a.lan'' (dw_hostIP clustered_watcher) 5 (cfg_NodeName (cm_config ?cm)))"
    by (simp add: settled_def delegate_Start_def NewClusterDelegate_def GetMeta_def NewRecords_def)
  have q: "q_QType (sample_query ''a.lan'') = TypeA" "q_Name (sample_query ''a.lan'') = ''a.lan'' @ ''.''"
    by (simp_all add: sample_query_def)
  obtain dw' cmo r' where u: "?u = (dw', cmo, r')" by (cases ?u)
  have ttl: "dc_TTL (sample_dc ActionDrop) = 60" by (simp add: sample_dc_def)
  from container_answered_by_peer [OF clustered_watcher_sel(1) _ _ refl s db meta ip _ q _ u, of _ "\<lambda>f _. f" "sample_dc ActionDrop"]
  show ?thesis unfolding ttl by (simp add: clustered_watcher_sel sample_manager_def) blast
qed

text \<open>
  C4. From files to answers: after the directory was read, every host of every rule of a
  document that a regular YAML file of at most one mebibyte holds, in plain lines with rules
  and comments, is answered with the configured IPv4 address, whatever the other files of the
  directory are and whatever the table held before.
\<close>

theorem traefik_hosts_answered:
  assumes "lower_ok ul" "range_order ord" "loadAllConfigs ul ord fw (Inr entries) (r, m) = (err, r', m')"
    and "e \<in> set entries" "\<not> de_IsDir e" "de_Regular e = Inr True" "is_yaml (de_Name e)" "\<not> IsMiddlewareOnly (de_Name e)"
    and "de_Content e = Inr (render_doc ls)" "length (render_doc ls) \<le> maxFileSize" "\<forall>l \<in> set ls. line_ok l"
    and "CfgLine pre (Some (sni, hs)) post comment \<in> set ls" "h \<in> set hs"
    and "fw_hostIP fw = dotted a b c d" "octets [a, b, c, d]"
    and "q_QType q = TypeA" "q_Name q = h @ ''.''" "is_ascii h"
  shows "fst (fst (te_ServeDNS ul through (\<lambda>_. None) te r' m'' q)) = [a_reply q (te_TTL te) [a, b, c, d]]"
proof -
  have "h \<in> set (line_hosts sni (CfgLine pre (Some (sni, hs)) post comment))" using assms(13) by simp
  then have h: "h \<in> set (concat (map (line_hosts False) ls) @ concat (map (line_hosts True) ls))"
    using assms(12) by (cases sni) force+
  have "fst (load_entry ul fw e) = ParseContent ul (fw_parser fw) (render_doc ls)"
    using assms(5-10) by (auto simp: load_entry_def ParseFile_def is_yaml_def)
  also have "\<dots> = rev (remdups (rev (map (ToLower ul) (concat (map (line_hosts False) ls) @ concat (map (line_hosts True) ls)))))"
    unfolding ParseContent_doc [OF assms(11)] fold_keep_new ..
  finally have "ToLower ul h \<in> set (fst (load_entry ul fw e))" using h by (auto simp: image_iff)
  then have "te_Lookup ul r' h = Some (dotted a b c d)"
    using assms(3,4,14) unfolding loadAllConfigs_result [OF assms(1,2)] Let_def by (auto simp: te_Lookup_def)
  from tsv.fqdn_answered [OF assms(16-18) this assms(15)] show ?thesis .
qed

theorem traefik_hosts_answered_witness:
  "fst (fst (te_ServeDNS (\<lambda>s. s) (\<lambda>f _. f) (\<lambda>_. None) sample_te
     (fst (snd (loadAllConfigs (\<lambda>s. s) sorted_order sample_fw
        (Inr [sample_entry ''app.yml'' (render_doc [CfgLine ''rule: '' (Some (False, [''app.lan''])) [] (Some '' Host(`old.lan`)'')])])
        (te_NewRecords, no_metrics)))) no_metrics (sample_query ''app.lan''))) =
   [a_reply (sample_query ''app.lan'') 60 [10, 0, 0, 1]]"
proof -
  let ?ls = "[CfgLine ''rule: '' (Some (False, [''app.lan''])) [] (Some '' Host(`old.lan`)'')]"
  let ?e = "sample_entry ''app.yml'' (render_doc ?ls)"
  obtain err r' m' where l: "loadAllConfigs (\<lambda>s. s) sorted_order sample_fw (Inr [?e]) (te_NewRecords, no_metrics) = (err, r', m')"
    by (cases "loadAllConfigs (\<lambda>s. s) sorted_order sample_fw (Inr [?e]) (te_NewRecords, no_metrics)")
  have y: "is_yaml ''app.yml''" "\<not> IsMiddlewareOnly ''app.yml''" by code_simp+
  have e: "?e \<in> set [?e]" "\<not> de_IsDir ?e" "de_Regular ?e = Inr True" "is_yaml (de_Name ?e)" "\<not> IsMiddlewareOnly (de_Name ?e)"
    "de_Content ?e = Inr (render_doc ?ls)" using y by (simp_all add: sample_entry_def)
  have ls: "length (render_doc ?ls) \<le> maxFileSize" "\<forall>l \<in> set ?ls. line_ok l"
    by (simp_all add: render_doc_def rule_args_def quoted_def keyword_def maxFileSize_def plain_text_def host_text_def newline_def)
  have ip: "fw_hostIP sample_fw = dotted 10 0 0 1" unfolding dotted_10 by (simp add: sample_fw_def NewFileWatcher_def)
  have q: "q_QType (sample_query ''app.lan'') = TypeA" "q_Name (sample_query ''app.lan'') = ''app.lan'' @ ''.''"
    by (simp_all add: sample_query_def)
  from traefik_hosts_answered [where sni = False and through = "\<lambda>f _. f" and te = sample_te and m'' = no_metrics, OF lower_ok_id range_order_sorted l e ls _ _ ip _ q]
  show ?thesis by (simp add: l sample_te_def)
qed

end
